(* ===== verification/Prelude.thy ===== *)
theory Prelude
  imports Main "HOL-Library.AList" "HOL-Library.Multiset" "HOL-Library.Sublist"
begin

text \<open>
  What every component shares: the error values, the effect type of the functions that
  touch the database and the file system, a small rule set for facts that hold in every
  state such a function passes through, and lemmas on lists and hash maps.

  Effects. A Rust function that returns \<open>Result<A>\<close> and writes to the world is a function
  from a world to a result and a world. A failing step returns the world as the earlier
  steps left it: \<open>?\<close> ends the function, it does not undo anything.

  Hash maps. A \<open>HashMap<String, V>\<close> is the list of its entries in the order in which an
  iterator yields them, with distinct keys. A theorem about every such list is a theorem
  about every iteration order.
\<close>

named_theorems io_simps \<open>how the effect combinators compute\<close>
named_theorems keeps_rules \<open>invariant rules for the effect combinators and the operations\<close>

section \<open>Errors\<close>

text \<open>The system calls that can fail, with the path they act on.\<close>

type_synonym path = "string list"

datatype fs_op =
    MkdirAll path
  | WriteFile path
  | RenameTo path path
  | RemoveFile path
  | RemoveDirAll path
  | ReadFile path
  | ReadDir path
  | OpenFile path
  | TruncateFile path

text \<open>The constraints of the schema in \<open>db/mod.rs\<close> that a statement can violate.\<close>

datatype violation =
    PrimaryKey string
  | UniqueColumn string
  | ForeignKey string

text \<open>
  An \<open>anyhow::Error\<close> of the code, one constructor for each place it comes from. The
  text of a message is kept only where the code computes with it.
\<close>

datatype err =
    IoError fs_op
  | SqlError violation
  | ClientError string
  | BadGlob string
  | MailboxWithoutId
  | MailboxWithoutName string
  | ParentCycle string
  | UnknownParent string string
  | NoMailSection string
  | MissingBlobId string
  | NoPlatformDir string
  | ParseFailure string
  | Refused string

text \<open>\<open>?\<close> in a function that only returns a result.\<close>

definition rbind :: "err + 'a \<Rightarrow> ('a \<Rightarrow> err + 'b) \<Rightarrow> err + 'b" where
  "rbind r f = (case r of Inl e \<Rightarrow> Inl e | Inr x \<Rightarrow> f x)"

lemma rbind_Inl [simp]: "rbind (Inl e) f = Inl e"
  by (simp add: rbind_def)

lemma rbind_Inr [simp]: "rbind (Inr x) f = f x"
  by (simp add: rbind_def)

lemma rbind_eq_Inr: "rbind r f = Inr y \<longleftrightarrow> (\<exists>x. r = Inr x \<and> f x = Inr y)"
  by (cases r) simp_all

fun map_result :: "('a \<Rightarrow> err + 'b) \<Rightarrow> 'a list \<Rightarrow> err + 'b list" where
  "map_result f [] = Inr []"
| "map_result f (x # xs) = rbind (f x) (\<lambda>y. rbind (map_result f xs) (\<lambda>ys. Inr (y # ys)))"

lemma if_Inl_eq_Inr: "(if b then Inl e else r) = Inr y \<longleftrightarrow> \<not> b \<and> r = Inr y"
  by simp

section \<open>Effects\<close>

type_synonym ('w, 'a) io = "'w \<Rightarrow> (err + 'a) \<times> 'w"

definition ret :: "'a \<Rightarrow> ('w, 'a) io" where
  "ret x = (\<lambda>w. (Inr x, w))"

definition throw :: "err \<Rightarrow> ('w, 'a) io" where
  "throw e = (\<lambda>w. (Inl e, w))"

definition bindE :: "('w, 'a) io \<Rightarrow> ('a \<Rightarrow> ('w, 'b) io) \<Rightarrow> ('w, 'b) io" where
  "bindE m f = (\<lambda>w. case m w of (Inl e, w') \<Rightarrow> (Inl e, w') | (Inr x, w') \<Rightarrow> f x w')"

definition liftE :: "err + 'a \<Rightarrow> ('w, 'a) io" where
  "liftE r = (\<lambda>w. (r, w))"

text \<open>A \<open>for\<close> loop with a mutable accumulator and \<open>?\<close> in its body.\<close>

fun foldE :: "('b \<Rightarrow> 's \<Rightarrow> ('w, 's) io) \<Rightarrow> 'b list \<Rightarrow> 's \<Rightarrow> ('w, 's) io" where
  "foldE f [] s = ret s"
| "foldE f (x # xs) s = bindE (f x s) (foldE f xs)"

lemma ret_run [io_simps, simp]: "ret x w = (Inr x, w)"
  by (simp add: ret_def)

lemma throw_run [io_simps, simp]: "throw e w = (Inl e, w)"
  by (simp add: throw_def)

lemma liftE_run [io_simps, simp]: "liftE r w = (r, w)"
  by (simp add: liftE_def)

lemma bindE_run [io_simps]:
  "bindE m f w = (case m w of (Inl e, w') \<Rightarrow> (Inl e, w') | (Inr x, w') \<Rightarrow> f x w')"
  by (simp add: bindE_def)

lemma bindE_Inr [simp]: "m w = (Inr x, w') \<Longrightarrow> bindE m f w = f x w'"
  by (simp add: bindE_def)

lemma bindE_Inl [simp]: "m w = (Inl e, w') \<Longrightarrow> bindE m f w = (Inl e, w')"
  by (simp add: bindE_def)

lemma bindE_ret [simp]: "bindE (ret x) f = f x"
  by (rule ext) simp

lemma bindE_assoc: "bindE (bindE m f) g = bindE m (\<lambda>x. bindE (f x) g)"
  by (auto simp: bindE_def fun_eq_iff split: prod.splits sum.splits)

lemma bindE_eq_Inr:
  "bindE m f w = (Inr y, w') \<longleftrightarrow> (\<exists>x w1. m w = (Inr x, w1) \<and> f x w1 = (Inr y, w'))"
  by (auto simp: bindE_def split: prod.splits sum.splits)

text \<open>A loop that ends without an error has made every turn: an invariant of its turns
  holds of the whole list at the end.\<close>

lemma foldE_outcome:
  assumes "foldE f xs s w = (Inr s', w')" and "I [] s w"
    and "\<And>pre x post s w s1 w1. xs = pre @ x # post \<Longrightarrow> I pre s w \<Longrightarrow> f x s w = (Inr s1, w1) \<Longrightarrow>
      I (pre @ [x]) s1 w1"
  shows "I xs s' w'"
proof -
  have "foldE f post s w = (Inr s', w') \<Longrightarrow> I pre s w \<Longrightarrow> xs = pre @ post \<Longrightarrow> I xs s' w'" for pre post s w
  proof (induction post arbitrary: pre s w)
    case (Cons x post)
    from Cons.prems(1) obtain s1 w1 where step: "f x s w = (Inr s1, w1)"
      and rest: "foldE f post s1 w1 = (Inr s', w')" by (auto simp: bindE_eq_Inr)
    have "I (pre @ [x]) s1 w1" using assms(3) [OF _ Cons.prems(2) step] Cons.prems(3) by simp
    from Cons.IH [OF rest this] Cons.prems(3) show ?case by simp
  qed simp
  with assms(1,2) show ?thesis by blast
qed

subsection \<open>Invariants of effects\<close>

text \<open>
  \<open>keeps P m\<close>: from a world with \<open>P\<close>, \<open>m\<close> ends in a world with \<open>P\<close>, whether it
  succeeds or fails. Taking \<open>P\<close> to be "equal to the first world" gives "writes nothing".
\<close>

definition keeps :: "('w \<Rightarrow> bool) \<Rightarrow> ('w, 'a) io \<Rightarrow> bool" where
  "keeps P m \<longleftrightarrow> (\<forall>w. P w \<longrightarrow> P (snd (m w)))"

lemma keepsI: "(\<And>w. P w \<Longrightarrow> P (snd (m w))) \<Longrightarrow> keeps P m"
  by (simp add: keeps_def)

lemma keepsD: "keeps P m \<Longrightarrow> P w \<Longrightarrow> P (snd (m w))"
  by (simp add: keeps_def)

lemma keeps_ret [keeps_rules]: "keeps P (ret x)"
  by (simp add: keeps_def)

lemma keeps_throw [keeps_rules]: "keeps P (throw e)"
  by (simp add: keeps_def)

lemma keeps_liftE [keeps_rules]: "keeps P (liftE r)"
  by (simp add: keeps_def)

lemma keeps_bindE [keeps_rules]:
  "keeps P m \<Longrightarrow> (\<And>x. keeps P (f x)) \<Longrightarrow> keeps P (bindE m f)"
  by (fastforce simp: keeps_def bindE_def split: prod.splits sum.splits)

lemma keeps_foldE [keeps_rules]:
  "(\<And>x s. x \<in> set xs \<Longrightarrow> keeps P (f x s)) \<Longrightarrow> keeps P (foldE f xs s)"
  by (induction xs arbitrary: s) (auto intro!: keeps_rules)

lemma keeps_if [keeps_rules]:
  "(b \<Longrightarrow> keeps P m) \<Longrightarrow> (\<not> b \<Longrightarrow> keeps P n) \<Longrightarrow> keeps P (if b then m else n)"
  by simp

lemma keeps_option [keeps_rules]:
  "(x = None \<Longrightarrow> keeps P m) \<Longrightarrow> (\<And>y. x = Some y \<Longrightarrow> keeps P (f y)) \<Longrightarrow>
   keeps P (case x of None \<Rightarrow> m | Some y \<Rightarrow> f y)"
  by (cases x) auto

lemma keeps_sum [keeps_rules]:
  "(\<And>e. x = Inl e \<Longrightarrow> keeps P (g e)) \<Longrightarrow> (\<And>y. x = Inr y \<Longrightarrow> keeps P (f y)) \<Longrightarrow>
   keeps P (case x of Inl e \<Rightarrow> g e | Inr y \<Rightarrow> f y)"
  by (cases x) auto

lemma keeps_prod [keeps_rules]:
  "(\<And>a b. x = (a, b) \<Longrightarrow> keeps P (f a b)) \<Longrightarrow> keeps P (case x of (a, b) \<Rightarrow> f a b)"
  by (cases x) auto

lemma keeps_prod_app [keeps_rules]:
  "(\<And>a b. x = (a, b) \<Longrightarrow> keeps P (f a b s)) \<Longrightarrow> keeps P ((case x of (a, b) \<Rightarrow> f a b) s)"
  by (cases x) auto

lemma keeps_let [keeps_rules]: "keeps P (f x) \<Longrightarrow> keeps P (let y = x in f y)"
  by simp

text \<open>An invariant together with what is known of the result, where there is one.\<close>

definition yields :: "('w \<Rightarrow> bool) \<Rightarrow> ('w, 'a) io \<Rightarrow> ('a \<Rightarrow> bool) \<Rightarrow> bool" where
  "yields P m R \<longleftrightarrow> (\<forall>w. P w \<longrightarrow> P (snd (m w)) \<and> (\<forall>x. fst (m w) = Inr x \<longrightarrow> R x))"

lemma yields_keeps: "keeps P m \<Longrightarrow> yields P m (\<lambda>_. True)"
  by (simp add: yields_def keeps_def)

lemma keeps_yields: "yields P m R \<Longrightarrow> keeps P m"
  by (simp add: yields_def keeps_def)

lemma yields_ret: "R x \<Longrightarrow> yields P (ret x) R"
  by (simp add: yields_def)

lemma yields_bindE:
  assumes "yields P m R" and "\<And>x. R x \<Longrightarrow> yields P (f x) S"
  shows "yields P (bindE m f) S"
  unfolding yields_def
proof (intro allI impI)
  fix w assume w: "P w"
  obtain r w1 where m: "m w = (r, w1)" by fastforce
  with assms(1) w have "P w1" "\<And>x. r = Inr x \<Longrightarrow> R x" by (auto simp: yields_def dest: spec [of _ w])
  with assms(2) m show "P (snd (bindE m f w)) \<and> (\<forall>x. fst (bindE m f w) = Inr x \<longrightarrow> S x)"
    by (cases r) (auto simp: yields_def)
qed

lemma keeps_bindE_yields:
  "yields P m R \<Longrightarrow> (\<And>x. R x \<Longrightarrow> keeps P (f x)) \<Longrightarrow> keeps P (bindE m f)"
  by (rule keeps_yields [OF yields_bindE [OF _ yields_keeps]])

lemma yields_foldE:
  "R s \<Longrightarrow> (\<And>x s. x \<in> set xs \<Longrightarrow> R s \<Longrightarrow> yields P (f x s) R) \<Longrightarrow> yields P (foldE f xs s) R"
  by (induction xs arbitrary: s) (auto intro: yields_ret yields_bindE)

section \<open>Hash maps and hash sets\<close>

type_synonym ('k, 'v) hmap = "('k \<times> 'v) list"

definition hm_keys :: "('k, 'v) hmap \<Rightarrow> 'k list" where
  "hm_keys m = map fst m"

definition hm_wf :: "('k, 'v) hmap \<Rightarrow> bool" where
  "hm_wf m \<longleftrightarrow> distinct (map fst m)"

text \<open>\<open>iter.collect::<HashMap<_, _>>()\<close>: a later entry replaces an earlier one.\<close>

definition hm_collect :: "('k \<times> 'v) list \<Rightarrow> ('k, 'v) hmap" where
  "hm_collect xs = fold (\<lambda>(k, v). AList.update k v) xs []"

lemma hm_collect_fold_wf:
  "distinct (map fst m) \<Longrightarrow> distinct (map fst (fold (\<lambda>(k, v). AList.update k v) xs m))"
  by (induction xs arbitrary: m) (auto simp: AList.distinct_update)

lemma hm_collect_wf [simp]: "hm_wf (hm_collect xs)"
  by (simp add: hm_wf_def hm_collect_def hm_collect_fold_wf)

lemma map_of_hm_collect_fold:
  "map_of (fold (\<lambda>(k, v). AList.update k v) xs m) = map_of m ++ map_of (rev xs)"
  by (induction xs arbitrary: m) (auto simp: AList.update_conv' fun_eq_iff map_add_def split: option.splits)

lemma map_of_hm_collect: "map_of (hm_collect xs) = map_of (rev xs)"
  by (simp add: hm_collect_def map_of_hm_collect_fold)

lemma map_of_rev_distinct: "distinct (map fst xs) \<Longrightarrow> map_of (rev xs) = map_of xs"
  by (metis distinct_rev map_of_eqI map_of_inject_set rev_map set_rev)

lemma dom_hm_collect: "set (map fst (hm_collect xs)) = fst ` set xs"
  by (metis (no_types) dom_map_of_conv_image_fst image_set map_of_hm_collect set_rev)

lemma in_hm_collectD: "(k, v) \<in> set (hm_collect xs) \<Longrightarrow> (k, v) \<in> set xs"
  by (metis hm_collect_wf hm_wf_def map_of_SomeD map_of_hm_collect map_of_is_SomeI set_rev)

section \<open>Lists\<close>

text \<open>\<open>xs.chunks(n)\<close>; the code only uses positive \<open>n\<close> (\<open>chunks(0)\<close> panics).\<close>

function chunks :: "nat \<Rightarrow> 'a list \<Rightarrow> 'a list list" where
  "chunks n xs = (if xs = [] \<or> n = 0 then [] else take n xs # chunks n (drop n xs))"
  by pat_completeness auto
termination
  by (relation "measure (\<lambda>(n, xs). length xs)") auto

declare chunks.simps [simp del]

lemma chunks_Nil [simp]: "chunks n [] = []"
  by (simp add: chunks.simps)

lemma concat_chunks: "0 < n \<Longrightarrow> concat (chunks n xs) = xs"
proof (induction n xs rule: chunks.induct)
  case (1 n xs)
  then show ?case
    by (cases "xs = []") (simp_all add: chunks.simps [of n xs])
qed

lemma map_of_filter_key:
  "map_of (filter (\<lambda>kv. P (fst kv)) xs) k = (if P k then map_of xs k else None)"
  by (induction xs) auto

lemma in_map_filter: "y \<in> set (List.map_filter f xs) \<longleftrightarrow> (\<exists>x\<in>set xs. f x = Some y)"
  by (induction xs) (auto split: option.splits)

lemma distinct_remdups_adj_sorted:
  fixes xs :: "'a::linorder list"
  shows "sorted xs \<Longrightarrow> distinct (remdups_adj xs)"
  by (induction xs rule: remdups_adj.induct) (auto simp: order.antisym)

end
