(* ===== verification/Rust_Str.thy ===== *)
theory Rust_Str
  imports Prelude "HOL-Library.Char_ord" "HOL-Library.List_Lexorder"
begin

text \<open>
  Rust's \<open>str\<close>. A string is the list of its UTF-8 bytes, one \<open>char\<close> for each byte: its
  length is what \<open>len()\<close> counts, and the order of \<open>List_Lexorder\<close> over \<open>Char_ord\<close> is the
  byte order in which Rust compares strings. The functions that look at Unicode scalar
  values (\<open>trim\<close>, \<open>split_whitespace\<close>, \<open>char::is_control\<close>) decode the bytes first.
\<close>

named_theorems str_simps \<open>how the string functions compute\<close>

section \<open>Splitting and joining\<close>

text \<open>\<open>s.split_once(d)\<close> and \<open>s.rsplit_once(d)\<close>: at the first and at the last occurrence.\<close>

fun split_once :: "string \<Rightarrow> string \<Rightarrow> (string \<times> string) option" where
  "split_once d [] = (if d = [] then Some ([], []) else None)"
| "split_once d (c # cs) =
     (if prefix d (c # cs) then Some ([], drop (length d) (c # cs))
      else map_option (\<lambda>(a, b). (c # a, b)) (split_once d cs))"

fun rsplit_once :: "string \<Rightarrow> string \<Rightarrow> (string \<times> string) option" where
  "rsplit_once d [] = (if d = [] then Some ([], []) else None)"
| "rsplit_once d (c # cs) =
     (case rsplit_once d cs of
        Some (a, b) \<Rightarrow> Some (c # a, b)
      | None \<Rightarrow> if prefix d (c # cs) then Some ([], drop (length d) (c # cs)) else None)"

text \<open>\<open>s.split(c)\<close>, all the segments, and \<open>segments.join(sep)\<close>.\<close>

fun split_on :: "char \<Rightarrow> string \<Rightarrow> string list" where
  "split_on c [] = [[]]"
| "split_on c (x # xs) =
     (if x = c then [] # split_on c xs
      else case split_on c xs of [] \<Rightarrow> [[x]] | y # ys \<Rightarrow> (x # y) # ys)"

fun join_with :: "string \<Rightarrow> string list \<Rightarrow> string" where
  "join_with d [] = []"
| "join_with d [s] = s"
| "join_with d (s # t # ss) = s @ d @ join_with d (t # ss)"

lemma split_once_Some: "split_once d s = Some (a, b) \<Longrightarrow> s = a @ d @ b"
proof (induction s arbitrary: a)
  case Nil
  then show ?case by (auto split: if_splits)
next
  case (Cons c cs)
  then show ?case
    by (auto split: if_splits simp: prefix_def)
qed

lemma rsplit_once_Some: "rsplit_once d s = Some (a, b) \<Longrightarrow> s = a @ d @ b"
proof (induction s arbitrary: a)
  case Nil
  then show ?case by (auto split: if_splits)
next
  case (Cons c cs)
  then show ?case
    by (auto split: if_splits option.splits simp: prefix_def)
qed

lemma rsplit_once_absent: "c \<notin> set s \<Longrightarrow> rsplit_once (c # d) s = None"
  by (induction s) (auto simp: prefix_def)

text \<open>The last occurrence is found: no further one starts in what follows it.\<close>

lemma rsplit_once_last:
  assumes "c \<notin> set d" and "c \<notin> set b"
  shows "rsplit_once (c # d) (a @ (c # d) @ b) = Some (a, b)"
proof (induction a)
  case Nil
  from assms have "rsplit_once (c # d) (d @ b) = None"
    by (intro rsplit_once_absent) simp
  then show ?case by simp
next
  case (Cons x a)
  then show ?case by simp
qed

lemma rsplit_once_tail_absent:
  "rsplit_once (c # d) s = Some (a, b) \<Longrightarrow> rsplit_once (c # d) b = None"
proof (induction s arbitrary: a)
  case Nil
  then show ?case by simp
next
  case (Cons x xs)
  show ?case
  proof (cases "rsplit_once (c # d) xs")
    case (Some ab)
    with Cons show ?thesis by (cases ab) auto
  next
    case None
    have drop_None: "rsplit_once (c # d) (drop n xs) = None" for n
    proof (rule ccontr)
      assume "rsplit_once (c # d) (drop n xs) \<noteq> None"
      then obtain p q where "rsplit_once (c # d) (drop n xs) = Some (p, q)" by auto
      moreover have "rsplit_once (c # d) s \<noteq> None \<Longrightarrow> rsplit_once (c # d) (r @ s) \<noteq> None" for r s
        by (induction r) (auto split: option.splits)
      ultimately have "rsplit_once (c # d) (take n xs @ drop n xs) \<noteq> None" by blast
      with None show False by simp
    qed
    from None Cons.prems have "b = drop (length d) xs" by (auto split: if_splits)
    then show ?thesis by (simp add: drop_None)
  qed
qed

lemma split_on_not_Nil [simp]: "split_on c s \<noteq> []"
  by (induction s) (auto split: list.splits)

lemma split_on_no_sep: "x \<in> set (split_on c s) \<Longrightarrow> c \<notin> set x"
  by (induction s arbitrary: x) (auto split: list.splits if_splits)

lemma join_split_on: "join_with [c] (split_on c s) = s"
proof (induction s)
  case Nil
  show ?case by simp
next
  case (Cons x xs)
  obtain y ys where y: "split_on c xs = y # ys"
    by (cases "split_on c xs") auto
  with Cons show ?case by (cases ys) auto
qed

lemma split_on_single: "c \<notin> set s \<Longrightarrow> split_on c s = [s]"
  by (induction s) auto

lemma split_on_append: "c \<notin> set s \<Longrightarrow> split_on c (s @ c # t) = s # split_on c t"
  by (induction s) auto

lemma split_on_join:
  "ss \<noteq> [] \<Longrightarrow> (\<And>s. s \<in> set ss \<Longrightarrow> c \<notin> set s) \<Longrightarrow> split_on c (join_with [c] ss) = ss"
proof (induction "[c]" ss rule: join_with.induct)
  case 1
  then show ?case by simp
next
  case (2 s)
  then show ?case by (simp add: split_on_single)
next
  case (3 s t ss)
  then show ?case by (simp add: split_on_append)
qed

section \<open>Decimal numbers\<close>

fun show_nat :: "nat \<Rightarrow> string" where
  "show_nat n = (if n < 10 then [char_of (48 + n)] else show_nat (n div 10) @ [char_of (48 + n mod 10)])"

declare show_nat.simps [simp del]

definition show_int :: "int \<Rightarrow> string" where
  "show_int i = (if i < 0 then ''-'' @ show_nat (nat (- i)) else show_nat (nat i))"

section \<open>ASCII case\<close>

definition ascii_lower :: "char \<Rightarrow> char" where
  "ascii_lower c =
     (let n = (of_char c :: nat) in if 65 \<le> n \<and> n \<le> 90 then char_of (n + 32) else c)"

definition eq_ignore_ascii_case :: "string \<Rightarrow> string \<Rightarrow> bool" where
  "eq_ignore_ascii_case a b \<longleftrightarrow> map ascii_lower a = map ascii_lower b"

lemma eq_ignore_ascii_case_refl [simp]: "eq_ignore_ascii_case a a"
  by (simp add: eq_ignore_ascii_case_def)

section \<open>Unicode scalar values\<close>

definition byte :: "nat \<Rightarrow> char" where
  "byte n = char_of n"

fun utf8_decode :: "string \<Rightarrow> nat list" where
  "utf8_decode [] = []"
| "utf8_decode [a] = [of_char a]"
| "utf8_decode [a, b] =
     (if (of_char a :: nat) < 192 then of_char a # utf8_decode [b]
      else [(of_char a mod 32) * 64 + of_char b mod 64])"
| "utf8_decode [a, b, c] =
     (if (of_char a :: nat) < 192 then of_char a # utf8_decode [b, c]
      else if (of_char a :: nat) < 224
        then ((of_char a mod 32) * 64 + of_char b mod 64) # utf8_decode [c]
      else [(of_char a mod 16) * 4096 + (of_char b mod 64) * 64 + of_char c mod 64])"
| "utf8_decode (a # b # c # d # s) =
     (if (of_char a :: nat) < 192 then of_char a # utf8_decode (b # c # d # s)
      else if (of_char a :: nat) < 224
        then ((of_char a mod 32) * 64 + of_char b mod 64) # utf8_decode (c # d # s)
      else if (of_char a :: nat) < 240
        then ((of_char a mod 16) * 4096 + (of_char b mod 64) * 64 + of_char c mod 64)
             # utf8_decode (d # s)
      else ((of_char a mod 8) * 262144 + (of_char b mod 64) * 4096
            + (of_char c mod 64) * 64 + of_char d mod 64) # utf8_decode s)"

definition utf8_char :: "nat \<Rightarrow> string" where
  "utf8_char n =
     (if n < 128 then [byte n]
      else if n < 2048 then [byte (192 + n div 64), byte (128 + n mod 64)]
      else if n < 65536
        then [byte (224 + n div 4096), byte (128 + n div 64 mod 64), byte (128 + n mod 64)]
      else [byte (240 + n div 262144), byte (128 + n div 4096 mod 64),
            byte (128 + n div 64 mod 64), byte (128 + n mod 64)])"

definition utf8_encode :: "nat list \<Rightarrow> string" where
  "utf8_encode ns = concat (map utf8_char ns)"

text \<open>\<open>char::is_whitespace\<close> (the White\_Space property) and \<open>char::is_control\<close> (category Cc).\<close>

definition is_whitespace :: "nat \<Rightarrow> bool" where
  "is_whitespace n \<longleftrightarrow>
     (9 \<le> n \<and> n \<le> 13) \<or> n = 32 \<or> n = 133 \<or> n = 160 \<or> n = 5760 \<or>
     (8192 \<le> n \<and> n \<le> 8202) \<or> n = 8232 \<or> n = 8233 \<or> n = 8239 \<or> n = 8287 \<or> n = 12288"

definition is_control :: "nat \<Rightarrow> bool" where
  "is_control n \<longleftrightarrow> n < 32 \<or> (127 \<le> n \<and> n < 160)"

definition trim_scalars :: "nat list \<Rightarrow> nat list" where
  "trim_scalars ns = rev (dropWhile is_whitespace (rev (dropWhile is_whitespace ns)))"

definition trim :: "string \<Rightarrow> string" where
  "trim s = utf8_encode (trim_scalars (utf8_decode s))"

text \<open>\<open>split_whitespace\<close>: the maximal runs of non-whitespace.\<close>

function split_ws :: "nat list \<Rightarrow> nat list list" where
  "split_ws ns =
     (let ms = dropWhile is_whitespace ns in
      if ms = [] then []
      else takeWhile (Not \<circ> is_whitespace) ms # split_ws (dropWhile (Not \<circ> is_whitespace) ms))"
  by pat_completeness auto
termination
proof (relation "measure length", simp)
  fix ns ms :: "nat list"
  assume ms: "ms = dropWhile is_whitespace ns" and ne: "ms \<noteq> []"
  from ms ne have "\<not> is_whitespace (hd ms)" by (simp add: hd_dropWhile)
  with ne have "length (dropWhile (Not \<circ> is_whitespace) ms) < length ms"
    by (cases ms) (auto simp: le_imp_less_Suc length_dropWhile_le)
  also have "length ms \<le> length ns" by (simp add: ms length_dropWhile_le)
  finally show "(dropWhile (Not \<circ> is_whitespace) ms, ns) \<in> measure length" by simp
qed

declare split_ws.simps [simp del]

lemma trim_scalars_empty: "trim_scalars ns = [] \<longleftrightarrow> list_all is_whitespace ns"
  by (auto simp: trim_scalars_def list_all_iff dropWhile_eq_Nil_conv dest: set_dropWhileD)
     (metis dropWhile_eq_Nil_conv hd_dropWhile hd_in_set set_rev)

lemma utf8_char_not_Nil [simp]: "utf8_char n \<noteq> []"
  by (simp add: utf8_char_def)

lemma utf8_encode_Nil_iff: "utf8_encode ns = [] \<longleftrightarrow> ns = []"
  by (cases ns) (simp_all add: utf8_encode_def)

lemma trim_empty_iff: "trim s = [] \<longleftrightarrow> list_all is_whitespace (utf8_decode s)"
  by (simp add: trim_def utf8_encode_Nil_iff trim_scalars_empty)

lemma split_ws_no_space: "w \<in> set (split_ws ns) \<Longrightarrow> x \<in> set w \<Longrightarrow> \<not> is_whitespace x"
proof (induction ns rule: split_ws.induct)
  case (1 ns)
  then show ?case
    by (subst (asm) (2) split_ws.simps) (auto simp: Let_def split: if_splits dest: set_takeWhileD)
qed

lemma split_ws_subset: "w \<in> set (split_ws ns) \<Longrightarrow> set w \<subseteq> set ns"
proof (induction ns rule: split_ws.induct)
  case (1 ns)
  show ?case
  proof
    fix x assume x: "x \<in> set w"
    from "1.prems" show "x \<in> set ns"
      apply (subst (asm) split_ws.simps)
      using x "1.IH" by (auto simp: Let_def split: if_splits dest!: set_takeWhileD set_dropWhileD)
  qed
qed

text \<open>Decoding inverts encoding, for scalar values.\<close>

lemma utf8_decode_ascii: "(of_char a :: nat) < 192 \<Longrightarrow> utf8_decode (a # s) = of_char a # utf8_decode s"
proof -
  assume a: "(of_char a :: nat) < 192"
  consider "s = []" | b where "s = [b]" | b c where "s = [b, c]"
    | b c d t where "s = b # c # d # t"
    by (metis list.exhaust)
  then show ?thesis using a by cases simp_all
qed

lemma utf8_decode_2:
  "192 \<le> (of_char a :: nat) \<Longrightarrow> (of_char a :: nat) < 224 \<Longrightarrow>
   utf8_decode (a # b # s) = ((of_char a mod 32) * 64 + of_char b mod 64) # utf8_decode s"
proof -
  assume a: "192 \<le> (of_char a :: nat)" "(of_char a :: nat) < 224"
  consider "s = []" | c where "s = [c]" | c d t where "s = c # d # t"
    by (metis list.exhaust)
  then show ?thesis using a by cases simp_all
qed

lemma utf8_decode_3:
  "224 \<le> (of_char a :: nat) \<Longrightarrow> (of_char a :: nat) < 240 \<Longrightarrow>
   utf8_decode (a # b # c # s) =
     ((of_char a mod 16) * 4096 + (of_char b mod 64) * 64 + of_char c mod 64) # utf8_decode s"
  by (cases s) simp_all

lemma of_char_byte: "n < 256 \<Longrightarrow> (of_char (byte n) :: nat) = n"
  by (simp add: byte_def)

lemma tagged_byte: "x < m \<Longrightarrow> (k * m + x) mod m = (x :: nat)"
  by simp

lemma utf8_decode_char:
  assumes "n < 1114112"
  shows "utf8_decode (utf8_char n @ s) = n # utf8_decode s"
proof -
  have b1: "n < 2048 \<Longrightarrow> 192 + n div 64 < 224" by simp
  have b2: "n < 65536 \<Longrightarrow> 224 + n div 4096 < 240" by simp
  have b3: "240 + n div 262144 < 248" using assms by simp
  have m2: "n < 2048 \<Longrightarrow> (192 + n div 64) mod 32 = n div 64"
    using tagged_byte [of "n div 64" 32 6] by simp
  have m3: "n < 65536 \<Longrightarrow> (224 + n div 4096) mod 16 = n div 4096"
    using tagged_byte [of "n div 4096" 16 14] by simp
  have m4: "(240 + n div 262144) mod 8 = n div 262144"
    using tagged_byte [of "n div 262144" 8 30] assms by simp
  have c6: "(128 + x mod 64) mod 64 = x mod 64" for x :: nat
    using tagged_byte [of "x mod 64" 64 2] by simp
  have r2: "n div 64 * 64 + n mod 64 = n" by simp
  have d2: "n div 4096 = n div 64 div 64" and d3: "n div 262144 = n div 4096 div 64"
    by (simp_all add: div_mult2_eq [symmetric])
  have s2: "n div 64 = n div 4096 * 64 + n div 64 mod 64"
    unfolding d2 by simp
  have s3: "n div 4096 = n div 262144 * 64 + n div 4096 mod 64"
    unfolding d3 by simp
  have r3: "n div 4096 * 4096 + n div 64 mod 64 * 64 + n mod 64 = n"
    using s2 r2 by linarith
  have r4: "n div 262144 * 262144 + n div 4096 mod 64 * 4096 + n div 64 mod 64 * 64 + n mod 64 = n"
    using s2 s3 r2 by linarith
  consider "n < 128" | "128 \<le> n" "n < 2048" | "2048 \<le> n" "n < 65536" | "65536 \<le> n" by linarith
  then show ?thesis
  proof cases
    case 1
    then show ?thesis by (simp add: utf8_char_def utf8_decode_ascii of_char_byte)
  next
    case 2
    with b1 show ?thesis by (simp add: utf8_char_def utf8_decode_2 of_char_byte m2 c6 r2)
  next
    case 3
    with b2 show ?thesis by (simp add: utf8_char_def utf8_decode_3 of_char_byte m3 c6 r3)
  next
    case 4
    with b3 show ?thesis by (simp add: utf8_char_def of_char_byte m4 c6 r4)
  qed
qed

lemma utf8_decode_encode: "\<forall>n\<in>set ns. n < 1114112 \<Longrightarrow> utf8_decode (utf8_encode ns) = ns"
  by (induction ns) (simp_all add: utf8_encode_def utf8_decode_char)

text \<open>A byte below 128 in an encoding is a scalar value of its own.\<close>

lemma utf8_char_ascii:
  assumes "c \<in> set (utf8_char n)" and "(of_char c :: nat) < 128" and "n < 2097152"
  shows "of_char c = n"
proof -
  have b1: "n < 2048 \<Longrightarrow> 192 + n div 64 < 256" by simp
  have b2: "n < 65536 \<Longrightarrow> 224 + n div 4096 < 256" by simp
  have b3: "240 + n div 262144 < 256" using assms(3) by simp
  from assms show ?thesis
    by (auto simp: utf8_char_def of_char_byte b1 b2 b3 split: if_splits)
qed

lemma of_char_bound: "(of_char c :: nat) < 256"
  by (metis mod_less_divisor of_char_mod_256 zero_less_numeral)

lemma scalar_bounds:
  fixes a b c d :: nat
  shows "(a mod 32) * 64 + b mod 64 < 2097152"
    and "(a mod 16) * 4096 + (b mod 64) * 64 + c mod 64 < 2097152"
    and "(a mod 8) * 262144 + (b mod 64) * 4096 + (c mod 64) * 64 + d mod 64 < 2097152"
proof -
  have m: "a mod 32 < 32" "a mod 16 < 16" "a mod 8 < 8" "b mod 64 < 64" "c mod 64 < 64" "d mod 64 < 64"
    by simp_all
  show "(a mod 32) * 64 + b mod 64 < 2097152" using m by linarith
  show "(a mod 16) * 4096 + (b mod 64) * 64 + c mod 64 < 2097152" using m by linarith
  show "(a mod 8) * 262144 + (b mod 64) * 4096 + (c mod 64) * 64 + d mod 64 < 2097152"
    using m by linarith
qed

lemma of_char_scalar: "(of_char c :: nat) < 2097152"
  using of_char_bound [of c] by linarith

lemma utf8_decode_bound: "n \<in> set (utf8_decode s) \<Longrightarrow> n < 2097152"
  by (induction s rule: utf8_decode.induct)
     (auto simp: of_char_scalar scalar_bounds split: if_splits)

end
