(* ===== verification/Std_Fs.thy ===== *)
theory Std_Fs
  imports Rust_Str
begin

text \<open>
  The part of \<open>std::fs\<close> and \<open>std::path\<close> that the program uses. A file system is the list of
  its entries, keyed by absolute path; the order of the list is the order in which
  \<open>read_dir\<close> yields the entries of a directory. There are no symbolic links. A call that
  the operating system refuses has no effect.
\<close>

named_theorems fs_simps \<open>what a file system holds after an operation\<close>

datatype node = Dir | File string

type_synonym fs = "(path \<times> node) list"

section \<open>Paths\<close>

text \<open>
  The components of a path, as the kernel walks them: an empty component and \<open>.\<close> stay in
  the directory, \<open>..\<close> leaves it.
\<close>

fun resolve :: "path \<Rightarrow> string list \<Rightarrow> path" where
  "resolve p [] = p"
| "resolve p (c # cs) =
     (if c = [] \<or> c = ''.'' then resolve p cs
      else if c = ''..'' then resolve (butlast p) cs
      else resolve (p @ [c]) cs)"

text \<open>\<open>base.join(s)\<close>: an absolute \<open>s\<close> replaces the base.\<close>

definition join_path :: "path \<Rightarrow> string \<Rightarrow> path" where
  "join_path base s =
     (if prefix ''/'' s then resolve [] (split_on CHR ''/'' s)
      else resolve base (split_on CHR ''/'' s))"

definition plain_component :: "string \<Rightarrow> bool" where
  "plain_component c \<longleftrightarrow> c \<noteq> [] \<and> c \<noteq> ''.'' \<and> c \<noteq> ''..'' \<and> CHR ''/'' \<notin> set c"

lemma resolve_plain: "(\<And>c. c \<in> set cs \<Longrightarrow> plain_component c) \<Longrightarrow> resolve p cs = p @ cs"
  by (induction cs arbitrary: p) (auto simp: plain_component_def)

lemma join_with_plain_no_slash:
  "cs \<noteq> [] \<Longrightarrow> (\<And>c. c \<in> set cs \<Longrightarrow> plain_component c) \<Longrightarrow>
   \<not> prefix ''/'' (join_with ''/'' cs)"
proof (cases cs)
  case (Cons c rest)
  assume "\<And>c. c \<in> set cs \<Longrightarrow> plain_component c"
  with Cons have "plain_component c" by simp
  with Cons show ?thesis
    by (cases rest; cases c) (auto simp: plain_component_def prefix_def)
qed simp

lemma join_path_plain:
  assumes "cs \<noteq> []" and "\<And>c. c \<in> set cs \<Longrightarrow> plain_component c"
  shows "join_path base (join_with ''/'' cs) = base @ cs"
proof -
  have "split_on CHR ''/'' (join_with ''/'' cs) = cs"
    using assms by (intro split_on_join) (auto simp: plain_component_def)
  with assms show ?thesis
    by (simp add: join_path_def join_with_plain_no_slash resolve_plain)
qed

lemma resolve_append: "resolve p (xs @ ys) = resolve (resolve p xs) ys"
  by (induction xs arbitrary: p) auto

lemma split_on_append_sep: "split_on c (a @ c # b) = split_on c a @ split_on c b"
proof (induction a)
  case Nil
  then show ?case using split_on_append [of c "[]" b] split_on_single [of c "[]"] by simp
next
  case (Cons x a)
  then show ?case by (cases "split_on c a") auto
qed

text \<open>Appending components to a relative path descends from where it leads.\<close>

lemma join_path_append:
  assumes "s \<noteq> []" and "plain_component c"
  shows "join_path base (s @ ''/'' @ c) = join_path base s @ [c]"
proof -
  have sp: "split_on CHR ''/'' (s @ ''/'' @ c) = split_on CHR ''/'' s @ [c]"
    using assms(2) split_on_append_sep [of "CHR ''/''" s c]
    by (simp add: plain_component_def split_on_single)
  have pre: "prefix ''/'' (s @ ''/'' @ c) \<longleftrightarrow> prefix ''/'' s"
    using assms(1) by (cases s) auto
  show ?thesis
    unfolding join_path_def pre sp resolve_append
    using assms(2) by (simp add: plain_component_def)
qed

section \<open>Queries\<close>

definition is_dir :: "fs \<Rightarrow> path \<Rightarrow> bool" where
  "is_dir f p \<longleftrightarrow> p = [] \<or> map_of f p = Some Dir"

definition is_file :: "fs \<Rightarrow> path \<Rightarrow> bool" where
  "is_file f p \<longleftrightarrow> (case map_of f p of Some (File _) \<Rightarrow> True | _ \<Rightarrow> False)"

definition path_exists :: "fs \<Rightarrow> path \<Rightarrow> bool" where
  "path_exists f p \<longleftrightarrow> p = [] \<or> map_of f p \<noteq> None"

definition read_file :: "fs \<Rightarrow> path \<Rightarrow> string option" where
  "read_file f p = (case map_of f p of Some (File c) \<Rightarrow> Some c | _ \<Rightarrow> None)"

definition dir_entries :: "fs \<Rightarrow> path \<Rightarrow> string list" where
  "dir_entries f p = [last q. (q, n) \<leftarrow> f, q \<noteq> [] \<and> butlast q = p]"

definition read_dir :: "fs \<Rightarrow> path \<Rightarrow> string list option" where
  "read_dir f p = (if is_dir f p then Some (dir_entries f p) else None)"

section \<open>Updates\<close>

fun make_dirs :: "fs \<Rightarrow> path list \<Rightarrow> fs option" where
  "make_dirs f [] = Some f"
| "make_dirs f (p # ps) =
     (case map_of f p of
        None \<Rightarrow> make_dirs ((p, Dir) # f) ps
      | Some Dir \<Rightarrow> make_dirs f ps
      | Some (File _) \<Rightarrow> None)"

definition create_dir_all :: "fs \<Rightarrow> path \<Rightarrow> fs option" where
  "create_dir_all f p = make_dirs f (map (\<lambda>k. take k p) [1..<Suc (length p)])"

definition write_file :: "fs \<Rightarrow> path \<Rightarrow> string \<Rightarrow> fs option" where
  "write_file f p c =
     (if p = [] \<or> \<not> is_dir f (butlast p) \<or> is_dir f p then None
      else Some (AList.update p (File c) f))"

definition remove_file :: "fs \<Rightarrow> path \<Rightarrow> fs option" where
  "remove_file f p = (if is_file f p then Some (AList.delete p f) else None)"

definition remove_dir_all :: "fs \<Rightarrow> path \<Rightarrow> fs option" where
  "remove_dir_all f p =
     (if is_dir f p then Some (filter (\<lambda>e. \<not> prefix p (fst e)) f) else None)"

definition move_entry :: "path \<Rightarrow> path \<Rightarrow> path \<Rightarrow> path" where
  "move_entry a b q = (if prefix a q then b @ drop (length a) q else q)"

definition rename :: "fs \<Rightarrow> path \<Rightarrow> path \<Rightarrow> fs option" where
  "rename f a b =
     (case map_of f a of
        None \<Rightarrow> None
      | Some (File c) \<Rightarrow>
          if b = [] \<or> \<not> is_dir f (butlast b) \<or> is_dir f b then None
          else Some (AList.update b (File c) (AList.delete a f))
      | Some Dir \<Rightarrow>
          if a = b then Some f
          else if prefix a b \<or> \<not> is_dir f (butlast b) \<or> is_file f b
                  \<or> (is_dir f b \<and> dir_entries f b \<noteq> []) then None
          else Some (map (\<lambda>(q, n). (move_entry a b q, n)) (AList.delete b f)))"

section \<open>What the updates do\<close>

lemma map_of_write_file [fs_simps]:
  "write_file f p c = Some f' \<Longrightarrow> map_of f' = (map_of f)(p \<mapsto> File c)"
  by (auto simp: write_file_def AList.update_conv' split: if_splits)

lemma map_of_remove_file [fs_simps]:
  "remove_file f p = Some f' \<Longrightarrow> map_of f' = (map_of f)(p := None)"
  by (auto simp: remove_file_def AList.delete_conv' split: if_splits)

lemma map_of_remove_dir_all [fs_simps]:
  "remove_dir_all f p = Some f' \<Longrightarrow> map_of f' q = (if prefix p q then None else map_of f q)"
  using map_of_filter_key [of "\<lambda>q. \<not> prefix p q" f q]
  by (auto simp: remove_dir_all_def split: if_splits)

lemma map_of_rename_file [fs_simps]:
  "rename f a b = Some f' \<Longrightarrow> map_of f a = Some (File c) \<Longrightarrow>
   map_of f' = (map_of f)(a := None, b \<mapsto> File c)"
  by (auto simp: rename_def AList.update_conv' AList.delete_conv' split: if_splits)

lemma make_dirs_get:
  "make_dirs f ps = Some f' \<Longrightarrow> map_of f' q = (if map_of f q = None \<and> q \<in> set ps then Some Dir else map_of f q)"
proof (induction ps arbitrary: f)
  case Nil
  then show ?case by simp
next
  case (Cons p ps)
  then show ?case by (auto split: option.splits node.splits if_splits)
qed

lemma set_prefixes: "set (map (\<lambda>k. take k p) [1..<Suc (length p)]) = {q. prefix q p \<and> q \<noteq> []}"
proof -
  have "q \<in> (\<lambda>k. take k p) ` {1..<Suc (length p)} \<longleftrightarrow> prefix q p \<and> q \<noteq> []" for q
  proof
    assume "prefix q p \<and> q \<noteq> []"
    then have "q = take (length q) p" and "length q \<in> {1..<Suc (length p)}"
      by (auto simp: prefix_def Suc_le_eq)
    then show "q \<in> (\<lambda>k. take k p) ` {1..<Suc (length p)}" by blast
  qed (auto simp: take_is_prefix)
  then show ?thesis by (simp only: set_map set_upt) blast
qed

lemma map_of_create_dir_all [fs_simps]:
  assumes "create_dir_all f p = Some f'"
  shows "map_of f' q = (if map_of f q = None \<and> prefix q p \<and> q \<noteq> [] then Some Dir else map_of f q)"
  using make_dirs_get [of f _ f' q] assms set_prefixes [of p]
  unfolding create_dir_all_def by auto

lemma read_dir_dir_entries: "n \<in> set (dir_entries f p) \<longleftrightarrow> p @ [n] \<in> fst ` set f"
proof
  assume "n \<in> set (dir_entries f p)"
  then obtain q m where "(q, m) \<in> set f" "q \<noteq> []" "butlast q = p" "last q = n"
    by (auto simp: dir_entries_def)
  then show "p @ [n] \<in> fst ` set f"
    by (metis append_butlast_last_id fst_conv image_eqI)
qed (force simp: dir_entries_def)

end
