(* ===== verification/Db.thy ===== *)
theory Db
  imports Rust_Str
begin

text \<open>
  The database of \<open>db/mod.rs\<close> and its row types (\<open>db/models.rs\<close>). A table is the list of its
  rows, in the order \<open>SELECT *\<close> yields them. The statements are modelled from the SQL text
  with the constraints of the schema in \<open>migrate\<close>: a statement that violates one returns the
  violation and changes nothing. \<open>foreign_keys\<close> is the connection's setting of that name;
  the repository's own test of the cascade shows that it is on in the bundled SQLite.
  \<open>ON DELETE CASCADE\<close> is modelled where the schema says so; every other reference has SQL's
  default action, which refuses a delete that would leave a dangling reference.
\<close>

named_theorems db_defs \<open>the definitions of the database operations\<close>

section \<open>Rows and tables\<close>

record mailbox_row =
  mb_id :: string
  mb_jmap_id :: "string option"
  mb_name :: string
  mb_parent_id :: "string option"
  mb_role :: "string option"
  mb_sort_order :: "int option"
  mb_path :: string
  mb_jmap_state :: "string option"

record email_row =
  em_id :: string
  em_jmap_id :: "string option"
  em_message_id :: "string option"
  em_file_path :: string
  em_primary_mailbox :: string
  em_keywords :: "string option"
  em_jmap_state :: "string option"
  em_size :: "int option"
  em_last_sync :: "int option"
  em_is_dirty :: bool

record email_mailbox_row =
  ej_email_id :: string
  ej_mailbox_id :: string
  ej_is_primary :: bool

record database =
  mailboxes :: "mailbox_row list"
  emails :: "email_row list"
  email_mailboxes :: "email_mailbox_row list"
  foreign_keys :: bool

definition empty_database :: "bool \<Rightarrow> database" where
  "empty_database fk = \<lparr>mailboxes = [], emails = [], email_mailboxes = [], foreign_keys = fk\<rparr>"

section \<open>Mailboxes\<close>

definition parent_known :: "mailbox_row list \<Rightarrow> mailbox_row \<Rightarrow> bool" where
  "parent_known ms m = (case mb_parent_id m of None \<Rightarrow> True | Some p \<Rightarrow> p \<in> mb_id ` set ms)"

definition insert_mailbox :: "database \<Rightarrow> mailbox_row \<Rightarrow> err + database" where
  [db_defs]: "insert_mailbox d m =
     (if mb_id m \<in> mb_id ` set (mailboxes d) then Inl (SqlError (PrimaryKey ''mailboxes.id''))
      else if mb_jmap_id m \<noteq> None \<and> mb_jmap_id m \<in> mb_jmap_id ` set (mailboxes d)
        then Inl (SqlError (UniqueColumn ''mailboxes.jmap_id''))
      else if foreign_keys d \<and> \<not> parent_known (mailboxes d @ [m]) m
        then Inl (SqlError (ForeignKey ''mailboxes.parent_id''))
      else Inr (d\<lparr>mailboxes := mailboxes d @ [m]\<rparr>))"

definition get_mailbox :: "database \<Rightarrow> string \<Rightarrow> mailbox_row option" where
  [db_defs]: "get_mailbox d i = find (\<lambda>m. mb_id m = i) (mailboxes d)"

definition get_mailbox_by_jmap_id :: "database \<Rightarrow> string \<Rightarrow> mailbox_row option" where
  [db_defs]: "get_mailbox_by_jmap_id d j = find (\<lambda>m. mb_jmap_id m = Some j) (mailboxes d)"

definition get_all_mailboxes :: "database \<Rightarrow> mailbox_row list" where
  [db_defs]: "get_all_mailboxes d = mailboxes d"

definition update_mailbox_row :: "database \<Rightarrow> mailbox_row \<Rightarrow> err + database" where
  [db_defs]: "update_mailbox_row d m =
     (let ms = map (\<lambda>r. if mb_id r = mb_id m then m else r) (mailboxes d) in
      if mb_id m \<notin> mb_id ` set (mailboxes d) then Inr d
      else if mb_jmap_id m \<noteq> None
              \<and> (\<exists>r\<in>set (mailboxes d). mb_id r \<noteq> mb_id m \<and> mb_jmap_id r = mb_jmap_id m)
        then Inl (SqlError (UniqueColumn ''mailboxes.jmap_id''))
      else if foreign_keys d \<and> \<not> parent_known ms m
        then Inl (SqlError (ForeignKey ''mailboxes.parent_id''))
      else Inr (d\<lparr>mailboxes := ms\<rparr>))"

definition delete_mailbox_row :: "database \<Rightarrow> string \<Rightarrow> err + database" where
  [db_defs]: "delete_mailbox_row d i =
     (if i \<notin> mb_id ` set (mailboxes d) then Inr d
      else if foreign_keys d \<and> (\<exists>m\<in>set (mailboxes d). mb_id m \<noteq> i \<and> mb_parent_id m = Some i)
        then Inl (SqlError (ForeignKey ''mailboxes.parent_id''))
      else if foreign_keys d \<and> (\<exists>e\<in>set (emails d). em_primary_mailbox e = i)
        then Inl (SqlError (ForeignKey ''emails.primary_mailbox''))
      else Inr (d\<lparr>mailboxes := filter (\<lambda>m. mb_id m \<noteq> i) (mailboxes d),
                 email_mailboxes := (if foreign_keys d
                   then filter (\<lambda>j. ej_mailbox_id j \<noteq> i) (email_mailboxes d)
                   else email_mailboxes d)\<rparr>))"

section \<open>Emails\<close>

definition primary_known :: "database \<Rightarrow> email_row \<Rightarrow> bool" where
  "primary_known d e \<longleftrightarrow> em_primary_mailbox e \<in> mb_id ` set (mailboxes d)"

definition insert_email_row :: "database \<Rightarrow> email_row \<Rightarrow> err + database" where
  [db_defs]: "insert_email_row d e =
     (if em_id e \<in> em_id ` set (emails d) then Inl (SqlError (PrimaryKey ''emails.id''))
      else if em_jmap_id e \<noteq> None \<and> em_jmap_id e \<in> em_jmap_id ` set (emails d)
        then Inl (SqlError (UniqueColumn ''emails.jmap_id''))
      else if em_file_path e \<in> em_file_path ` set (emails d)
        then Inl (SqlError (UniqueColumn ''emails.file_path''))
      else if foreign_keys d \<and> \<not> primary_known d e
        then Inl (SqlError (ForeignKey ''emails.primary_mailbox''))
      else Inr (d\<lparr>emails := emails d @ [e]\<rparr>))"

definition get_email :: "database \<Rightarrow> string \<Rightarrow> email_row option" where
  [db_defs]: "get_email d i = find (\<lambda>e. em_id e = i) (emails d)"

definition get_email_by_jmap_id :: "database \<Rightarrow> string \<Rightarrow> email_row option" where
  [db_defs]: "get_email_by_jmap_id d j = find (\<lambda>e. em_jmap_id e = Some j) (emails d)"

definition get_email_by_file_path :: "database \<Rightarrow> string \<Rightarrow> email_row option" where
  [db_defs]: "get_email_by_file_path d p = find (\<lambda>e. em_file_path e = p) (emails d)"

definition get_all_emails :: "database \<Rightarrow> email_row list" where
  [db_defs]: "get_all_emails d = emails d"

definition update_email_row :: "database \<Rightarrow> email_row \<Rightarrow> err + database" where
  [db_defs]: "update_email_row d e =
     (if em_id e \<notin> em_id ` set (emails d) then Inr d
      else if em_jmap_id e \<noteq> None
              \<and> (\<exists>r\<in>set (emails d). em_id r \<noteq> em_id e \<and> em_jmap_id r = em_jmap_id e)
        then Inl (SqlError (UniqueColumn ''emails.jmap_id''))
      else if \<exists>r\<in>set (emails d). em_id r \<noteq> em_id e \<and> em_file_path r = em_file_path e
        then Inl (SqlError (UniqueColumn ''emails.file_path''))
      else if foreign_keys d \<and> \<not> primary_known d e
        then Inl (SqlError (ForeignKey ''emails.primary_mailbox''))
      else Inr (d\<lparr>emails := map (\<lambda>r. if em_id r = em_id e then e else r) (emails d)\<rparr>))"

definition delete_email_row :: "database \<Rightarrow> string \<Rightarrow> err + database" where
  [db_defs]: "delete_email_row d i =
     Inr (d\<lparr>emails := filter (\<lambda>e. em_id e \<noteq> i) (emails d),
            email_mailboxes := (if foreign_keys d \<and> i \<in> em_id ` set (emails d)
              then filter (\<lambda>j. ej_email_id j \<noteq> i) (email_mailboxes d)
              else email_mailboxes d)\<rparr>)"

section \<open>The join table\<close>

definition insert_email_mailbox :: "database \<Rightarrow> email_mailbox_row \<Rightarrow> err + database" where
  [db_defs]: "insert_email_mailbox d j =
     (if (ej_email_id j, ej_mailbox_id j)
           \<in> (\<lambda>r. (ej_email_id r, ej_mailbox_id r)) ` set (email_mailboxes d)
        then Inl (SqlError (PrimaryKey ''email_mailboxes''))
      else if foreign_keys d \<and> ej_email_id j \<notin> em_id ` set (emails d)
        then Inl (SqlError (ForeignKey ''email_mailboxes.email_id''))
      else if foreign_keys d \<and> ej_mailbox_id j \<notin> mb_id ` set (mailboxes d)
        then Inl (SqlError (ForeignKey ''email_mailboxes.mailbox_id''))
      else Inr (d\<lparr>email_mailboxes := email_mailboxes d @ [j]\<rparr>))"

definition delete_email_mailbox :: "database \<Rightarrow> string \<Rightarrow> string \<Rightarrow> err + database" where
  [db_defs]: "delete_email_mailbox d e m =
     Inr (d\<lparr>email_mailboxes :=
              filter (\<lambda>j. \<not> (ej_email_id j = e \<and> ej_mailbox_id j = m)) (email_mailboxes d)\<rparr>)"

definition get_email_mailboxes_by_email :: "database \<Rightarrow> string \<Rightarrow> email_mailbox_row list" where
  [db_defs]: "get_email_mailboxes_by_email d e =
     filter (\<lambda>j. ej_email_id j = e) (email_mailboxes d)"

definition get_email_mailboxes_by_mailbox :: "database \<Rightarrow> string \<Rightarrow> email_mailbox_row list" where
  [db_defs]: "get_email_mailboxes_by_mailbox d m =
     filter (\<lambda>j. ej_mailbox_id j = m) (email_mailboxes d)"

text \<open>
  \<open>set_primary_mailbox\<close> runs two updates in a transaction. \<open>fails\<close> says which of its
  statements SQLite refuses; the last component of the result says whether the connection
  is left inside an open transaction.
\<close>

datatype tx_stmt = Begin | ClearPrimary | SetPrimary | Commit | Rollback

definition clear_primary :: "database \<Rightarrow> string \<Rightarrow> database" where
  "clear_primary d e =
     d\<lparr>email_mailboxes := map (\<lambda>j. if ej_email_id j = e then j\<lparr>ej_is_primary := False\<rparr> else j)
                            (email_mailboxes d)\<rparr>"

definition mark_primary :: "database \<Rightarrow> string \<Rightarrow> string \<Rightarrow> database" where
  "mark_primary d e m =
     d\<lparr>email_mailboxes := map (\<lambda>j. if ej_email_id j = e \<and> ej_mailbox_id j = m
                                    then j\<lparr>ej_is_primary := True\<rparr> else j)
                            (email_mailboxes d)\<rparr>"

definition set_primary_mailbox ::
    "(tx_stmt \<Rightarrow> err option) \<Rightarrow> database \<Rightarrow> string \<Rightarrow> string \<Rightarrow> (err + unit) \<times> database \<times> bool" where
  [db_defs]: "set_primary_mailbox fails d e m =
     (case fails Begin of Some x \<Rightarrow> (Inl x, d, False) | None \<Rightarrow>
      (case fails ClearPrimary of
         Some x \<Rightarrow> (case fails Rollback of Some y \<Rightarrow> (Inl y, d, True) | None \<Rightarrow> (Inl x, d, False))
       | None \<Rightarrow>
      (let d1 = clear_primary d e in
       case fails SetPrimary of
         Some x \<Rightarrow> (case fails Rollback of Some y \<Rightarrow> (Inl y, d1, True) | None \<Rightarrow> (Inl x, d, False))
       | None \<Rightarrow>
      (let d2 = mark_primary d1 e m in
       case fails Commit of Some x \<Rightarrow> (Inl x, d2, True) | None \<Rightarrow> (Inr (), d2, False)))))"

text \<open>The orphan query of \<open>cleanup_orphaned_emails\<close>: a left join with no partner.\<close>

definition orphaned_emails :: "database \<Rightarrow> (string \<times> string) list" where
  "orphaned_emails d =
     [(em_id e, em_file_path e). e \<leftarrow> emails d,
        \<not> list_ex (\<lambda>j. ej_email_id j = em_id e) (email_mailboxes d)]"

section \<open>The integrity of the database\<close>

definition unique_some :: "'a option list \<Rightarrow> bool" where
  "unique_some xs \<longleftrightarrow> distinct (filter (\<lambda>x. x \<noteq> None) xs)"

text \<open>
  What the schema promises of the stored rows: keys and unique columns without duplicates,
  and, where foreign keys are enforced, no dangling reference.
\<close>

definition db_wf :: "database \<Rightarrow> bool" where
  "db_wf d \<longleftrightarrow>
     distinct (map mb_id (mailboxes d)) \<and>
     unique_some (map mb_jmap_id (mailboxes d)) \<and>
     distinct (map em_id (emails d)) \<and>
     unique_some (map em_jmap_id (emails d)) \<and>
     distinct (map em_file_path (emails d)) \<and>
     distinct (map (\<lambda>j. (ej_email_id j, ej_mailbox_id j)) (email_mailboxes d)) \<and>
     (foreign_keys d \<longrightarrow>
        (\<forall>m\<in>set (mailboxes d). parent_known (mailboxes d) m) \<and>
        (\<forall>e\<in>set (emails d). primary_known d e) \<and>
        (\<forall>j\<in>set (email_mailboxes d). ej_email_id j \<in> em_id ` set (emails d)
                                       \<and> ej_mailbox_id j \<in> mb_id ` set (mailboxes d)))"

lemma db_wf_empty [simp]: "db_wf (empty_database fk)"
  by (simp add: db_wf_def empty_database_def unique_some_def)

end
