(* ===== verification/Db_Integrity.thy ===== *)
theory Db_Integrity
  imports Db
begin

text \<open>
  What the database promises its clients: every statement keeps \<open>db_wf\<close>, and each table
  behaves as a map from primary keys to rows (locale \<open>row_store\<close>, interpreted on the
  mailbox table and on the email table).
\<close>

section \<open>Tables as lists of rows\<close>

definition replace_row :: "('r \<Rightarrow> 'k) \<Rightarrow> 'r \<Rightarrow> 'r list \<Rightarrow> 'r list" where
  "replace_row key m rs = map (\<lambda>r. if key r = key m then m else r) rs"

lemma map_key_replace_row [simp]: "map key (replace_row key m rs) = map key rs"
  by (simp add: replace_row_def)

lemma image_key_replace_row [simp]: "key ` set (replace_row key m rs) = key ` set rs"
  by (metis image_set map_key_replace_row)

lemma unique_some_Nil [simp]: "unique_some []"
  by (simp add: unique_some_def)

lemma unique_some_Cons [simp]:
  "unique_some (x # xs) \<longleftrightarrow> (x \<noteq> None \<longrightarrow> x \<notin> set xs) \<and> unique_some xs"
  by (auto simp: unique_some_def)

lemma unique_some_append [simp]:
  "unique_some (xs @ [x]) \<longleftrightarrow> unique_some xs \<and> (x \<noteq> None \<longrightarrow> x \<notin> set xs)"
  by (auto simp: unique_some_def)

lemma unique_some_filter: "unique_some (map f xs) \<Longrightarrow> unique_some (map f (filter P xs))"
  by (induction xs) auto

lemma distinct_map_filterI: "distinct (map f xs) \<Longrightarrow> distinct (map f (filter P xs))"
  by (induction xs) auto

lemma replace_row_id: "key m \<notin> key ` set rs \<Longrightarrow> replace_row key m rs = rs"
  by (induction rs) (auto simp: replace_row_def)

lemma set_replace_row:
  "key m \<in> key ` set rs \<Longrightarrow>
   set (replace_row key m rs) = insert m {r \<in> set rs. key r \<noteq> key m}"
  by (auto simp: replace_row_def)

lemma in_replace_rowD: "x \<in> set (replace_row key m rs) \<Longrightarrow> x = m \<or> x \<in> set rs"
  by (auto simp: replace_row_def split: if_splits)

lemma unique_some_replace_row:
  assumes "distinct (map key rs)" and "unique_some (map col rs)"
    and "col m \<noteq> None \<Longrightarrow> \<forall>r\<in>set rs. key r \<noteq> key m \<longrightarrow> col r \<noteq> col m"
  shows "unique_some (map col (replace_row key m rs))"
  using assms
proof (induction rs)
  case Nil
  then show ?case by (simp add: replace_row_def)
next
  case (Cons r rs)
  show ?case
  proof (cases "key r = key m")
    case True
    with Cons.prems(1) have "replace_row key m rs = rs"
      by (intro replace_row_id) (metis distinct.simps(2) image_set list.simps(9))
    with True Cons.prems show ?thesis by (force simp: replace_row_def image_iff)
  next
    case False
    with Cons have "unique_some (map col (replace_row key m rs))" by simp
    moreover have "replace_row key m (r # rs) = r # replace_row key m rs"
      using False by (simp add: replace_row_def)
    moreover have "col r \<noteq> None \<Longrightarrow> col r \<notin> col ` set (replace_row key m rs)"
      using False Cons.prems by (auto dest!: in_replace_rowD)
    ultimately show ?thesis by simp
  qed
qed

lemma distinct_replace_row:
  assumes "distinct (map key rs)" and "distinct (map col rs)"
    and "\<forall>r\<in>set rs. key r \<noteq> key m \<longrightarrow> col r \<noteq> col m"
  shows "distinct (map col (replace_row key m rs))"
  using unique_some_replace_row [of key rs "Some \<circ> col" m] assms
  by (simp add: unique_some_def comp_def flip: map_map)
     (simp add: distinct_map inj_on_def)

lemma find_append_new: "find P (xs @ [x]) = (case find P xs of None \<Rightarrow> if P x then Some x else None | r \<Rightarrow> r)"
  by (induction xs) auto

lemma find_key_None: "find (\<lambda>r. key r = k) rs = None \<longleftrightarrow> k \<notin> key ` set rs"
  by (auto simp: find_None_iff)

lemma find_key_filter:
  "find (\<lambda>r. key r = k) (filter (\<lambda>r. key r \<noteq> i) rs) =
     (if k = i then None else find (\<lambda>r. key r = k) rs)"
  by (induction rs) auto

lemma find_key_replace:
  "find (\<lambda>r. key r = k) (replace_row key m rs) =
     (if k = key m \<and> k \<in> key ` set rs then Some m else find (\<lambda>r. key r = k) rs)"
  by (induction rs) (auto simp: replace_row_def)

section \<open>Every statement keeps the integrity of the database\<close>

lemma db_wfD:
  assumes "db_wf d"
  shows "distinct (map mb_id (mailboxes d))" "unique_some (map mb_jmap_id (mailboxes d))"
    "distinct (map em_id (emails d))" "unique_some (map em_jmap_id (emails d))"
    "distinct (map em_file_path (emails d))"
    "distinct (map (\<lambda>j. (ej_email_id j, ej_mailbox_id j)) (email_mailboxes d))"
  using assms by (simp_all add: db_wf_def)

lemma db_wf_foreign:
  assumes "db_wf d" and "foreign_keys d"
  shows "m \<in> set (mailboxes d) \<Longrightarrow> mb_parent_id m = Some p \<Longrightarrow> p \<in> mb_id ` set (mailboxes d)"
    and "e \<in> set (emails d) \<Longrightarrow> em_primary_mailbox e \<in> mb_id ` set (mailboxes d)"
    and "j \<in> set (email_mailboxes d) \<Longrightarrow> ej_email_id j \<in> em_id ` set (emails d)"
    and "j \<in> set (email_mailboxes d) \<Longrightarrow> ej_mailbox_id j \<in> mb_id ` set (mailboxes d)"
  using assms by (auto simp: db_wf_def parent_known_def primary_known_def)

lemma insert_mailbox_wf:
  assumes "db_wf d" and "insert_mailbox d m = Inr d'"
  shows "db_wf d'"
  using assms
  by (auto simp: insert_mailbox_def db_wf_def parent_known_def primary_known_def
           split: if_splits option.splits)

lemma update_mailbox_row_eq:
  "mb_id m \<in> mb_id ` set (mailboxes d) \<Longrightarrow> update_mailbox_row d m = Inr d' \<Longrightarrow>
   d' = d\<lparr>mailboxes := replace_row mb_id m (mailboxes d)\<rparr>
   \<and> (mb_jmap_id m \<noteq> None \<longrightarrow> (\<forall>r\<in>set (mailboxes d). mb_id r \<noteq> mb_id m \<longrightarrow> mb_jmap_id r \<noteq> mb_jmap_id m))
   \<and> (foreign_keys d \<longrightarrow> parent_known (replace_row mb_id m (mailboxes d)) m)"
  by (auto simp: update_mailbox_row_def replace_row_def Let_def split: if_splits)

lemma update_mailbox_row_wf:
  assumes "db_wf d" and u: "update_mailbox_row d m = Inr d'"
  shows "db_wf d'"
proof (cases "mb_id m \<in> mb_id ` set (mailboxes d)")
  case False
  with u have "d' = d" by (simp add: update_mailbox_row_def Let_def)
  with assms(1) show ?thesis by simp
next
  case True
  note eq = update_mailbox_row_eq [OF True u]
  have "unique_some (map mb_jmap_id (replace_row mb_id m (mailboxes d)))"
    using db_wfD(1,2) [OF assms(1)] eq by (intro unique_some_replace_row) auto
  with assms(1) eq show ?thesis
    by (auto simp: db_wf_def parent_known_def primary_known_def dest!: in_replace_rowD
             split: option.splits)
qed

lemma delete_mailbox_row_wf:
  assumes "db_wf d" and "delete_mailbox_row d i = Inr d'"
  shows "db_wf d'"
proof (cases "i \<in> mb_id ` set (mailboxes d)")
  case False
  with assms show ?thesis by (simp add: delete_mailbox_row_def)
next
  case True
  with assms(2) have d': "d' = d\<lparr>mailboxes := filter (\<lambda>m. mb_id m \<noteq> i) (mailboxes d),
      email_mailboxes := (if foreign_keys d
        then filter (\<lambda>j. ej_mailbox_id j \<noteq> i) (email_mailboxes d) else email_mailboxes d)\<rparr>"
    and ch: "foreign_keys d \<Longrightarrow> m \<in> set (mailboxes d) \<Longrightarrow> mb_parent_id m = Some i \<Longrightarrow> mb_id m = i"
    and em: "foreign_keys d \<Longrightarrow> e \<in> set (emails d) \<Longrightarrow> em_primary_mailbox e \<noteq> i" for m e
    by (auto simp: delete_mailbox_row_def split: if_splits)
  have keep: "k \<in> mb_id ` {m \<in> set (mailboxes d). mb_id m \<noteq> i} \<longleftrightarrow>
      k \<noteq> i \<and> k \<in> mb_id ` set (mailboxes d)" for k by auto
  show ?thesis
    unfolding db_wf_def d'
    using db_wfD [OF assms(1)] db_wf_foreign [OF assms(1)] ch em
    by (auto simp: parent_known_def primary_known_def keep distinct_map_filterI unique_some_filter
             split: option.splits)
qed

lemma insert_email_row_wf:
  assumes "db_wf d" and "insert_email_row d e = Inr d'"
  shows "db_wf d'"
  using assms
  by (auto simp: insert_email_row_def db_wf_def primary_known_def split: if_splits)

lemma update_email_row_eq:
  assumes known: "em_id e \<in> em_id ` set (emails d)" and u: "update_email_row d e = Inr d'"
  shows "d' = d\<lparr>emails := replace_row em_id e (emails d)\<rparr>"
    and "em_jmap_id e \<noteq> None \<Longrightarrow> r \<in> set (emails d) \<Longrightarrow> em_id r \<noteq> em_id e \<Longrightarrow>
         em_jmap_id r \<noteq> em_jmap_id e"
    and "r \<in> set (emails d) \<Longrightarrow> em_id r \<noteq> em_id e \<Longrightarrow> em_file_path r \<noteq> em_file_path e"
    and "foreign_keys d \<Longrightarrow> primary_known d e"
proof -
  let ?twice_jmap = "em_jmap_id e \<noteq> None
    \<and> (\<exists>r\<in>set (emails d). em_id r \<noteq> em_id e \<and> em_jmap_id r = em_jmap_id e)"
  let ?twice_path = "\<exists>r\<in>set (emails d). em_id r \<noteq> em_id e \<and> em_file_path r = em_file_path e"
  have c: "\<not> ?twice_jmap" "\<not> ?twice_path" "\<not> (foreign_keys d \<and> \<not> primary_known d e)"
    "d' = d\<lparr>emails := replace_row em_id e (emails d)\<rparr>"
    using u known by (simp_all only: update_email_row_def replace_row_def if_Inl_eq_Inr not_not
        if_False sum.inject simp_thms not_True_eq_False)
  show "d' = d\<lparr>emails := replace_row em_id e (emails d)\<rparr>" by (rule c(4))
  show "em_jmap_id e \<noteq> None \<Longrightarrow> r \<in> set (emails d) \<Longrightarrow> em_id r \<noteq> em_id e \<Longrightarrow>
    em_jmap_id r \<noteq> em_jmap_id e" using c(1) by blast
  show "r \<in> set (emails d) \<Longrightarrow> em_id r \<noteq> em_id e \<Longrightarrow> em_file_path r \<noteq> em_file_path e"
    using c(2) by blast
  show "foreign_keys d \<Longrightarrow> primary_known d e" using c(3) by blast
qed

lemma update_email_row_wf:
  assumes "db_wf d" and u: "update_email_row d e = Inr d'"
  shows "db_wf d'"
proof (cases "em_id e \<in> em_id ` set (emails d)")
  case False
  with u have "d' = d" by (simp add: update_email_row_def)
  with assms(1) show ?thesis by simp
next
  case True
  note eq = update_email_row_eq [OF True u]
  have "unique_some (map em_jmap_id (replace_row em_id e (emails d)))"
    using db_wfD(3,4) [OF assms(1)] eq(2) by (intro unique_some_replace_row) auto
  moreover have "distinct (map em_file_path (replace_row em_id e (emails d)))"
    using db_wfD(3,5) [OF assms(1)] eq(3) by (intro distinct_replace_row) auto
  moreover have "primary_known d r" if "foreign_keys d" "r \<in> set (replace_row em_id e (emails d))" for r
    using in_replace_rowD [OF that(2)] db_wf_foreign(2) [OF assms(1) that(1), of r] eq(4) that(1)
    by (auto simp: primary_known_def)
  ultimately show ?thesis using assms(1) unfolding eq(1) by (simp add: db_wf_def primary_known_def)
qed

lemma delete_email_row_wf:
  assumes "db_wf d" and "delete_email_row d i = Inr d'"
  shows "db_wf d'"
proof -
  let ?js = "if foreign_keys d \<and> i \<in> em_id ` set (emails d)
    then filter (\<lambda>j. ej_email_id j \<noteq> i) (email_mailboxes d) else email_mailboxes d"
  have d': "d' = d\<lparr>emails := filter (\<lambda>e. em_id e \<noteq> i) (emails d), email_mailboxes := ?js\<rparr>"
    using assms(2) by (simp add: delete_email_row_def)
  have refs: "ej_email_id j \<in> em_id ` {e \<in> set (emails d). em_id e \<noteq> i}"
      "ej_mailbox_id j \<in> mb_id ` set (mailboxes d)"
    if "foreign_keys d" "j \<in> set ?js" for j
    using db_wf_foreign(3,4) [OF assms(1) that(1), of j] that by (auto split: if_splits)
  have "distinct (map (\<lambda>j. (ej_email_id j, ej_mailbox_id j)) ?js)"
    using db_wfD(6) [OF assms(1)] by (simp add: distinct_map_filterI)
  then show ?thesis
    unfolding db_wf_def d'
    using db_wfD(1-5) [OF assms(1)] assms(1) refs
    by (simp add: distinct_map_filterI unique_some_filter) (simp add: db_wf_def primary_known_def)
qed

lemma insert_email_mailbox_wf:
  assumes "db_wf d" and "insert_email_mailbox d j = Inr d'"
  shows "db_wf d'"
  using assms
  by (auto simp: insert_email_mailbox_def db_wf_def primary_known_def split: if_splits)

lemma delete_email_mailbox_wf:
  assumes "db_wf d" and "delete_email_mailbox d e m = Inr d'"
  shows "db_wf d'"
  using assms
  by (auto simp: delete_email_mailbox_def db_wf_def primary_known_def distinct_map_filterI)

lemmas db_wf_rules =
  insert_mailbox_wf update_mailbox_row_wf delete_mailbox_row_wf insert_email_row_wf
  update_email_row_wf delete_email_row_wf insert_email_mailbox_wf delete_email_mailbox_wf

section \<open>Each table is a map from keys to rows\<close>

text \<open>
  The contract of a table, as its clients use it: the operations, and what a lookup returns
  after each of them, on databases with \<open>ok\<close>.
\<close>

locale row_store =
  fixes key :: "'r \<Rightarrow> string"
    and get :: "'d \<Rightarrow> string \<Rightarrow> 'r option"
    and insert_row :: "'d \<Rightarrow> 'r \<Rightarrow> err + 'd"
    and update_row :: "'d \<Rightarrow> 'r \<Rightarrow> err + 'd"
    and delete_row :: "'d \<Rightarrow> string \<Rightarrow> err + 'd"
    and ok :: "'d \<Rightarrow> bool"
  assumes get_key: "get d k = Some r \<Longrightarrow> key r = k"
    and insert_fresh: "insert_row d r = Inr d' \<Longrightarrow> get d (key r) = None"
    and insert_get: "insert_row d r = Inr d' \<Longrightarrow> get d' k = (if k = key r then Some r else get d k)"
    and update_get: "update_row d r = Inr d' \<Longrightarrow>
          get d' k = (if k = key r \<and> get d k \<noteq> None then Some r else get d k)"
    and delete_get: "delete_row d i = Inr d' \<Longrightarrow> get d' k = (if k = i then None else get d k)"
    and insert_ok: "ok d \<Longrightarrow> insert_row d r = Inr d' \<Longrightarrow> ok d'"
    and update_ok: "ok d \<Longrightarrow> update_row d r = Inr d' \<Longrightarrow> ok d'"
    and delete_ok: "ok d \<Longrightarrow> delete_row d i = Inr d' \<Longrightarrow> ok d'"
begin

lemma lookup_inserted: "insert_row d r = Inr d' \<Longrightarrow> get d' (key r) = Some r"
  by (simp add: insert_get)

lemma no_second_insert: "insert_row d r = Inr d' \<Longrightarrow> \<exists>e. insert_row d' r = Inl e"
  using insert_fresh [of d' r] lookup_inserted [of d r d'] by (cases "insert_row d' r") auto

lemma update_never_creates: "update_row d r = Inr d' \<Longrightarrow> get d k = None \<Longrightarrow> get d' k = None"
  by (simp add: update_get)

lemma delete_undoes_insert:
  "insert_row d r = Inr d1 \<Longrightarrow> delete_row d1 (key r) = Inr d2 \<Longrightarrow> get d2 k = get d k"
  by (auto simp: insert_get delete_get insert_fresh)

lemma lookup_deleted: "delete_row d i = Inr d' \<Longrightarrow> get d' i = None"
  by (simp add: delete_get)

lemma others_untouched:
  "k \<noteq> key r \<Longrightarrow> insert_row d r = Inr d' \<Longrightarrow> get d' k = get d k"
  "k \<noteq> key r \<Longrightarrow> update_row d r = Inr d' \<Longrightarrow> get d' k = get d k"
  "k \<noteq> i \<Longrightarrow> delete_row d i = Inr d' \<Longrightarrow> get d' k = get d k"
  by (simp_all add: insert_get update_get delete_get)

end

lemma get_mailbox_update:
  "update_mailbox_row d m = Inr d' \<Longrightarrow>
   get_mailbox d' k = (if k = mb_id m \<and> get_mailbox d k \<noteq> None then Some m else get_mailbox d k)"
proof (cases "mb_id m \<in> mb_id ` set (mailboxes d)")
  case True
  moreover assume "update_mailbox_row d m = Inr d'"
  ultimately have "d' = d\<lparr>mailboxes := replace_row mb_id m (mailboxes d)\<rparr>"
    using update_mailbox_row_eq by blast
  then show ?thesis by (auto simp: get_mailbox_def find_key_replace find_key_None [of mb_id])
next
  case False
  moreover assume "update_mailbox_row d m = Inr d'"
  ultimately have "d' = d" by (simp add: update_mailbox_row_def Let_def)
  with False show ?thesis by (auto simp: get_mailbox_def find_key_None [of mb_id])
qed

lemma get_email_update:
  "update_email_row d e = Inr d' \<Longrightarrow>
   get_email d' k = (if k = em_id e \<and> get_email d k \<noteq> None then Some e else get_email d k)"
proof (cases "em_id e \<in> em_id ` set (emails d)")
  case True
  moreover assume "update_email_row d e = Inr d'"
  ultimately have "d' = d\<lparr>emails := replace_row em_id e (emails d)\<rparr>"
    by (rule update_email_row_eq(1))
  then show ?thesis by (auto simp: get_email_def find_key_replace find_key_None [of em_id])
next
  case False
  moreover assume "update_email_row d e = Inr d'"
  ultimately have "d' = d" by (simp add: update_email_row_def)
  with False show ?thesis by (auto simp: get_email_def find_key_None [of em_id])
qed

lemma get_mailbox_None: "get_mailbox d k = None \<longleftrightarrow> k \<notin> mb_id ` set (mailboxes d)"
  by (simp add: get_mailbox_def find_key_None)

lemma get_email_None: "get_email d k = None \<longleftrightarrow> k \<notin> em_id ` set (emails d)"
  by (simp add: get_email_def find_key_None)

interpretation mailbox_table: row_store mb_id get_mailbox insert_mailbox update_mailbox_row
  delete_mailbox_row db_wf
proof (unfold_locales, goal_cases)
  case (1 d k r)
  then show ?case by (auto simp: get_mailbox_def find_Some_iff)
next
  case (2 d r d')
  then show ?case by (auto simp: insert_mailbox_def get_mailbox_None split: if_splits)
next
  case (3 d r d' k)
  then have "get_mailbox d (mb_id r) = None" and "d' = d\<lparr>mailboxes := mailboxes d @ [r]\<rparr>"
    by (auto simp: insert_mailbox_def get_mailbox_None split: if_splits)
  then show ?case by (auto simp: get_mailbox_def find_append_new split: option.splits)
next
  case (4 d r d' k)
  then show ?case by (rule get_mailbox_update)
next
  case (5 d i d' k)
  then show ?case
    by (auto simp: delete_mailbox_row_def get_mailbox_def find_key_filter find_key_None [of mb_id]
             split: if_splits)
qed (blast intro: db_wf_rules)+

interpretation email_table: row_store em_id get_email insert_email_row update_email_row
  delete_email_row db_wf
proof (unfold_locales, goal_cases)
  case (1 d k r)
  then show ?case by (auto simp: get_email_def find_Some_iff)
next
  case (2 d r d')
  then show ?case by (auto simp: insert_email_row_def get_email_None split: if_splits)
next
  case (3 d r d' k)
  then have "get_email d (em_id r) = None" and "d' = d\<lparr>emails := emails d @ [r]\<rparr>"
    by (auto simp: insert_email_row_def get_email_None split: if_splits)
  then show ?case by (auto simp: get_email_def find_append_new split: option.splits)
next
  case (4 d r d' k)
  then show ?case by (rule get_email_update)
next
  case (5 d i d' k)
  then show ?case
    by (auto simp: delete_email_row_def get_email_def find_key_filter)
qed (blast intro: db_wf_rules)+

end
