(* ===== verification/World.thy ===== *)
theory World
  imports Std_Fs Db_Integrity
begin

text \<open>
  The world the synchronisation code acts on, and the calls by which it acts. The
  environment \<open>env\<close> holds what the code cannot determine: which system calls the operating
  system refuses, the clock, the UUIDs it will draw, and \<open>serde_json\<close> on maps from strings
  to booleans.
\<close>

text \<open>An \<open>Email/set\<close> request: keyword patches per email, and emails to destroy.\<close>

record set_request =
  sr_updates :: "(string \<times> (string \<times> bool) list) list"
  sr_destroy :: "string list"

record world =
  db :: database
  files :: fs
  uuids_drawn :: nat
  set_requests :: "set_request list"

record env =
  fault :: "fs_op \<Rightarrow> bool"
  unix_now :: int
  fresh_uuid :: "nat \<Rightarrow> string"
  json_parse :: "string \<Rightarrow> (string \<times> bool) list option"
  json_print :: "(string \<times> bool) list \<Rightarrow> string"
  hash_order :: "nat \<Rightarrow> string list \<Rightarrow> string list"

text \<open>
  A hash map is iterated in an order that its random seed determines: \<open>hash_order\<close> gives it
  for the maps of a function, which are numbered. It is a permutation of the keys.
\<close>

definition iterate :: "env \<Rightarrow> nat \<Rightarrow> (string, 'v) hmap \<Rightarrow> (string, 'v) hmap" where
  "iterate v n m =
     List.map_filter (\<lambda>k. map_option (\<lambda>x. (k, x)) (map_of m k)) (hash_order v n (hm_keys m))"

definition fair_order :: "env \<Rightarrow> bool" where
  "fair_order v \<longleftrightarrow> (\<forall>n ks. mset (hash_order v n ks) = mset ks)"

section \<open>System calls\<close>

definition sys :: "env \<Rightarrow> fs_op \<Rightarrow> (fs \<Rightarrow> fs option) \<Rightarrow> (world, unit) io" where
  "sys v op f = (\<lambda>w.
     if fault v op then (Inl (IoError op), w)
     else case f (files w) of
            None \<Rightarrow> (Inl (IoError op), w)
          | Some f' \<Rightarrow> (Inr (), w\<lparr>files := f'\<rparr>))"

definition sys_create_dir_all :: "env \<Rightarrow> path \<Rightarrow> (world, unit) io" where
  "sys_create_dir_all v p = sys v (MkdirAll p) (\<lambda>f. create_dir_all f p)"

definition sys_write :: "env \<Rightarrow> path \<Rightarrow> string \<Rightarrow> (world, unit) io" where
  "sys_write v p c = sys v (WriteFile p) (\<lambda>f. write_file f p c)"

definition sys_rename :: "env \<Rightarrow> path \<Rightarrow> path \<Rightarrow> (world, unit) io" where
  "sys_rename v a b = sys v (RenameTo a b) (\<lambda>f. rename f a b)"

definition sys_remove_file :: "env \<Rightarrow> path \<Rightarrow> (world, unit) io" where
  "sys_remove_file v p = sys v (RemoveFile p) (\<lambda>f. remove_file f p)"

definition sys_remove_dir_all :: "env \<Rightarrow> path \<Rightarrow> (world, unit) io" where
  "sys_remove_dir_all v p = sys v (RemoveDirAll p) (\<lambda>f. remove_dir_all f p)"

definition sys_read_dir :: "env \<Rightarrow> path \<Rightarrow> (world, string list) io" where
  "sys_read_dir v p = (\<lambda>w.
     if fault v (ReadDir p) then (Inl (IoError (ReadDir p)), w)
     else case read_dir (files w) p of
            None \<Rightarrow> (Inl (IoError (ReadDir p)), w)
          | Some ns \<Rightarrow> (Inr ns, w))"

definition sys_read_file :: "env \<Rightarrow> path \<Rightarrow> (world, string) io" where
  "sys_read_file v p = (\<lambda>w.
     if fault v (ReadFile p) then (Inl (IoError (ReadFile p)), w)
     else case read_file (files w) p of
            None \<Rightarrow> (Inl (IoError (ReadFile p)), w)
          | Some c \<Rightarrow> (Inr c, w))"

text \<open>A computation on what the file system holds.\<close>

definition fs_query :: "(fs \<Rightarrow> 'a) \<Rightarrow> (world, 'a) io" where
  "fs_query f = (\<lambda>w. (Inr (f (files w)), w))"

text \<open>\<open>path.exists()\<close> answers false where the question cannot be answered.\<close>

definition sys_exists :: "path \<Rightarrow> (world, bool) io" where
  "sys_exists p = (\<lambda>w. (Inr (path_exists (files w) p), w))"

text \<open>\<open>if let Err(e) = call \{ warn!(...) \}\<close> and \<open>let _ = call\<close>: the error is dropped.\<close>

definition ignore_err :: "('w, unit) io \<Rightarrow> ('w, unit) io" where
  "ignore_err m = (\<lambda>w. (Inr (), snd (m w)))"

section \<open>Statements and identifiers\<close>

definition db_exec :: "(database \<Rightarrow> err + database) \<Rightarrow> (world, unit) io" where
  "db_exec f = (\<lambda>w. case f (db w) of Inl e \<Rightarrow> (Inl e, w) | Inr d \<Rightarrow> (Inr (), w\<lparr>db := d\<rparr>))"

definition db_query :: "(database \<Rightarrow> 'a) \<Rightarrow> (world, 'a) io" where
  "db_query f = (\<lambda>w. (Inr (f (db w)), w))"

text \<open>\<open>generate_id\<close> of \<open>db/mod.rs\<close> and \<open>new_uuid_string\<close> of \<open>sync/email.rs\<close>.\<close>

definition generate_id :: "env \<Rightarrow> (world, string) io" where
  "generate_id v = (\<lambda>w. (Inr (fresh_uuid v (uuids_drawn w)), w\<lparr>uuids_drawn := Suc (uuids_drawn w)\<rparr>))"

lemmas io_calls =
  sys_def sys_create_dir_all_def sys_write_def sys_rename_def sys_remove_file_def
  sys_remove_dir_all_def sys_read_dir_def sys_exists_def ignore_err_def db_exec_def
  db_query_def generate_id_def

section \<open>Iteration orders\<close>

lemma hash_order_set:
  assumes "fair_order v"
  shows "set (hash_order v n (hm_keys m)) = fst ` set m"
proof -
  have "set (hash_order v n (hm_keys m)) = set (hm_keys m)"
    by (rule mset_eq_setD) (use assms in \<open>simp add: fair_order_def\<close>)
  then show ?thesis by (simp add: hm_keys_def)
qed

lemma iterate_keys:
  assumes "fair_order v"
  shows "mset (hm_keys (iterate v n m)) = mset (hm_keys m)"
proof -
  have "map fst (List.map_filter (\<lambda>k. map_option (\<lambda>x. (k, x)) (map_of m k)) ks) = ks"
    if "set ks \<subseteq> fst ` set m" for ks
    using that by (induction ks) (auto split: option.splits simp: map_of_eq_None_iff)
  from this [of "hash_order v n (hm_keys m)"] hash_order_set [OF assms, of n m]
  have "hm_keys (iterate v n m) = hash_order v n (hm_keys m)"
    by (simp add: iterate_def hm_keys_def)
  with assms show ?thesis by (simp add: fair_order_def)
qed

lemma iterate_wf: "fair_order v \<Longrightarrow> hm_wf m \<Longrightarrow> hm_wf (iterate v n m)"
  using mset_eq_imp_distinct_iff [OF iterate_keys, of v n m] by (simp add: hm_wf_def hm_keys_def)

lemma in_iterate:
  assumes "fair_order v"
  shows "(k, x) \<in> set (iterate v n m) \<longleftrightarrow> map_of m k = Some x"
proof -
  have "(k, x) \<in> set (iterate v n m) \<longleftrightarrow> k \<in> fst ` set m \<and> map_of m k = Some x"
    unfolding iterate_def in_map_filter hash_order_set [OF assms] by auto
  then show ?thesis by (metis domI dom_map_of_conv_image_fst)
qed

lemma map_of_iterate: "fair_order v \<Longrightarrow> hm_wf m \<Longrightarrow> map_of (iterate v n m) = map_of m"
proof (rule ext)
  fix k assume f: "fair_order v" and m: "hm_wf m"
  have "map_of (iterate v n m) k = Some x \<longleftrightarrow> map_of m k = Some x" for x
    using in_iterate [OF f, of k x n m] iterate_wf [OF f m]
    by (simp add: hm_wf_def map_of_eq_Some_iff)
  then show "map_of (iterate v n m) k = map_of m k" by (metis not_None_eq)
qed

section \<open>Invariants of the calls\<close>

lemma keeps_ignore_err [keeps_rules]: "keeps P m \<Longrightarrow> keeps P (ignore_err m)"
  by (simp add: keeps_def ignore_err_def)

lemma keeps_exists [keeps_rules]: "keeps P (sys_exists p)"
  by (simp add: keeps_def sys_exists_def)

lemma keeps_read_dir [keeps_rules]: "keeps P (sys_read_dir v p)"
  by (simp add: keeps_def sys_read_dir_def split: option.splits)

lemma keeps_read_file [keeps_rules]: "keeps P (sys_read_file v p)"
  by (simp add: keeps_def sys_read_file_def split: option.splits)

lemma keeps_fs_query [keeps_rules]: "keeps P (fs_query f)"
  by (simp add: keeps_def fs_query_def)

lemma keeps_query [keeps_rules]: "keeps P (db_query f)"
  by (simp add: keeps_def db_query_def)

text \<open>Writes to files leave the database, drawing an identifier leaves both.\<close>

lemma keeps_sys_db: "keeps (\<lambda>w. P (db w)) (sys v op f)"
  by (auto simp: keeps_def sys_def split: option.splits)

lemma keeps_sys_calls_db [keeps_rules]:
  "keeps (\<lambda>w. P (db w)) (sys_create_dir_all v p)"
  "keeps (\<lambda>w. P (db w)) (sys_write v p c)"
  "keeps (\<lambda>w. P (db w)) (sys_rename v p q)"
  "keeps (\<lambda>w. P (db w)) (sys_remove_file v p)"
  "keeps (\<lambda>w. P (db w)) (sys_remove_dir_all v p)"
  by (simp_all add: sys_create_dir_all_def sys_write_def sys_rename_def sys_remove_file_def
      sys_remove_dir_all_def keeps_sys_db)

lemma keeps_sys_files:
  "(\<And>f f'. Q f \<Longrightarrow> g f = Some f' \<Longrightarrow> Q f') \<Longrightarrow> keeps (\<lambda>x. Q (files x)) (sys v op g)"
  by (auto simp: keeps_def sys_def split: option.splits)

lemma sys_Inr: "sys v op g w = (Inr u, w') \<longleftrightarrow> \<not> fault v op \<and> (\<exists>f. g (files w) = Some f \<and> w' = w\<lparr>files := f\<rparr>)"
  by (auto simp: sys_def split: option.splits)

lemma sys_Inl: "sys v op g w = (Inl e, w') \<Longrightarrow> w' = w"
  by (auto simp: sys_def split: option.splits if_splits)

lemma yields_db_query: "(\<And>w. P w \<Longrightarrow> R (f (db w))) \<Longrightarrow> yields P (db_query f) R"
  by (simp add: yields_def db_query_def)

lemma yields_fs_query: "(\<And>w. P w \<Longrightarrow> R (f (files w))) \<Longrightarrow> yields P (fs_query f) R"
  by (simp add: yields_def fs_query_def)

lemma keeps_generate_id_db [keeps_rules]: "keeps (\<lambda>w. P (db w)) (generate_id v)"
  by (simp add: keeps_def generate_id_def)

lemma keeps_generate_id_quiet [keeps_rules]: "keeps (\<lambda>w. Q (db w) (files w)) (generate_id v)"
  by (simp add: keeps_def generate_id_def)

lemma keeps_generate_id_rest [keeps_rules]:
  "keeps (\<lambda>w. Q (db w) (files w) (set_requests w)) (generate_id v)"
  by (simp add: keeps_def generate_id_def)

lemma keeps_db_exec:
  "(\<And>d d'. P d \<Longrightarrow> f d = Inr d' \<Longrightarrow> P d') \<Longrightarrow> keeps (\<lambda>w. P (db w)) (db_exec f)"
  by (auto simp: keeps_def db_exec_def split: sum.splits)

lemma keeps_db_wf_exec [keeps_rules]:
  "keeps (\<lambda>w. db_wf (db w)) (db_exec (\<lambda>d. insert_mailbox d m))"
  "keeps (\<lambda>w. db_wf (db w)) (db_exec (\<lambda>d. update_mailbox_row d m))"
  "keeps (\<lambda>w. db_wf (db w)) (db_exec (\<lambda>d. delete_mailbox_row d i))"
  "keeps (\<lambda>w. db_wf (db w)) (db_exec (\<lambda>d. insert_email_row d e))"
  "keeps (\<lambda>w. db_wf (db w)) (db_exec (\<lambda>d. update_email_row d e))"
  "keeps (\<lambda>w. db_wf (db w)) (db_exec (\<lambda>d. delete_email_row d i))"
  "keeps (\<lambda>w. db_wf (db w)) (db_exec (\<lambda>d. insert_email_mailbox d j))"
  "keeps (\<lambda>w. db_wf (db w)) (db_exec (\<lambda>d. delete_email_mailbox d i k))"
  by (rule keeps_db_exec, erule (1) db_wf_rules)+

end
