(* ===== verification/Btree_Map.thy ===== *)
theory Btree_Map
  imports Prelude
begin

text \<open>
  \<open>BTreeMap\<close>: the entries in strictly ascending key order, so that equal maps are equal
  lists and iteration is the list itself.
\<close>

type_synonym ('k, 'v) btree = "('k \<times> 'v) list"

definition bt_ok :: "('k::linorder, 'v) btree \<Rightarrow> bool" where
  "bt_ok t \<longleftrightarrow> sorted_wrt (<) (map fst t)"

fun bt_insert :: "'k::linorder \<Rightarrow> 'v \<Rightarrow> ('k, 'v) btree \<Rightarrow> ('k, 'v) btree" where
  "bt_insert k v [] = [(k, v)]"
| "bt_insert k v (e # t) =
     (if fst e < k then e # bt_insert k v t
      else if fst e = k then (k, v) # t
      else (k, v) # e # t)"

definition bt_remove :: "'k::linorder \<Rightarrow> ('k, 'v) btree \<Rightarrow> ('k, 'v) btree" where
  "bt_remove k t = filter (\<lambda>e. fst e \<noteq> k) t"

text \<open>\<open>iter.collect::<BTreeMap<_, _>>()\<close>.\<close>

definition bt_collect :: "('k::linorder \<times> 'v) list \<Rightarrow> ('k, 'v) btree" where
  "bt_collect xs = fold (\<lambda>(k, v). bt_insert k v) xs []"

lemma bt_ok_Nil [simp]: "bt_ok []"
  by (simp add: bt_ok_def)

lemma bt_ok_Cons [simp]: "bt_ok (e # t) \<longleftrightarrow> (\<forall>k \<in> fst ` set t. fst e < k) \<and> bt_ok t"
  by (simp add: bt_ok_def)

lemma bt_ok_distinct: "bt_ok t \<Longrightarrow> distinct (map fst t)"
  by (simp add: bt_ok_def strict_sorted_iff)

lemma bt_insert_keys [simp]: "fst ` set (bt_insert k v t) = insert k (fst ` set t)"
  by (induction t) auto

lemma bt_insert_ok [simp]: "bt_ok t \<Longrightarrow> bt_ok (bt_insert k v t)"
  by (induction t) auto

lemma bt_insert_get: "bt_ok t \<Longrightarrow> map_of (bt_insert k v t) = (map_of t)(k \<mapsto> v)"
proof (induction t)
  case Nil
  show ?case by simp
next
  case (Cons e t)
  then show ?case by (cases e) (auto simp: fun_eq_iff)
qed

lemma bt_remove_keys [simp]: "fst ` set (bt_remove k t) = fst ` set t - {k}"
  by (auto simp: bt_remove_def)

lemma bt_remove_ok [simp]: "bt_ok t \<Longrightarrow> bt_ok (bt_remove k t)"
  by (induction t) (auto simp: bt_remove_def)

lemma bt_remove_get: "map_of (bt_remove k t) = (map_of t)(k := None)"
  by (rule ext) (simp add: bt_remove_def map_of_filter_key [where P = "\<lambda>x. x \<noteq> k"])

lemma bt_fold_insert:
  "bt_ok t \<Longrightarrow> bt_ok (fold (\<lambda>(k, v). bt_insert k v) xs t)
    \<and> map_of (fold (\<lambda>(k, v). bt_insert k v) xs t) = map_of t ++ map_of (rev xs)"
  by (induction xs arbitrary: t) (auto simp: bt_insert_get fun_eq_iff map_add_def split: option.splits)

lemma bt_collect_ok [simp]: "bt_ok (bt_collect xs)"
  by (simp add: bt_collect_def bt_fold_insert)

lemma bt_collect_get: "map_of (bt_collect xs) = map_of (rev xs)"
  by (simp add: bt_collect_def bt_fold_insert)

text \<open>Equal maps are equal lists.\<close>

lemma alist_from_keys:
  assumes "distinct (map fst s)"
  shows "s = map (\<lambda>k. (k, the (map_of s k))) (map fst s)"
proof (rule nth_equalityI)
  fix i
  assume i: "i < length s"
  then have "map_of s (fst (s ! i)) = Some (snd (s ! i))"
    using assms by (simp add: map_of_eq_Some_iff)
  with i show "s ! i = map (\<lambda>k. (k, the (map_of s k))) (map fst s) ! i" by simp
qed simp

lemma bt_eqI:
  assumes "bt_ok s" and "bt_ok t" and "map_of s = map_of t"
  shows "s = t"
proof -
  have d: "distinct (map fst s)" "distinct (map fst t)"
    using assms by (simp_all add: bt_ok_distinct)
  then have "set s = set t" using assms(3) by (simp add: map_of_inject_set)
  then have "map fst s = map fst t"
    using assms(1,2) unfolding bt_ok_def by (intro strict_sorted_equal) auto
  then show ?thesis
    using alist_from_keys [OF d(1)] alist_from_keys [OF d(2)] assms(3) by metis
qed

end
