(* ===== verification/Maildir_Flags.thy ===== *)
theory Maildir_Flags
  imports World Btree_Map
begin

text \<open>
  JMAP keywords and Maildir flags (\<open>sync/email.rs\<close>): the keyword table, the file names
  \<open>{ts}.{uuid}:2,{flags}\<close>, the JSON in which the database stores an email's keywords, and
  the comparison that decides what a local flag change means for the server.

  \<open>serde_json\<close> is the pair \<open>json_parse\<close>, \<open>json_print\<close> of the environment; what the code
  relies on is \<open>json_faithful\<close>: parsing what was printed gives it back.
\<close>

section \<open>Definitions\<close>

definition keyword_map :: "(string \<times> char) list" where
  "keyword_map = [(''$seen'', CHR ''S''), (''$flagged'', CHR ''F''),
                  (''$answered'', CHR ''R''), (''$draft'', CHR ''D'')]"

definition json_faithful :: "env \<Rightarrow> bool" where
  "json_faithful v \<longleftrightarrow> (\<forall>t. bt_ok t \<longrightarrow> json_parse v (json_print v t) = Some t)"

text \<open>\<open>serde_json::from_str::<BTreeMap<String, bool>>(s).unwrap_or_default()\<close>\<close>

definition parse_keywords :: "env \<Rightarrow> string \<Rightarrow> (string, bool) btree" where
  "parse_keywords v s = (case json_parse v s of Some members \<Rightarrow> bt_collect members | None \<Rightarrow> [])"

subsection \<open>File names\<close>

definition filename_base :: "string \<Rightarrow> string" where
  "filename_base name = (case rsplit_once '':2,'' name of Some (b, _) \<Rightarrow> b | None \<Rightarrow> name)"

definition filename_flags :: "string \<Rightarrow> string" where
  "filename_flags name = (case rsplit_once '':2,'' name of Some (_, f) \<Rightarrow> f | None \<Rightarrow> [])"

definition current_flags_from_path :: "string \<Rightarrow> string" where
  "current_flags_from_path p = (case rsplit_once '':2,'' p of Some (_, tail) \<Rightarrow> tail | None \<Rightarrow> [])"

definition rebuild_path_with_flags :: "string \<Rightarrow> string \<Rightarrow> string" where
  "rebuild_path_with_flags p flags =
     (case rsplit_once '':2,'' p of
        Some (base, _) \<Rightarrow> base @ '':2,'' @ flags
      | None \<Rightarrow> p @ '':2,'' @ flags)"

definition extract_uuid :: "string \<Rightarrow> string option" where
  "extract_uuid p =
     (let filename = last (split_on CHR ''/'' p);
          base = (case split_once '':2,'' filename of Some (b, _) \<Rightarrow> b | None \<Rightarrow> filename)
      in map_option snd (split_once ''.'' base))"

subsection \<open>Keywords to flags\<close>

definition keywords_to_flag_string :: "string list \<Rightarrow> string" where
  "keywords_to_flag_string keywords =
     remdups_adj (sort (List.map_filter (\<lambda>k. map_of keyword_map k) keywords))"

definition serialize_keywords :: "env \<Rightarrow> string list \<Rightarrow> string" where
  "serialize_keywords v keywords =
     json_print v (bt_collect (map (\<lambda>k. (k, True)) (sort keywords)))"

subsection \<open>Flags to keywords\<close>

definition standard_flag :: "char \<Rightarrow> bool" where
  "standard_flag c \<longleftrightarrow> list_ex (\<lambda>(_, f). f = c) keyword_map"

definition merged_keywords :: "(string, bool) btree \<Rightarrow> string \<Rightarrow> (string, bool) btree" where
  "merged_keywords parsed disk_flags =
     (let stripped = fold (\<lambda>(kw, _). bt_remove kw) keyword_map parsed in
      fold (\<lambda>(kw, ch) m. if ch \<in> set disk_flags then bt_insert kw True m else m)
        keyword_map stripped)"

definition merge_keywords_json :: "env \<Rightarrow> string \<Rightarrow> string \<Rightarrow> string" where
  "merge_keywords_json v stored_json disk_flags =
     json_print v (merged_keywords (parse_keywords v stored_json) disk_flags)"

definition extract_standard_flags :: "env \<Rightarrow> string \<Rightarrow> string" where
  "extract_standard_flags v stored_json =
     sort (map snd (filter (\<lambda>(kw, _). map_of (parse_keywords v stored_json) kw = Some True)
       keyword_map))"

definition keyword_patch_ops :: "string \<Rightarrow> string \<Rightarrow> (string \<times> bool) list" where
  "keyword_patch_ops stored_flags new_flags =
     [(kw, ch \<in> set new_flags). (kw, ch) \<leftarrow> keyword_map,
        (ch \<in> set stored_flags) \<noteq> (ch \<in> set new_flags)]"

section \<open>File names\<close>

lemma rsplit_flags: "CHR '':'' \<notin> set f \<Longrightarrow> rsplit_once '':2,'' (b @ '':2,'' @ f) = Some (b, f)"
  by (rule rsplit_once_last) simp_all

lemma current_flags_is_filename_flags: "current_flags_from_path = filename_flags"
  by (rule ext) (simp add: current_flags_from_path_def filename_flags_def)

lemma rebuild_path_eq: "rebuild_path_with_flags p f = filename_base p @ '':2,'' @ f"
  by (simp add: rebuild_path_with_flags_def filename_base_def split: option.splits)

lemma filename_base_rebuild:
  "CHR '':'' \<notin> set f \<Longrightarrow> filename_base (rebuild_path_with_flags p f) = filename_base p"
  unfolding rebuild_path_eq by (subst filename_base_def) (simp add: rsplit_flags [simplified])

lemma filename_flags_rebuild:
  "CHR '':'' \<notin> set f \<Longrightarrow> filename_flags (rebuild_path_with_flags p f) = f"
  unfolding rebuild_path_eq by (subst filename_flags_def) (simp add: rsplit_flags [simplified])

section \<open>Keywords to flags\<close>

lemma keyword_map_get: "map_of keyword_map k = Some c \<longleftrightarrow> (k, c) \<in> set keyword_map"
  by (rule map_of_eq_Some_iff) (simp add: keyword_map_def)

lemma keyword_of_flag: "(k, c) \<in> set keyword_map \<Longrightarrow> (k', c) \<in> set keyword_map \<Longrightarrow> k = k'"
  by (auto simp: keyword_map_def)

lemma standard_flag_iff: "standard_flag c \<longleftrightarrow> (\<exists>k. (k, c) \<in> set keyword_map)"
  by (auto simp: standard_flag_def list_ex_iff)

lemma standard_flags: "standard_flag c \<longleftrightarrow> c \<in> {CHR ''S'', CHR ''F'', CHR ''R'', CHR ''D''}"
  by (auto simp: standard_flag_def keyword_map_def)

lemma set_keywords_to_flag_string:
  "c \<in> set (keywords_to_flag_string ks) \<longleftrightarrow> (\<exists>k\<in>set ks. (k, c) \<in> set keyword_map)"
  by (simp add: keywords_to_flag_string_def in_map_filter flip: keyword_map_get)

lemma keywords_to_flag_string_standard:
  "c \<in> set (keywords_to_flag_string ks) \<Longrightarrow> standard_flag c"
  by (auto simp: set_keywords_to_flag_string standard_flag_iff)

lemma sorted_keywords_to_flag_string:
  "sorted (keywords_to_flag_string ks) \<and> distinct (keywords_to_flag_string ks)"
  by (simp add: keywords_to_flag_string_def sorted_remdups_adj distinct_remdups_adj_sorted)

lemma keywords_to_flag_string_no_colon: "CHR '':'' \<notin> set (keywords_to_flag_string ks)"
  by (auto dest: keywords_to_flag_string_standard simp: standard_flags)

section \<open>The stored keywords\<close>

lemma bt_collect_id: "bt_ok t \<Longrightarrow> bt_collect t = t"
  by (rule bt_eqI) (simp_all add: bt_collect_get map_of_rev_distinct bt_ok_distinct)

lemma parse_keywords_ok [simp]: "bt_ok (parse_keywords v s)"
  by (simp add: parse_keywords_def split: option.splits)

lemma parse_print_keywords: "json_faithful v \<Longrightarrow> bt_ok t \<Longrightarrow> parse_keywords v (json_print v t) = t"
  by (simp add: parse_keywords_def json_faithful_def bt_collect_id)

lemma merged_keywords_ok [simp]: "bt_ok t \<Longrightarrow> bt_ok (merged_keywords t f)"
  by (simp add: merged_keywords_def keyword_map_def Let_def)

text \<open>After a merge the standard keywords are those of the disk, the others are kept.\<close>

lemma merged_keywords_get:
  assumes "bt_ok t"
  shows "map_of (merged_keywords t f) k =
    (case map_of keyword_map k of
       Some c \<Rightarrow> if c \<in> set f then Some True else None
     | None \<Rightarrow> map_of t k)"
  using assms
  by (simp add: merged_keywords_def keyword_map_def Let_def bt_insert_get bt_remove_get)

lemma map_of_serialized:
  "map_of (bt_collect (map (\<lambda>k. (k, True)) ks)) k = (if k \<in> set ks then Some True else None)"
  by (simp add: bt_collect_get flip: rev_map) (induction ks rule: rev_induct, auto)

lemma merged_keywords_stable:
  assumes "\<And>k c. (k, c) \<in> set keyword_map \<Longrightarrow> map_of t k = (if c \<in> set f then Some True else None)"
    and "bt_ok t"
  shows "merged_keywords t f = t"
proof (rule bt_eqI)
  show "map_of (merged_keywords t f) = map_of t"
    by (rule ext) (use assms in \<open>auto simp: merged_keywords_get keyword_map_get split: option.splits\<close>)
qed (use assms in simp_all)

lemma extract_merge:
  assumes "json_faithful v"
  shows "extract_standard_flags v (merge_keywords_json v s f)
    = sort (filter (\<lambda>c. c \<in> set f) (map snd keyword_map))"
  by (simp add: extract_standard_flags_def merge_keywords_json_def parse_print_keywords assms
      merged_keywords_get keyword_map_def)

end
