(* ===== verification/Config.thy ===== *)
theory Config
  imports Rust_Str
begin

text \<open>
  \<open>config.rs\<close>: the configuration types, the defaults that serde's attributes fill in, the
  choice of a token source, and \<open>Config::load\<close>. The TOML parser yields the \<open>raw_\<close> records
  (what the document holds, before defaults and path expansion); it, the expansion of
  \<open>~\<close> and \<open>$VAR\<close> (\<open>shellexpand::full\<close>) and the platform directories (\<open>dirs\<close>) are
  parameters. Paths of the configuration are strings.
\<close>

section \<open>Types\<close>

datatype sync_mode = Mirror | TwoWay

datatype log_level = Trace | Debug | Info | Warn | Error

datatype level_filter = FilterTrace | FilterDebug | FilterInfo | FilterWarn | FilterError

fun level_filter_of :: "log_level \<Rightarrow> level_filter" where
  "level_filter_of Trace = FilterTrace"
| "level_filter_of Debug = FilterDebug"
| "level_filter_of Info = FilterInfo"
| "level_filter_of Warn = FilterWarn"
| "level_filter_of Error = FilterError"

datatype scheduled_folder = Auto | SentFolder | Named string

datatype token_source = Inline string | TokenFile string | TokenCmd string

record tls_config =
  ca_file :: "string option"
  client_cert :: "string option"
  client_key :: "string option"
  fingerprint :: "string option"

record box_map =
  remote :: string
  local_name :: string

record submit_config =
  from_address :: string
  identity_id :: "string option"
  scheduled_folder :: scheduled_folder
  retry_base_secs :: nat
  retry_cap_secs :: nat

record mail_config =
  mail_path :: string
  sync_mode :: sync_mode
  subscribed_only :: bool
  box_filter :: "string list option"
  tls :: "tls_config option"
  box_mapping :: "box_map list"
  post_sync_hook :: "string option"
  watch_maildir :: bool
  exclude_mailboxes :: "string list"

record account =
  acct_name :: string
  enabled :: bool
  jmap_host :: string
  jmap_user :: string
  token :: token_source
  timeout_secs :: nat
  poll_interval_secs :: nat
  mail :: "mail_config option"
  submit :: "submit_config option"

record config =
  db_dir :: string
  accounts :: "account list"

record overrides =
  override_db_dir :: "string option"

record config_file =
  file_db_dir :: "string option"
  file_accounts :: "account list"

section \<open>Reading the document\<close>

record raw_submit =
  rs_from_address :: string
  rs_identity_id :: "string option"
  rs_scheduled_folder :: "string option"
  rs_retry_base_secs :: "nat option"
  rs_retry_cap_secs :: "nat option"

record raw_mail =
  rm_path :: string
  rm_sync_mode :: "sync_mode option"
  rm_subscribed_only :: "bool option"
  rm_box_filter :: "string list option"
  rm_tls :: "tls_config option"
  rm_box_mapping :: "box_map list option"
  rm_post_sync_hook :: "string option"
  rm_watch_maildir :: "bool option"
  rm_exclude_mailboxes :: "string list option"

record raw_account =
  ra_name :: string
  ra_enabled :: "bool option"
  ra_jmap_host :: string
  ra_jmap_user :: string
  ra_jmap_token :: "string option"
  ra_jmap_token_file :: "string option"
  ra_jmap_token_cmd :: "string option"
  ra_timeout_secs :: "nat option"
  ra_poll_interval_secs :: "nat option"
  ra_mail :: "raw_mail option"
  ra_submit :: "raw_submit option"

record raw_file =
  rf_db_dir :: "string option"
  rf_accounts :: "raw_account list option"

definition default_true :: bool where "default_true = True"

definition default_timeout_secs :: nat where "default_timeout_secs = 30"

definition default_poll_interval_secs :: nat where "default_poll_interval_secs = 300"

definition default_retry_base_secs :: nat where "default_retry_base_secs = 30"

definition default_retry_cap_secs :: nat where "default_retry_cap_secs = 7200"

definition or_default :: "'a option \<Rightarrow> 'a \<Rightarrow> 'a" where
  "or_default x d = (case x of Some y \<Rightarrow> y | None \<Rightarrow> d)"

definition parse_scheduled_folder :: "string \<Rightarrow> scheduled_folder" where
  "parse_scheduled_folder s =
     (if s = ''auto'' then Auto else if s = ''sent'' then SentFolder else Named s)"

definition expand_path :: "(string \<Rightarrow> err + string) \<Rightarrow> string \<Rightarrow> err + string" where
  "expand_path shell s = shell s"

definition expand_opt_path :: "(string \<Rightarrow> err + string) \<Rightarrow> string option \<Rightarrow> err + string option" where
  "expand_opt_path shell s =
     (case s of None \<Rightarrow> Inr None | Some p \<Rightarrow> rbind (shell p) (\<lambda>q. Inr (Some q)))"

text \<open>
  The untagged enum: serde takes the first variant that deserializes, so a token given
  inline wins over a file, and a file whose path does not expand falls through to the
  command.
\<close>

definition token_of_raw :: "(string \<Rightarrow> err + string) \<Rightarrow> raw_account \<Rightarrow> err + token_source" where
  "token_of_raw shell a =
     (case ra_jmap_token a of
        Some t \<Rightarrow> Inr (Inline t)
      | None \<Rightarrow>
          (case (case ra_jmap_token_file a of
                   None \<Rightarrow> None
                 | Some f \<Rightarrow> (case expand_path shell f of Inl _ \<Rightarrow> None | Inr p \<Rightarrow> Some p)) of
             Some p \<Rightarrow> Inr (TokenFile p)
           | None \<Rightarrow>
               (case ra_jmap_token_cmd a of
                  Some c \<Rightarrow> Inr (TokenCmd c)
                | None \<Rightarrow> Inl (ParseFailure ''no variant of TokenSource matched''))))"

definition submit_of_raw :: "raw_submit \<Rightarrow> submit_config" where
  "submit_of_raw s =
     \<lparr>from_address = rs_from_address s,
      identity_id = rs_identity_id s,
      scheduled_folder = (case rs_scheduled_folder s of
          None \<Rightarrow> Auto | Some f \<Rightarrow> parse_scheduled_folder f),
      retry_base_secs = or_default (rs_retry_base_secs s) default_retry_base_secs,
      retry_cap_secs = or_default (rs_retry_cap_secs s) default_retry_cap_secs\<rparr>"

definition tls_of_raw :: "(string \<Rightarrow> err + string) \<Rightarrow> tls_config \<Rightarrow> err + tls_config" where
  "tls_of_raw shell t =
     rbind (expand_opt_path shell (ca_file t)) (\<lambda>ca.
     rbind (expand_opt_path shell (client_cert t)) (\<lambda>cert.
     rbind (expand_opt_path shell (client_key t)) (\<lambda>key.
       Inr \<lparr>ca_file = ca, client_cert = cert, client_key = key, fingerprint = fingerprint t\<rparr>)))"

definition mail_of_raw :: "(string \<Rightarrow> err + string) \<Rightarrow> raw_mail \<Rightarrow> err + mail_config" where
  "mail_of_raw shell m =
     rbind (expand_path shell (rm_path m)) (\<lambda>p.
     rbind (case rm_tls m of None \<Rightarrow> Inr None
              | Some t \<Rightarrow> rbind (tls_of_raw shell t) (\<lambda>t'. Inr (Some t'))) (\<lambda>t.
       Inr \<lparr>mail_path = p,
            sync_mode = or_default (rm_sync_mode m) Mirror,
            subscribed_only = or_default (rm_subscribed_only m) default_true,
            box_filter = rm_box_filter m,
            tls = t,
            box_mapping = or_default (rm_box_mapping m) [],
            post_sync_hook = rm_post_sync_hook m,
            watch_maildir = or_default (rm_watch_maildir m) default_true,
            exclude_mailboxes = or_default (rm_exclude_mailboxes m) []\<rparr>))"

definition account_of_raw :: "(string \<Rightarrow> err + string) \<Rightarrow> raw_account \<Rightarrow> err + account" where
  "account_of_raw shell a =
     rbind (token_of_raw shell a) (\<lambda>t.
     rbind (case ra_mail a of None \<Rightarrow> Inr None
              | Some m \<Rightarrow> rbind (mail_of_raw shell m) (\<lambda>m'. Inr (Some m'))) (\<lambda>m.
       Inr \<lparr>acct_name = ra_name a,
            enabled = or_default (ra_enabled a) default_true,
            jmap_host = ra_jmap_host a,
            jmap_user = ra_jmap_user a,
            token = t,
            timeout_secs = or_default (ra_timeout_secs a) default_timeout_secs,
            poll_interval_secs = or_default (ra_poll_interval_secs a) default_poll_interval_secs,
            mail = m,
            submit = map_option submit_of_raw (ra_submit a)\<rparr>))"

definition file_of_raw :: "(string \<Rightarrow> err + string) \<Rightarrow> raw_file \<Rightarrow> err + config_file" where
  "file_of_raw shell f =
     rbind (expand_opt_path shell (rf_db_dir f)) (\<lambda>d.
     rbind (map_result (account_of_raw shell) (or_default (rf_accounts f) [])) (\<lambda>as.
       Inr \<lparr>file_db_dir = d, file_accounts = as\<rparr>))"

section \<open>Loading\<close>

text \<open>What \<open>Config::load\<close> reads from its surroundings.\<close>

record surroundings =
  config_dir :: "string option"
  data_dir :: "string option"
  read_to_string :: "string \<Rightarrow> err + string"
  toml_from_str :: "string \<Rightarrow> err + raw_file"
  shell_expand :: "string \<Rightarrow> err + string"

definition path_push :: "string \<Rightarrow> string \<Rightarrow> string" where
  "path_push base s =
     (if prefix ''/'' s then s
      else if base = [] \<or> last base = CHR ''/'' then base @ s
      else base @ ''/'' @ s)"

definition load_config_file :: "surroundings \<Rightarrow> string \<Rightarrow> err + config_file" where
  "load_config_file env path =
     rbind (read_to_string env path) (\<lambda>content.
     rbind (toml_from_str env content) (file_of_raw (shell_expand env)))"

definition default_excludes :: "account \<Rightarrow> account" where
  "default_excludes a =
     (if submit a \<noteq> None then
        a\<lparr>mail := map_option (\<lambda>m.
             if exclude_mailboxes m = []
             then m\<lparr>exclude_mailboxes := [''Outbox'', ''Failed'']\<rparr> else m) (mail a)\<rparr>
      else a)"

definition load_config :: "surroundings \<Rightarrow> string option \<Rightarrow> overrides \<Rightarrow> err + config" where
  "load_config env path ovr =
     rbind (case path of
              Some p \<Rightarrow> Inr p
            | None \<Rightarrow>
                (case config_dir env of
                   None \<Rightarrow> Inl (NoPlatformDir ''config'')
                 | Some d \<Rightarrow> Inr (path_push (path_push d ''jmapsyncd'') ''config.toml''))) (\<lambda>config_path.
     rbind (load_config_file env config_path) (\<lambda>file.
     rbind (case (case override_db_dir ovr of Some d \<Rightarrow> Some d | None \<Rightarrow> file_db_dir file) of
              Some d \<Rightarrow> Inr d
            | None \<Rightarrow>
                (case data_dir env of
                   None \<Rightarrow> Inl (NoPlatformDir ''data'')
                 | Some d \<Rightarrow> Inr (path_push d ''jmapsyncd''))) (\<lambda>dir.
       Inr \<lparr>db_dir = dir, accounts = map default_excludes (file_accounts file)\<rparr>)))"

section \<open>What loading establishes\<close>

text \<open>An account that may send has a non-empty list of client-only folders.\<close>

definition send_path_shielded :: "account \<Rightarrow> bool" where
  "send_path_shielded a \<longleftrightarrow>
     (submit a \<noteq> None \<longrightarrow> (case mail a of None \<Rightarrow> True | Some m \<Rightarrow> exclude_mailboxes m \<noteq> []))"

lemma default_excludes_shields: "send_path_shielded (default_excludes a)"
  by (auto simp: send_path_shielded_def default_excludes_def split: option.splits)

lemma default_excludes_keeps:
  "acct_name (default_excludes a) = acct_name a"
  "submit (default_excludes a) = submit a"
  "enabled (default_excludes a) = enabled a"
  by (simp_all add: default_excludes_def)

end
