(* ===== verification/Mailbox_Tree.thy ===== *)
theory Mailbox_Tree
  imports Config World
begin

text \<open>
  The pure half of \<open>sync/mailbox.rs\<close>: from the server's mailbox tree and the configuration
  to the target set (which mailboxes to materialize, and where), and the order in which
  creates and updates are applied. A mailbox of \<open>jmap_client\<close> is the record of what its
  accessors return.
\<close>

section \<open>The server's view\<close>

datatype role = NoRole | Archive | Drafts | Important | Inbox | Junk | Sent | Trash | OtherRole string

record server_mailbox =
  sm_id :: "string option"
  sm_name :: "string option"
  sm_parent_id :: "string option"
  sm_role :: role
  sm_sort_order :: nat
  sm_is_subscribed :: bool

record target_mailbox =
  tm_jmap_id :: string
  tm_name :: string
  tm_parent_jmap_id :: "string option"
  tm_role :: "string option"
  tm_sort_order :: "int option"
  tm_path :: string

fun role_to_str :: "role \<Rightarrow> string option" where
  "role_to_str NoRole = None"
| "role_to_str Archive = Some ''archive''"
| "role_to_str Drafts = Some ''drafts''"
| "role_to_str Important = Some ''important''"
| "role_to_str Inbox = Some ''inbox''"
| "role_to_str Junk = Some ''junk''"
| "role_to_str Sent = Some ''sent''"
| "role_to_str Trash = Some ''trash''"
| "role_to_str (OtherRole s) = Some s"

section \<open>Paths\<close>

definition sanitize_segment :: "string \<Rightarrow> string" where
  "sanitize_segment s = map (\<lambda>c. if c = CHR ''/'' then CHR ''_'' else c) s"

definition mapped_name :: "(string, string) hmap \<Rightarrow> string \<Rightarrow> string" where
  "mapped_name name_map raw = (case map_of name_map raw of Some l \<Rightarrow> l | None \<Rightarrow> raw)"

text \<open>
  The loop of \<open>resolve_path\<close>: \<open>segments\<close> and \<open>seen\<close> are its mutable variables. It ends
  because every turn adds an id to \<open>seen\<close>, and after the first turn the ids come from the
  map.
\<close>

function resolve_loop ::
    "(string, server_mailbox) hmap \<Rightarrow> (string, string) hmap \<Rightarrow> string list \<Rightarrow> string list
     \<Rightarrow> server_mailbox \<Rightarrow> err + string list" where
  "resolve_loop by_jmap_id name_map segments seen current =
     (case sm_id current of
        None \<Rightarrow> Inl MailboxWithoutId
      | Some i \<Rightarrow>
          if i \<in> set seen then Inl (ParentCycle i)
          else (case sm_name current of
                  None \<Rightarrow> Inl (MailboxWithoutName i)
                | Some raw \<Rightarrow>
                    let segments' = segments @ [sanitize_segment (mapped_name name_map raw)] in
                    (case sm_parent_id current of
                       None \<Rightarrow> Inr segments'
                     | Some p \<Rightarrow>
                         (case map_of by_jmap_id p of
                            None \<Rightarrow> Inl (UnknownParent i p)
                          | Some parent \<Rightarrow>
                              resolve_loop by_jmap_id name_map segments' (i # seen) parent))))"
  by pat_completeness auto
termination
proof (relation "measure (\<lambda>(t :: (string, server_mailbox) hmap, _, _, seen, m).
    card ({i. \<exists>x \<in> snd ` set t. sm_id x = Some i} - set seen) + (if m \<in> snd ` set t then 0 else 1))", simp)
  fix t :: "(string, server_mailbox) hmap" and nm :: "(string, string) hmap"
    and seg seg' seen :: "string list" and i p :: string and m parent :: server_mailbox
  assume i: "sm_id m = Some i" "i \<notin> set seen" and p: "map_of t p = Some parent"
  let ?ids = "{i. \<exists>x \<in> snd ` set t. sm_id x = Some i}"
  have "?ids \<subseteq> (\<lambda>x. the (sm_id x)) ` snd ` set t" by force
  then have fin: "finite ?ids" by (rule finite_subset) simp
  have par: "parent \<in> snd ` set t" using p by (force dest: map_of_SomeD)
  have "card (?ids - set (i # seen)) + 0 < card (?ids - set seen) + (if m \<in> snd ` set t then 0 else 1)"
  proof (cases "m \<in> snd ` set t")
    case True
    with i have "i \<in> ?ids - set seen" by blast
    then have "card (?ids - set seen - {i}) < card (?ids - set seen)"
      using fin by (intro psubset_card_mono) auto
    moreover have "?ids - set (i # seen) = ?ids - set seen - {i}" by auto
    ultimately show ?thesis using True by simp
  next
    case False
    have "card (?ids - set (i # seen)) \<le> card (?ids - set seen)"
      using fin by (intro card_mono) auto
    with False show ?thesis by simp
  qed
  with par show "((t, nm, seg', i # seen, parent), t, nm, seg, seen, m)
      \<in> measure (\<lambda>(t, _, _, seen, m).
        card ({i. \<exists>x \<in> snd ` set t. sm_id x = Some i} - set seen) + (if m \<in> snd ` set t then 0 else 1))"
    by simp
qed

declare resolve_loop.simps [simp del]

definition resolve_path ::
    "server_mailbox \<Rightarrow> (string, server_mailbox) hmap \<Rightarrow> (string, string) hmap \<Rightarrow> err + string" where
  "resolve_path mailbox by_jmap_id name_map =
     rbind (resolve_loop by_jmap_id name_map [] [] mailbox) (\<lambda>segments.
       Inr (join_with ''/'' (rev segments)))"

section \<open>The target set\<close>

definition index_by_id :: "server_mailbox list \<Rightarrow> (string, server_mailbox) hmap" where
  "index_by_id view =
     hm_collect (List.map_filter (\<lambda>m. map_option (\<lambda>i. (i, m)) (sm_id m)) view)"

definition name_map_of :: "mail_config \<Rightarrow> (string, string) hmap" where
  "name_map_of cfg = hm_collect (map (\<lambda>b. (remote b, local_name b)) (box_mapping cfg))"

definition keep_mailbox ::
    "(string \<Rightarrow> bool) list option \<Rightarrow> mail_config \<Rightarrow> server_mailbox \<Rightarrow> string \<Rightarrow> bool" where
  "keep_mailbox filter_globs cfg m path =
     (case filter_globs of
        Some gs \<Rightarrow> list_ex (\<lambda>g. g path) gs
      | None \<Rightarrow> if subscribed_only cfg then sm_is_subscribed m else True)"

definition target_entry ::
    "(string, string) hmap \<Rightarrow> string \<Rightarrow> server_mailbox \<Rightarrow> string \<Rightarrow> target_mailbox" where
  "target_entry name_map jmap_id m path =
     \<lparr>tm_jmap_id = jmap_id,
      tm_name = mapped_name name_map (the (sm_name m)),
      tm_parent_jmap_id = sm_parent_id m,
      tm_role = role_to_str (sm_role m),
      tm_sort_order = Some (int (sm_sort_order m)),
      tm_path = path\<rparr>"

fun include_mailboxes ::
    "(string, server_mailbox) hmap \<Rightarrow> (string, string) hmap \<Rightarrow> (string \<Rightarrow> bool) list option
     \<Rightarrow> mail_config \<Rightarrow> server_mailbox list \<Rightarrow> (string, target_mailbox) hmap
     \<Rightarrow> err + (string, target_mailbox) hmap" where
  "include_mailboxes ids nm globs cfg [] included = Inr included"
| "include_mailboxes ids nm globs cfg (m # ms) included =
     (case sm_id m of
        None \<Rightarrow> include_mailboxes ids nm globs cfg ms included
      | Some i \<Rightarrow>
          rbind (resolve_path m ids nm) (\<lambda>path.
            if keep_mailbox globs cfg m path
            then include_mailboxes ids nm globs cfg ms
                   (AList.update i (target_entry nm i m path) included)
            else include_mailboxes ids nm globs cfg ms included))"

text \<open>\<open>glob\<close> compiles one pattern of \<open>globset\<close>; a set matches when one of its globs does.\<close>

definition build_target_set ::
    "(string \<Rightarrow> err + (string \<Rightarrow> bool)) \<Rightarrow> server_mailbox list \<Rightarrow> mail_config
     \<Rightarrow> err + (string, target_mailbox) hmap" where
  "build_target_set glob server_view cfg =
     (let ids = index_by_id server_view;
          nm = name_map_of cfg
      in rbind (case box_filter cfg of
                  None \<Rightarrow> Inr None
                | Some gs \<Rightarrow> rbind (map_result glob gs) (\<lambda>ps. Inr (Some ps)))
           (\<lambda>globs. include_mailboxes ids nm globs cfg server_view []))"

section \<open>The order of creates and updates\<close>

definition topo_ready ::
    "(string, target_mailbox) hmap \<Rightarrow> string list \<Rightarrow> string \<Rightarrow> bool" where
  "topo_ready target emitted jmap_id =
     (case map_of target jmap_id of
        None \<Rightarrow> False
      | Some tgt \<Rightarrow>
          (case tm_parent_jmap_id tgt of
             None \<Rightarrow> True
           | Some pid \<Rightarrow> pid \<in> set emitted \<or> pid \<notin> set (map fst target)))"

function topo_loop ::
    "(string, target_mailbox) hmap \<Rightarrow> string list \<Rightarrow> string list \<Rightarrow> string list \<Rightarrow> string list" where
  "topo_loop target remaining emitted order =
     (let ready = filter (topo_ready target emitted) remaining;
          remaining' = filter (\<lambda>i. i \<notin> set ready) remaining
      in if ready = [] then order @ remaining
         else if remaining' = [] then order @ ready
         else topo_loop target remaining' (rev ready @ emitted) (order @ ready))"
  by pat_completeness auto
termination
proof (relation "measure (\<lambda>(_, remaining, _, _). length remaining)", simp)
  fix target :: "(string, target_mailbox) hmap" and remaining emitted order ready remaining'
  assume r: "ready = filter (topo_ready target emitted) remaining" and ne: "ready \<noteq> []"
    and r': "remaining' = filter (\<lambda>i. i \<notin> set ready) remaining"
  from ne obtain i where i: "i \<in> set ready" by (cases ready) auto
  with r r' have "i \<in> set remaining" "i \<notin> set remaining'" by auto
  then have "length remaining' < length remaining"
    unfolding r' by (intro length_filter_less [of i]) (use i in auto)
  then show "((target, remaining', rev ready @ emitted, order @ ready), target, remaining, emitted, order)
    \<in> measure (\<lambda>(_, remaining, _, _). length remaining)" by simp
qed

declare topo_loop.simps [simp del]

text \<open>
  The map's own order stands for the iteration order of the hash set \<open>remaining\<close>.
\<close>

definition topo_sort_creates_and_updates ::
    "(string, target_mailbox) hmap \<Rightarrow> (string, mailbox_row) hmap \<Rightarrow> string list" where
  "topo_sort_creates_and_updates target local_by_jmap =
     topo_loop target (hm_keys target) (hm_keys local_by_jmap) []"

end
