(* ===== verification/Jmap_Server.thy ===== *)
theory Jmap_Server
  imports Mailbox_Tree
begin

text \<open>
  The server as the synchronisation code sees it through \<open>jmap_client\<close>: what one method
  call returns. Nothing is assumed of the answers; a theorem that needs a server that keeps
  to the protocol says so.
\<close>

record server_email =
  se_id :: "string option"
  se_blob_id :: "string option"
  se_mailbox_ids :: "string list"
  se_keywords :: "string list"
  se_size :: nat
  se_received_at :: "int option"
  se_message_id :: "string list option"

text \<open>
  \<open>cl_email_query\<close> takes the mailbox, the position and the limit; \<open>cl_email_set\<close> returns the
  identifiers that the server reports as destroyed and as updated.
\<close>

record client =
  cl_mailbox_get :: "err + server_mailbox list"
  cl_email_query :: "string \<Rightarrow> int \<Rightarrow> nat \<Rightarrow> err + string list"
  cl_email_get :: "string list \<Rightarrow> err + server_email list"
  cl_email_set :: "set_request \<Rightarrow> err + string list \<times> string list"
  cl_download :: "string \<Rightarrow> err + string"

text \<open>A request that changes the server is recorded in the world.\<close>

definition send_email_set :: "client \<Rightarrow> set_request \<Rightarrow> (world, string list \<times> string list) io" where
  "send_email_set cl req =
     (\<lambda>w. (cl_email_set cl req, w\<lparr>set_requests := set_requests w @ [req]\<rparr>))"

lemma keeps_send_email_set [keeps_rules]: "keeps (\<lambda>w. P (db w)) (send_email_set cl req)"
  by (simp add: keeps_def send_email_set_def)

end
