(* ===== verification/Email_Sync.thy ===== *)
theory Email_Sync
  imports Maildir_Flags Jmap_Server "HOL-Library.Product_Lexorder" "HOL-Library.Word"
begin

text \<open>
  \<open>sync/email.rs\<close>: the write-back of local changes, the delete pass, and the reconciliation
  of every email of the server with the Maildir tree and the database.
\<close>

section \<open>Statistics and constants\<close>

record email_sync_stats =
  est_created :: nat
  est_updated :: nat
  est_moved :: nat
  est_deleted :: nat
  est_bytes_downloaded :: nat
  est_destroyed_upstream :: nat
  est_updated_upstream :: nat

definition no_email_stats :: email_sync_stats where
  "no_email_stats =
     \<lparr>est_created = 0, est_updated = 0, est_moved = 0, est_deleted = 0,
      est_bytes_downloaded = 0, est_destroyed_upstream = 0, est_updated_upstream = 0\<rparr>"

definition EMAIL_QUERY_PAGE_SIZE :: nat where "EMAIL_QUERY_PAGE_SIZE = 256"

definition EMAIL_GET_CHUNK_SIZE :: nat where "EMAIL_GET_CHUNK_SIZE = 100"

definition role_priority :: "string list" where
  "role_priority = [''inbox'', ''sent'', ''drafts'', ''archive'', ''trash'', ''junk'']"

section \<open>The primary mailbox\<close>

definition role_rank :: "string option \<Rightarrow> nat" where
  "role_rank r = (case r of
       None \<Rightarrow> length role_priority
     | Some s \<Rightarrow> length (takeWhile (\<lambda>p. p \<noteq> s) role_priority))"

definition primary_key :: "mailbox_row \<Rightarrow> nat \<times> int \<times> string" where
  "primary_key m =
     (role_rank (mb_role m),
      (case mb_sort_order m of None \<Rightarrow> 9223372036854775807 | Some n \<Rightarrow> n),
      mb_name m)"

definition pick_primary_mailbox ::
    "string list \<Rightarrow> (string, mailbox_row) hmap \<Rightarrow> mailbox_row option" where
  "pick_primary_mailbox mailbox_jmap_ids mailbox_by_jmap =
     (let candidates = List.map_filter (map_of mailbox_by_jmap) mailbox_jmap_ids in
      if candidates = [] then None else Some (hd (sort_key primary_key candidates)))"

section \<open>Paging through the identifiers\<close>

text \<open>
  \<open>position\<close> is an \<open>i32\<close>, which wraps in a release build. The loop ends with the first short
  page; a server that never sends one keeps it running, and then the result is \<open>None\<close>.
\<close>

partial_function (option) page_query_loop ::
    "client \<Rightarrow> string \<Rightarrow> 32 word \<Rightarrow> string list \<Rightarrow> (err + string list) option" where
  "page_query_loop cl mailbox_jmap_id position so_far =
     (case cl_email_query cl mailbox_jmap_id (sint position) EMAIL_QUERY_PAGE_SIZE of
        Inl e \<Rightarrow> Some (Inl e)
      | Inr page \<Rightarrow>
          if length page < EMAIL_QUERY_PAGE_SIZE then Some (Inr (so_far @ page))
          else page_query_loop cl mailbox_jmap_id (position + of_nat (length page)) (so_far @ page))"

definition page_query_ids :: "client \<Rightarrow> string \<Rightarrow> (err + string list) option" where
  "page_query_ids cl mailbox_jmap_id = page_query_loop cl mailbox_jmap_id 0 []"

fun fetch_all_email_ids :: "client \<Rightarrow> string list \<Rightarrow> string list \<Rightarrow> (err + string list) option" where
  "fetch_all_email_ids cl [] ids = Some (Inr ids)"
| "fetch_all_email_ids cl (m # ms) ids =
     (case page_query_ids cl m of
        None \<Rightarrow> None
      | Some (Inl e) \<Rightarrow> Some (Inl e)
      | Some (Inr per_mailbox) \<Rightarrow> fetch_all_email_ids cl ms (fold List.insert per_mailbox ids))"

section \<open>Memberships and deletes\<close>

definition insert_memberships ::
    "string \<Rightarrow> string \<Rightarrow> string list \<Rightarrow> (string, mailbox_row) hmap \<Rightarrow> (world, unit) io" where
  "insert_memberships email_id primary_local_id mailbox_jmap_ids mailbox_by_jmap =
     foldE (\<lambda>jid _. case map_of mailbox_by_jmap jid of
         None \<Rightarrow> ret ()
       | Some mb \<Rightarrow> db_exec (\<lambda>d. insert_email_mailbox d
           \<lparr>ej_email_id = email_id, ej_mailbox_id = mb_id mb,
            ej_is_primary = (mb_id mb = primary_local_id)\<rparr>)) mailbox_jmap_ids ()"

definition reconcile_memberships ::
    "string \<Rightarrow> string \<Rightarrow> string list \<Rightarrow> (string, mailbox_row) hmap \<Rightarrow> (world, unit) io" where
  "reconcile_memberships email_id primary_local_id mailbox_jmap_ids mailbox_by_jmap =
     bindE (db_query (\<lambda>d. get_email_mailboxes_by_email d email_id)) (\<lambda>existing.
     bindE (foldE (\<lambda>r _. db_exec (\<lambda>d. delete_email_mailbox d (ej_email_id r) (ej_mailbox_id r)))
              existing ()) (\<lambda>_.
       insert_memberships email_id primary_local_id mailbox_jmap_ids mailbox_by_jmap))"

definition memberships_differ ::
    "string \<Rightarrow> string list \<Rightarrow> (string, mailbox_row) hmap \<Rightarrow> database \<Rightarrow> bool" where
  "memberships_differ email_id server_mailbox_jmap_ids mailbox_by_jmap d \<longleftrightarrow>
     set (map ej_mailbox_id (get_email_mailboxes_by_email d email_id))
     \<noteq> set (List.map_filter (\<lambda>jid. map_option mb_id (map_of mailbox_by_jmap jid)) server_mailbox_jmap_ids)"

definition delete_email :: "env \<Rightarrow> path \<Rightarrow> bool \<Rightarrow> email_row \<Rightarrow> (world, unit) io" where
  "delete_email v mail_root dry_run row =
     (let abs = join_path mail_root (em_file_path row) in
      if dry_run then ret ()
      else bindE (sys_exists abs) (\<lambda>there.
           bindE (if there then ignore_err (sys_remove_file v abs) else ret ()) (\<lambda>_.
             db_exec (\<lambda>d. delete_email_row d (em_id row)))))"

section \<open>Local changes\<close>

datatype local_change =
    Destroy string "string option"
  | UpdateKeywords string string string string

fun change_id :: "local_change \<Rightarrow> string" where
  "change_id (Destroy i _) = i"
| "change_id (UpdateKeywords i _ _ _) = i"

definition resolve_current_file ::
    "env \<Rightarrow> fs \<Rightarrow> path \<Rightarrow> string \<Rightarrow> (string \<times> string) option" where
  "resolve_current_file v f mail_root stored_rel =
     (let stored_abs = join_path mail_root stored_rel in
      if stored_abs = [] then None
      else let parent = butlast stored_abs;
               stored_base = filename_base (last stored_abs)
           in if fault v (ReadDir parent) then None
              else (case read_dir f parent of
                      None \<Rightarrow> None
                    | Some names \<Rightarrow>
                        (case find (\<lambda>name. filename_base name = stored_base) names of
                           None \<Rightarrow> None
                         | Some name \<Rightarrow>
                             if prefix mail_root (parent @ [name])
                             then Some (join_with ''/'' (drop (length mail_root) (parent @ [name])),
                                        filename_flags name)
                             else None)))"

definition local_change_of :: "env \<Rightarrow> fs \<Rightarrow> path \<Rightarrow> string \<Rightarrow> email_row \<Rightarrow> local_change option" where
  "local_change_of v f mail_root jmap_id row =
     (case resolve_current_file v f mail_root (em_file_path row) of
        None \<Rightarrow> Some (Destroy jmap_id None)
      | Some (actual_rel, actual_flags) \<Rightarrow>
          if CHR ''T'' \<in> set actual_flags then Some (Destroy jmap_id (Some actual_rel))
          else let disk_flags = filter standard_flag actual_flags;
                   stored_json = (case em_keywords row of None \<Rightarrow> ''{}'' | Some s \<Rightarrow> s);
                   merged_json = merge_keywords_json v stored_json disk_flags
               in if merged_json \<noteq> stored_json
                  then Some (UpdateKeywords jmap_id disk_flags merged_json actual_rel)
                  else None)"

definition detect_local_writeback ::
    "env \<Rightarrow> path \<Rightarrow> (string, email_row) hmap \<Rightarrow> fs \<Rightarrow> local_change list" where
  "detect_local_writeback v mail_root local_by_jmap f =
     List.map_filter (\<lambda>(jmap_id, row). local_change_of v f mail_root jmap_id row) local_by_jmap"

section \<open>Write-back\<close>

definition patch_of ::
    "env \<Rightarrow> (string, email_row) hmap \<Rightarrow> local_change \<Rightarrow> (string \<times> (string \<times> bool) list) option" where
  "patch_of v local_by_jmap c =
     (case c of
        Destroy _ _ \<Rightarrow> None
      | UpdateKeywords jmap_id new_flags _ _ \<Rightarrow>
          let stored_flags = (case Option.bind (map_of local_by_jmap jmap_id) em_keywords of
                None \<Rightarrow> [] | Some s \<Rightarrow> extract_standard_flags v s);
              ops = keyword_patch_ops stored_flags new_flags
          in if ops = [] then None else Some (jmap_id, ops))"

definition writeback_request ::
    "env \<Rightarrow> (string, email_row) hmap \<Rightarrow> local_change list \<Rightarrow> set_request" where
  "writeback_request v local_by_jmap changes =
     \<lparr>sr_updates = List.map_filter (patch_of v local_by_jmap) changes,
      sr_destroy = List.map_filter (\<lambda>c. case c of Destroy i _ \<Rightarrow> Some i | _ \<Rightarrow> None) changes\<rparr>"

text \<open>What \<open>apply_writeback\<close> mutates: the server's ids, the local map, the statistics.\<close>

record sync_state =
  st_server_ids :: "string list"
  st_local :: "(string, email_row) hmap"
  st_stats :: email_sync_stats

definition bump_destroyed :: "sync_state \<Rightarrow> sync_state" where
  "bump_destroyed s = s\<lparr>st_stats := st_stats s
     \<lparr>est_destroyed_upstream := est_destroyed_upstream (st_stats s) + 1\<rparr>\<rparr>"

definition bump_updated :: "sync_state \<Rightarrow> sync_state" where
  "bump_updated s = s\<lparr>st_stats := st_stats s
     \<lparr>est_updated_upstream := est_updated_upstream (st_stats s) + 1\<rparr>\<rparr>"

definition settle_change ::
    "env \<Rightarrow> path \<Rightarrow> string list \<Rightarrow> string list \<Rightarrow> local_change \<Rightarrow> sync_state
     \<Rightarrow> (world, sync_state) io" where
  "settle_change v mail_root destroyed updated c s =
     (case c of
        Destroy jmap_id actual_rel \<Rightarrow>
          if jmap_id \<notin> set destroyed then ret s
          else let s' = s\<lparr>st_server_ids := removeAll jmap_id (st_server_ids s),
                          st_local := AList.delete jmap_id (st_local s)\<rparr> in
               bindE (case map_of (st_local s) jmap_id of
                        None \<Rightarrow> ret ()
                      | Some row \<Rightarrow> delete_email v mail_root False
                          (case actual_rel of None \<Rightarrow> row | Some actual \<Rightarrow> row\<lparr>em_file_path := actual\<rparr>))
                 (\<lambda>_. ret (bump_destroyed s'))
      | UpdateKeywords jmap_id _ new_json new_rel \<Rightarrow>
          if jmap_id \<notin> set updated then ret s
          else (case map_of (st_local s) jmap_id of
                  None \<Rightarrow> ret (bump_updated s)
                | Some row \<Rightarrow>
                    let row' = row\<lparr>em_keywords := Some new_json, em_file_path := new_rel,
                                   em_last_sync := Some (unix_now v)\<rparr> in
                    bindE (db_exec (\<lambda>d. update_email_row d row'))
                      (\<lambda>_. ret (bump_updated (s\<lparr>st_local := AList.update jmap_id row' (st_local s)\<rparr>)))))"

definition count_change :: "local_change \<Rightarrow> sync_state \<Rightarrow> sync_state" where
  "count_change c = (case c of Destroy _ _ \<Rightarrow> bump_destroyed | UpdateKeywords _ _ _ _ \<Rightarrow> bump_updated)"

definition apply_writeback ::
    "env \<Rightarrow> client \<Rightarrow> path \<Rightarrow> bool \<Rightarrow> local_change list \<Rightarrow> sync_state \<Rightarrow> (world, sync_state) io" where
  "apply_writeback v cl mail_root dry_run changes s =
     (if changes = [] then ret s
      else if dry_run then ret (fold count_change changes s)
      else bindE (send_email_set cl (writeback_request v (st_local s) changes))
             (\<lambda>(destroyed, updated). foldE (settle_change v mail_root destroyed updated) changes s))"

section \<open>Download and the three branches\<close>

definition download_and_write ::
    "env \<Rightarrow> client \<Rightarrow> string \<Rightarrow> path \<Rightarrow> string \<Rightarrow> int \<Rightarrow> string \<Rightarrow> bool
     \<Rightarrow> (world, string \<times> nat) io" where
  "download_and_write v cl blob_id mail_root primary_path ts flags dry_run =
     bindE (liftE (cl_download cl blob_id)) (\<lambda>bytes.
     bindE (generate_id v) (\<lambda>uuid.
       let basename = show_int ts @ ''.'' @ uuid;
           mailbox_dir = join_path mail_root primary_path;
           final_rel = primary_path @ ''/cur/'' @ basename @ '':2,'' @ flags
       in if dry_run then ret (final_rel, length bytes)
          else let tmp_abs = mailbox_dir @ [''tmp'', basename];
                   final_abs = join_path mail_root final_rel in
               bindE (sys_create_dir_all v (mailbox_dir @ [''tmp''])) (\<lambda>_.
               bindE (sys_create_dir_all v (mailbox_dir @ [''cur''])) (\<lambda>_.
               bindE (sys_write v tmp_abs bytes) (\<lambda>_.
               bindE (sys_rename v tmp_abs final_abs) (\<lambda>_.
                 ret (final_rel, length bytes)))))))"

definition insert_email ::
    "env \<Rightarrow> client \<Rightarrow> path \<Rightarrow> (string, mailbox_row) hmap \<Rightarrow> bool \<Rightarrow> string \<Rightarrow> server_email
     \<Rightarrow> mailbox_row \<Rightarrow> string \<Rightarrow> string \<Rightarrow> int \<Rightarrow> (world, nat) io" where
  "insert_email v cl mail_root mailbox_by_jmap dry_run jmap_id email primary flags keywords_json ts =
     (case se_blob_id email of
        None \<Rightarrow> throw (MissingBlobId jmap_id)
      | Some blob_id \<Rightarrow>
          bindE (download_and_write v cl blob_id mail_root (mb_path primary) ts flags dry_run)
            (\<lambda>(rel_path, bytes).
               if dry_run then ret bytes
               else bindE (generate_id v) (\<lambda>row_id.
                    bindE (db_exec (\<lambda>d. insert_email_row d
                      \<lparr>em_id = row_id, em_jmap_id = Some jmap_id,
                       em_message_id = Option.bind (se_message_id email)
                         (\<lambda>l. case l of [] \<Rightarrow> None | x # _ \<Rightarrow> Some x),
                       em_file_path = rel_path, em_primary_mailbox = mb_id primary,
                       em_keywords = Some keywords_json, em_jmap_state = None,
                       em_size = Some (int (se_size email)), em_last_sync = Some (unix_now v),
                       em_is_dirty = False\<rparr>)) (\<lambda>_.
                    bindE (insert_memberships row_id (mb_id primary) (se_mailbox_ids email)
                      mailbox_by_jmap) (\<lambda>_. ret bytes)))))"

definition update_email_in_place ::
    "env \<Rightarrow> path \<Rightarrow> (string, mailbox_row) hmap \<Rightarrow> bool \<Rightarrow> email_row \<Rightarrow> mailbox_row
     \<Rightarrow> string list \<Rightarrow> string \<Rightarrow> string \<Rightarrow> (world, unit) io" where
  "update_email_in_place v mail_root mailbox_by_jmap dry_run existing primary ids flags keywords_json =
     (let new_rel = rebuild_path_with_flags (em_file_path existing) flags;
          old_abs = join_path mail_root (em_file_path existing);
          new_abs = join_path mail_root new_rel
      in if dry_run then ret ()
         else bindE (if new_rel \<noteq> em_file_path existing
                     then bindE (sys_exists old_abs) (\<lambda>there.
                            if there then sys_rename v old_abs new_abs else ret ())
                     else ret ()) (\<lambda>_.
              bindE (db_exec (\<lambda>d. update_email_row d
                (existing\<lparr>em_file_path := new_rel, em_keywords := Some keywords_json,
                          em_last_sync := Some (unix_now v)\<rparr>))) (\<lambda>_.
                reconcile_memberships (em_id existing) (mb_id primary) ids mailbox_by_jmap)))"

definition move_email ::
    "env \<Rightarrow> path \<Rightarrow> (string, mailbox_row) hmap \<Rightarrow> bool \<Rightarrow> email_row \<Rightarrow> mailbox_row
     \<Rightarrow> string list \<Rightarrow> string \<Rightarrow> string \<Rightarrow> int \<Rightarrow> (world, unit) io" where
  "move_email v mail_root mailbox_by_jmap dry_run existing new_primary ids flags keywords_json ts =
     bindE (case extract_uuid (em_file_path existing) of
              Some u \<Rightarrow> ret u | None \<Rightarrow> generate_id v) (\<lambda>uuid_part.
       let new_rel = mb_path new_primary @ ''/cur/'' @ show_int ts @ ''.'' @ uuid_part @ '':2,'' @ flags;
           new_abs = join_path mail_root new_rel;
           old_abs = join_path mail_root (em_file_path existing)
       in if dry_run then ret ()
          else bindE (if new_abs = [] then ret () else sys_create_dir_all v (butlast new_abs)) (\<lambda>_.
               bindE (sys_exists old_abs) (\<lambda>there.
               bindE (if there then sys_rename v old_abs new_abs else ret ()) (\<lambda>_.
               bindE (db_exec (\<lambda>d. update_email_row d
                 (existing\<lparr>em_file_path := new_rel, em_primary_mailbox := mb_id new_primary,
                           em_keywords := Some keywords_json, em_last_sync := Some (unix_now v)\<rparr>))) (\<lambda>_.
                 reconcile_memberships (em_id existing) (mb_id new_primary) ids mailbox_by_jmap)))))"

definition apply_email ::
    "env \<Rightarrow> client \<Rightarrow> path \<Rightarrow> (string, mailbox_row) hmap \<Rightarrow> (string, email_row) hmap \<Rightarrow> bool
     \<Rightarrow> server_email \<Rightarrow> email_sync_stats \<Rightarrow> (world, email_sync_stats) io" where
  "apply_email v cl mail_root mailbox_by_jmap local_by_jmap dry_run email stats =
     (case se_id email of
        None \<Rightarrow> ret stats
      | Some jmap_id \<Rightarrow>
          (case pick_primary_mailbox (se_mailbox_ids email) mailbox_by_jmap of
             None \<Rightarrow>
               (case map_of local_by_jmap jmap_id of
                  None \<Rightarrow> ret stats
                | Some existing \<Rightarrow> bindE (delete_email v mail_root dry_run existing) (\<lambda>_.
                    ret (stats\<lparr>est_deleted := est_deleted stats + 1\<rparr>)))
           | Some primary \<Rightarrow>
               let keywords = se_keywords email;
                   flags = keywords_to_flag_string keywords;
                   keywords_json = serialize_keywords v keywords;
                   ts = (case se_received_at email of Some t \<Rightarrow> t | None \<Rightarrow> unix_now v)
               in (case map_of local_by_jmap jmap_id of
                     None \<Rightarrow>
                       bindE (insert_email v cl mail_root mailbox_by_jmap dry_run jmap_id email primary
                         flags keywords_json ts) (\<lambda>bytes.
                         ret (stats\<lparr>est_created := est_created stats + 1,
                                    est_bytes_downloaded := est_bytes_downloaded stats + bytes\<rparr>))
                   | Some existing \<Rightarrow>
                       bindE (db_query (memberships_differ (em_id existing) (se_mailbox_ids email)
                         mailbox_by_jmap)) (\<lambda>memberships_changed.
                       if em_primary_mailbox existing \<noteq> mb_id primary
                       then bindE (move_email v mail_root mailbox_by_jmap dry_run existing primary
                              (se_mailbox_ids email) flags keywords_json ts) (\<lambda>_.
                              ret (stats\<lparr>est_moved := est_moved stats + 1\<rparr>))
                       else if current_flags_from_path (em_file_path existing) \<noteq> flags
                               \<or> em_keywords existing \<noteq> Some keywords_json \<or> memberships_changed
                       then bindE (update_email_in_place v mail_root mailbox_by_jmap dry_run existing
                              primary (se_mailbox_ids email) flags keywords_json) (\<lambda>_.
                              ret (stats\<lparr>est_updated := est_updated stats + 1\<rparr>))
                       else ret stats))))"

section \<open>A whole pass\<close>

definition delete_pass ::
    "env \<Rightarrow> path \<Rightarrow> bool \<Rightarrow> sync_state \<Rightarrow> (world, email_sync_stats) io" where
  "delete_pass v mail_root dry_run s =
     foldE (\<lambda>(jmap_id, row) stats.
         if jmap_id \<in> set (st_server_ids s) then ret stats
         else bindE (delete_email v mail_root dry_run row) (\<lambda>_.
                ret (stats\<lparr>est_deleted := est_deleted stats + 1\<rparr>)))
       (st_local s) (st_stats s)"

definition hydrate_chunk ::
    "env \<Rightarrow> client \<Rightarrow> path \<Rightarrow> (string, mailbox_row) hmap \<Rightarrow> (string, email_row) hmap \<Rightarrow> bool
     \<Rightarrow> string list \<Rightarrow> email_sync_stats \<Rightarrow> (world, email_sync_stats) io" where
  "hydrate_chunk v cl mail_root mailbox_by_jmap local_by_jmap dry_run chunk stats =
     bindE (liftE (cl_email_get cl chunk)) (\<lambda>hydrated.
       foldE (\<lambda>email st.
           if (case se_id email of Some i \<Rightarrow> i \<notin> set chunk | None \<Rightarrow> False) then ret st
           else apply_email v cl mail_root mailbox_by_jmap local_by_jmap dry_run email st)
         hydrated stats)"

definition mailboxes_by_jmap :: "mailbox_row list \<Rightarrow> (string, mailbox_row) hmap" where
  "mailboxes_by_jmap ms =
     hm_collect (List.map_filter (\<lambda>m. map_option (\<lambda>j. (j, m)) (mb_jmap_id m)) ms)"

definition local_emails_by_jmap :: "database \<Rightarrow> (string, email_row) hmap" where
  "local_emails_by_jmap d =
     hm_collect (List.map_filter (\<lambda>e. map_option (\<lambda>j. (j, e)) (em_jmap_id e)) (get_all_emails d))"

definition reconcile_emails ::
    "env \<Rightarrow> client \<Rightarrow> (string, mailbox_row) hmap \<Rightarrow> path \<Rightarrow> bool \<Rightarrow> string list
     \<Rightarrow> (world, email_sync_stats) io" where
  "reconcile_emails v cl mailbox_by_jmap mail_root dry_run server_ids =
     bindE (db_query (\<lambda>d. iterate v 3 (local_emails_by_jmap d))) (\<lambda>local0.
     bindE (fs_query (detect_local_writeback v mail_root local0)) (\<lambda>writeback.
     bindE (apply_writeback v cl mail_root dry_run writeback
              \<lparr>st_server_ids = server_ids, st_local = local0, st_stats = no_email_stats\<rparr>) (\<lambda>s.
     bindE (delete_pass v mail_root dry_run s)
       (foldE (hydrate_chunk v cl mail_root mailbox_by_jmap (st_local s) dry_run)
          (chunks EMAIL_GET_CHUNK_SIZE (sort (st_server_ids s)))))))"

definition sync_emails ::
    "env \<Rightarrow> client \<Rightarrow> mailbox_row list \<Rightarrow> path \<Rightarrow> bool \<Rightarrow> (world, email_sync_stats) io option" where
  "sync_emails v cl ms mail_root dry_run =
     (if ms = [] then Some (ret no_email_stats)
      else let mailbox_by_jmap = iterate v 2 (mailboxes_by_jmap ms) in
           (case fetch_all_email_ids cl (hm_keys mailbox_by_jmap) [] of
              None \<Rightarrow> None
            | Some (Inl e) \<Rightarrow> Some (throw e)
            | Some (Inr server_ids) \<Rightarrow>
                Some (reconcile_emails v cl mailbox_by_jmap mail_root dry_run server_ids)))"

end
