(* ===== verification/Email_Sync_Facts.thy ===== *)
theory Email_Sync_Facts
  imports Email_Sync
begin

text \<open>
  What the synchronisation of emails guarantees: the choice of the primary mailbox, the
  completeness of the paging, what is pushed to the server and what is deleted locally.
\<close>

section \<open>Invariants\<close>

lemmas email_step_defs =
  insert_memberships_def reconcile_memberships_def delete_email_def settle_change_def
  apply_writeback_def download_and_write_def insert_email_def update_email_in_place_def
  move_email_def apply_email_def delete_pass_def hydrate_chunk_def reconcile_emails_def

lemma keeps_local_change [keeps_rules]:
  "(\<And>i a. c = Destroy i a \<Longrightarrow> keeps P (f i a)) \<Longrightarrow>
   (\<And>i a b d. c = UpdateKeywords i a b d \<Longrightarrow> keeps P (g i a b d)) \<Longrightarrow>
   keeps P (case c of Destroy i a \<Rightarrow> f i a | UpdateKeywords i a b d \<Rightarrow> g i a b d)"
  by (cases c) auto

lemma reconcile_emails_db_wf:
  "keeps (\<lambda>w. db_wf (db w)) (reconcile_emails v cl boxes root dry ids)"
  unfolding email_step_defs Let_def by (intro keeps_rules)

lemma reconcile_emails_dry:
  "keeps (\<lambda>w. Q (db w) (files w) (set_requests w)) (reconcile_emails v cl boxes root True ids)"
  unfolding email_step_defs Let_def if_True by (intro keeps_rules)

lemma sync_emails_keeps:
  assumes "\<And>boxes ids. keeps P (reconcile_emails v cl boxes root dry ids)"
    and "sync_emails v cl ms root dry = Some m"
  shows "keeps P m"
  using assms by (auto simp: sync_emails_def Let_def keeps_ret keeps_throw
      split: if_splits option.splits sum.splits)

section \<open>The primary mailbox\<close>

lemma hd_sort_key:
  assumes "xs \<noteq> []"
  shows "hd (sort_key f xs) \<in> set xs" "x \<in> set xs \<Longrightarrow> f (hd (sort_key f xs)) \<le> f x"
proof -
  have ne: "sort_key f xs \<noteq> []" using assms by (metis set_empty set_sort)
  then show "hd (sort_key f xs) \<in> set xs" by (metis hd_in_set set_sort)
  have "sorted (map f (sort_key f xs))" by simp
  with ne have "\<forall>y\<in>set (sort_key f xs). f (hd (sort_key f xs)) \<le> f y"
    by (cases "sort_key f xs") auto
  then show "f (hd (sort_key f xs)) \<le> f x" if "x \<in> set xs" using that by simp
qed

lemma pick_primary_None:
  "pick_primary_mailbox ids boxes = None \<longleftrightarrow> (\<forall>i\<in>set ids. map_of boxes i = None)"
proof -
  have "List.map_filter (map_of boxes) ids = [] \<longleftrightarrow> (\<forall>i\<in>set ids. map_of boxes i = None)"
    by (induction ids) (auto split: option.splits)
  then show ?thesis by (simp add: pick_primary_mailbox_def Let_def)
qed

lemma pick_primary_least:
  assumes "pick_primary_mailbox ids boxes = Some m"
  shows "\<exists>i\<in>set ids. map_of boxes i = Some m"
    and "i \<in> set ids \<Longrightarrow> map_of boxes i = Some n \<Longrightarrow> primary_key m \<le> primary_key n"
proof -
  let ?c = "List.map_filter (map_of boxes) ids"
  from assms have c: "?c \<noteq> []" and m: "m = hd (sort_key primary_key ?c)"
    by (auto simp: pick_primary_mailbox_def Let_def split: if_splits)
  show "\<exists>i\<in>set ids. map_of boxes i = Some m"
    using hd_sort_key(1) [OF c] unfolding m in_map_filter .
  show "primary_key m \<le> primary_key n" if "i \<in> set ids" "map_of boxes i = Some n"
    unfolding m by (rule hd_sort_key(2) [OF c]) (use that in \<open>auto simp: in_map_filter\<close>)
qed

section \<open>Paging\<close>

text \<open>A server that serves the list \<open>ids\<close> page by page.\<close>

definition serves :: "client \<Rightarrow> string \<Rightarrow> string list \<Rightarrow> bool" where
  "serves cl mb ids \<longleftrightarrow> (\<forall>p n. cl_email_query cl mb (int p) n = Inr (take n (drop p ids)))"

lemma sint_of_nat_small: "n < 2 ^ 31 \<Longrightarrow> sint (word_of_nat n :: 32 word) = int n"
  by (simp add: signed_of_nat signed_take_bit_int_eq_self)

lemma page_query_loop_serves:
  assumes "serves cl mb ids" and "length ids < 2147483648" and "p \<le> length ids"
  shows "page_query_loop cl mb (of_nat p) (take p ids) = Some (Inr ids)"
  using assms(3)
proof (induction "length ids - p" arbitrary: p rule: less_induct)
  case less
  let ?page = "take EMAIL_QUERY_PAGE_SIZE (drop p ids)"
  have "sint (word_of_nat p :: 32 word) = int p"
    using less.prems assms(2) by (intro sint_of_nat_small) simp
  then have q: "cl_email_query cl mb (sint (word_of_nat p :: 32 word)) EMAIL_QUERY_PAGE_SIZE = Inr ?page"
    using assms(1) by (simp add: serves_def)
  show ?case
  proof (cases "length ?page < EMAIL_QUERY_PAGE_SIZE")
    case True
    then have "length ids - p < EMAIL_QUERY_PAGE_SIZE" by (auto simp: min_def split: if_splits)
    then have all: "take p ids @ ?page = ids" by simp
    show ?thesis by (subst page_query_loop.simps) (simp only: q sum.case True if_True all)
  next
    case False
    then have len: "length ?page = EMAIL_QUERY_PAGE_SIZE" by simp
    then have le: "p + EMAIL_QUERY_PAGE_SIZE \<le> length ids"
      using less.prems by (auto simp: EMAIL_QUERY_PAGE_SIZE_def min_def split: if_splits)
    have "page_query_loop cl mb (of_nat p) (take p ids)
      = page_query_loop cl mb (of_nat (p + EMAIL_QUERY_PAGE_SIZE)) (take p ids @ ?page)"
      using q False len by (subst page_query_loop.simps) simp
    also have "take p ids @ ?page = take (p + EMAIL_QUERY_PAGE_SIZE) ids" by (simp add: take_add)
    also have "page_query_loop cl mb (of_nat (p + EMAIL_QUERY_PAGE_SIZE)) \<dots> = Some (Inr ids)"
      using le by (intro less.hyps) (auto simp: EMAIL_QUERY_PAGE_SIZE_def)
    finally show ?thesis .
  qed
qed

lemma page_query_ids_serves:
  "serves cl mb ids \<Longrightarrow> length ids < 2147483648 \<Longrightarrow> page_query_ids cl mb = Some (Inr ids)"
  using page_query_loop_serves [of cl mb ids 0] by (simp add: page_query_ids_def)

lemma set_fold_insert: "set (fold List.insert xs ys) = set xs \<union> set ys"
  by (induction xs arbitrary: ys) auto

lemma fetch_all_email_ids_serves:
  assumes "\<And>m. m \<in> set ms \<Longrightarrow> serves cl m (ids_of m) \<and> length (ids_of m) < 2147483648"
  shows "\<exists>out. fetch_all_email_ids cl ms acc = Some (Inr out)
    \<and> set out = set acc \<union> (\<Union>m\<in>set ms. set (ids_of m))"
  using assms
proof (induction ms arbitrary: acc)
  case (Cons m ms)
  have "page_query_ids cl m = Some (Inr (ids_of m))"
    using Cons.prems [of m] by (intro page_query_ids_serves) auto
  with Cons.IH [of "fold List.insert (ids_of m) acc"] Cons.prems show ?case
    by (auto simp: set_fold_insert)
qed simp

lemma distinct_fold_insert: "distinct ys \<Longrightarrow> distinct (fold List.insert xs ys)"
  by (induction xs arbitrary: ys) auto

lemma fetch_all_email_ids_distinct:
  "fetch_all_email_ids cl ms acc = Some (Inr out) \<Longrightarrow> distinct acc \<Longrightarrow> distinct out"
  by (induction cl ms acc rule: fetch_all_email_ids.induct)
     (auto split: option.splits sum.splits intro: distinct_fold_insert)

section \<open>What is detected locally\<close>

lemma local_change_destroy:
  "(\<exists>a. local_change_of v f root j row = Some (Destroy i a)) \<longleftrightarrow>
   i = j \<and> (case resolve_current_file v f root (em_file_path row) of
              None \<Rightarrow> True | Some (_, flags) \<Rightarrow> CHR ''T'' \<in> set flags)"
proof (cases "resolve_current_file v f root (em_file_path row)")
  case None
  then show ?thesis by (auto simp: local_change_of_def)
next
  case (Some af)
  then show ?thesis by (cases af) (auto simp: local_change_of_def Let_def)
qed

lemma in_detect:
  "c \<in> set (detect_local_writeback v root locals f) \<longleftrightarrow>
   (\<exists>j row. (j, row) \<in> set locals \<and> local_change_of v f root j row = Some c)"
  unfolding detect_local_writeback_def in_map_filter by (simp add: Bex_def split_paired_Ex)

lemma in_request_destroy:
  "i \<in> set (sr_destroy (writeback_request v locals cs)) \<longleftrightarrow> (\<exists>a. Destroy i a \<in> set cs)"
proof -
  have "(case c of Destroy i a \<Rightarrow> Some i | _ \<Rightarrow> None) = Some i \<longleftrightarrow> (\<exists>a. c = Destroy i a)" for c
    by (cases c) auto
  then show ?thesis unfolding writeback_request_def set_request.simps in_map_filter by metis
qed

lemma writeback_destroys:
  "i \<in> set (sr_destroy (writeback_request v locals (detect_local_writeback v root locals f))) \<longleftrightarrow>
   (\<exists>row. (i, row) \<in> set locals
      \<and> (case resolve_current_file v f root (em_file_path row) of
            None \<Rightarrow> True | Some (_, flags) \<Rightarrow> CHR ''T'' \<in> set flags))"
proof -
  have "(\<exists>a. Destroy i a \<in> set (detect_local_writeback v root locals f)) \<longleftrightarrow>
    (\<exists>j row. (j, row) \<in> set locals \<and> (\<exists>a. local_change_of v f root j row = Some (Destroy i a)))"
    unfolding in_detect by blast
  then show ?thesis unfolding in_request_destroy local_change_destroy by auto
qed

text \<open>Right after a download the file and the stored keywords agree, so nothing is pushed.\<close>

lemma serialized_matches_flags:
  assumes "json_faithful v"
  shows "merge_keywords_json v (serialize_keywords v ks) (keywords_to_flag_string ks)
    = serialize_keywords v ks"
proof -
  let ?t = "bt_collect (map (\<lambda>k. (k, True)) (sort ks))"
  have ok: "bt_ok ?t" by simp
  have "map_of ?t k = (if c \<in> set (keywords_to_flag_string ks) then Some True else None)"
    if "(k, c) \<in> set keyword_map" for k c
    using that keyword_of_flag by (auto simp: map_of_serialized set_keywords_to_flag_string)
  from merged_keywords_stable [OF this ok] show ?thesis
    by (simp add: merge_keywords_json_def serialize_keywords_def parse_print_keywords [OF assms ok])
qed

lemma no_T_flag: "CHR ''T'' \<notin> set (keywords_to_flag_string ks)"
proof
  assume "CHR ''T'' \<in> set (keywords_to_flag_string ks)"
  then have "standard_flag CHR ''T''" by (rule keywords_to_flag_string_standard)
  then show False by (simp add: standard_flags)
qed

lemma settled_row:
  assumes "json_faithful v"
    and "resolve_current_file v f root (em_file_path row) = Some (rel, keywords_to_flag_string ks)"
    and "em_keywords row = Some (serialize_keywords v ks)"
  shows "local_change_of v f root j row = None"
proof -
  have "filter standard_flag (keywords_to_flag_string ks) = keywords_to_flag_string ks"
    using keywords_to_flag_string_standard by (simp add: filter_id_conv)
  then show ?thesis using assms no_T_flag serialized_matches_flags
    by (simp add: local_change_of_def)
qed

end
