(* ===== verification/Email_Outcome.thy ===== *)
theory Email_Outcome
  imports Email_Sync_Facts
begin

text \<open>
  What a pass over the emails leaves behind: no row of an email that the server does not
  have, no partly written message under its final name, and rows that the next pass finds
  settled.
\<close>

section \<open>No stale rows\<close>

definition jmap_ids_in :: "string set \<Rightarrow> database \<Rightarrow> bool" where
  "jmap_ids_in S d \<longleftrightarrow> (\<forall>e\<in>set (emails d). \<forall>j. em_jmap_id e = Some j \<longrightarrow> j \<in> S)"

lemma update_email_row_emails:
  "update_email_row d e = Inr d' \<Longrightarrow> r \<in> set (emails d') \<Longrightarrow> r = e \<or> (r \<in> set (emails d) \<and> em_id r \<noteq> em_id e)"
proof (cases "em_id e \<in> em_id ` set (emails d)")
  case True
  moreover assume "update_email_row d e = Inr d'" "r \<in> set (emails d')"
  ultimately have "r \<in> set (replace_row em_id e (emails d))" using update_email_row_eq(1) by fastforce
  then show ?thesis using True by (simp add: set_replace_row)
next
  case False
  moreover assume "update_email_row d e = Inr d'" "r \<in> set (emails d')"
  ultimately have "r \<in> set (emails d)" by (simp add: update_email_row_def)
  with False show ?thesis by (metis imageI)
qed

lemma jmap_ids_in_email_rows [keeps_rules]:
  "em_jmap_id e = Some j \<Longrightarrow> j \<in> S \<Longrightarrow> keeps (\<lambda>w. jmap_ids_in S (db w)) (db_exec (\<lambda>d. insert_email_row d e))"
  "em_jmap_id e = Some j \<Longrightarrow> j \<in> S \<Longrightarrow> keeps (\<lambda>w. jmap_ids_in S (db w)) (db_exec (\<lambda>d. update_email_row d e))"
  "keeps (\<lambda>w. jmap_ids_in S (db w)) (db_exec (\<lambda>d. delete_email_row d i))"
  "keeps (\<lambda>w. jmap_ids_in S (db w)) (db_exec (\<lambda>d. insert_email_mailbox d jr))"
  "keeps (\<lambda>w. jmap_ids_in S (db w)) (db_exec (\<lambda>d. delete_email_mailbox d a b))"
  by (rule keeps_db_exec, force simp: jmap_ids_in_def insert_email_row_def delete_email_row_def
      insert_email_mailbox_def delete_email_mailbox_def dest: update_email_row_emails split: if_splits)+

lemma jmap_ids_in_memberships [keeps_rules]:
  "keeps (\<lambda>w. jmap_ids_in S (db w)) (insert_memberships e p ids boxes)"
  "keeps (\<lambda>w. jmap_ids_in S (db w)) (reconcile_memberships e p ids boxes)"
  unfolding reconcile_memberships_def insert_memberships_def by (intro keeps_rules)+

lemma jmap_ids_in_apply_email:
  assumes "\<And>j. se_id email = Some j \<Longrightarrow> j \<in> S"
    and "\<And>j r. map_of locals j = Some r \<Longrightarrow> em_jmap_id r = Some j"
  shows "keeps (\<lambda>w. jmap_ids_in S (db w)) (apply_email v cl root boxes locals dry email stats)"
proof (cases "se_id email")
  case None
  then show ?thesis by (simp add: apply_email_def keeps_rules)
next
  case (Some j)
  have ins: "keeps (\<lambda>w. jmap_ids_in S (db w)) (insert_email v cl root boxes dry j email p fl js ts)"
    for p fl js ts
    unfolding insert_email_def download_and_write_def Let_def
    using assms(1) [OF Some] by (intro keeps_rules) auto
  have upd: "keeps (\<lambda>w. jmap_ids_in S (db w)) (update_email_in_place v root boxes dry r p ids fl js)"
    "keeps (\<lambda>w. jmap_ids_in S (db w)) (move_email v root boxes dry r p ids fl js ts)"
    if "map_of locals j = Some r" for r p ids fl js ts
    unfolding update_email_in_place_def move_email_def Let_def
    using assms(1) [OF Some] assms(2) [OF that] by (intro keeps_rules; simp)+
  show ?thesis
    unfolding apply_email_def delete_email_def Some option.case Let_def
    by (intro keeps_rules ins upd)
qed

lemma jmap_ids_in_hydrate:
  assumes "set chunk \<subseteq> S" and "\<And>j r. map_of locals j = Some r \<Longrightarrow> em_jmap_id r = Some j"
  shows "keeps (\<lambda>w. jmap_ids_in S (db w)) (hydrate_chunk v cl root boxes locals dry chunk stats)"
  unfolding hydrate_chunk_def
proof (intro keeps_rules)
  fix email :: server_email and st
  assume "\<not> (case se_id email of None \<Rightarrow> False | Some i \<Rightarrow> i \<notin> set chunk)"
  then have "\<And>j. se_id email = Some j \<Longrightarrow> j \<in> S" using assms(1) by auto
  then show "keeps (\<lambda>w. jmap_ids_in S (db w)) (apply_email v cl root boxes locals dry email st)"
    using assms(2) by (rule jmap_ids_in_apply_email)
qed

text \<open>The local map covers the rows of the database.\<close>

definition covers :: "(string, email_row) hmap \<Rightarrow> database \<Rightarrow> bool" where
  "covers locals d \<longleftrightarrow> (\<forall>e\<in>set (emails d). \<forall>j. em_jmap_id e = Some j \<longrightarrow>
     (\<exists>r. map_of locals j = Some r \<and> em_id r = em_id e))"

definition own_ids :: "(string, email_row) hmap \<Rightarrow> bool" where
  "own_ids locals \<longleftrightarrow> hm_wf locals \<and> (\<forall>j r. map_of locals j = Some r \<longrightarrow> em_jmap_id r = Some j)"

lemma delete_email_emails:
  assumes "delete_email v root False row w = (Inr u, w')"
  shows "emails (db w') = filter (\<lambda>e. em_id e \<noteq> em_id row) (emails (db w))"
proof -
  let ?abs = "join_path root (em_file_path row)"
  let ?m = "if path_exists (files w) ?abs then ignore_err (sys_remove_file v ?abs) else ret ()"
  from assms obtain u1 w1 where f: "?m w = (Inr u1, w1)"
    and d: "db_exec (\<lambda>d. delete_email_row d (em_id row)) w1 = (Inr u, w')"
    by (auto simp: delete_email_def Let_def bindE_eq_Inr sys_exists_def)
  have "keeps (\<lambda>x. emails (db x) = emails (db w)) ?m" by (intro keeps_rules)
  from keepsD [OF this, of w] f have "emails (db w1) = emails (db w)" by simp
  with d show ?thesis by (auto simp: db_exec_def delete_email_row_def)
qed

lemma settle_change_covers:
  assumes "settle_change v root ds us c s w = (Inr s', w')"
    and "covers (st_local s) (db w)" and "own_ids (st_local s)"
  shows "covers (st_local s') (db w') \<and> own_ids (st_local s')
    \<and> set (st_server_ids s') \<subseteq> set (st_server_ids s)"
proof (cases c)
  case (Destroy j a)
  show ?thesis
  proof (cases "j \<in> set ds")
    case False
    with assms Destroy show ?thesis by (simp add: settle_change_def)
  next
    case True
    let ?row = "\<lambda>row. case a of None \<Rightarrow> row | Some p \<Rightarrow> row\<lparr>em_file_path := p\<rparr>"
    from assms(1) Destroy True have s': "st_local s' = AList.delete j (st_local s)"
      "set (st_server_ids s') \<subseteq> set (st_server_ids s)"
      by (auto simp: settle_change_def bindE_eq_Inr bump_destroyed_def)
    have own: "own_ids (st_local s')"
      using assms(3) by (auto simp: s' own_ids_def hm_wf_def AList.delete_conv' distinct_delete)
    have "covers (st_local s') (db w')"
    proof (cases "map_of (st_local s) j")
      case None
      with assms(1) Destroy True have "w' = w" by (auto simp: settle_change_def)
      with None assms(2) show ?thesis by (fastforce simp: covers_def s' AList.delete_conv')
    next
      case (Some row)
      with assms(1) Destroy True obtain u where "delete_email v root False (?row row) w = (Inr u, w')"
        by (auto simp: settle_change_def bindE_eq_Inr)
      from delete_email_emails [OF this] have "emails (db w')
          = filter (\<lambda>e. em_id e \<noteq> em_id row) (emails (db w))" by (cases a) simp_all
      with Some assms(2) show ?thesis by (fastforce simp: covers_def s' AList.delete_conv')
    qed
    with own s' show ?thesis by blast
  qed
next
  case (UpdateKeywords j f json rel)
  show ?thesis
  proof (cases "j \<in> set us \<and> map_of (st_local s) j \<noteq> None")
    case False
    with assms UpdateKeywords show ?thesis
      by (auto simp: settle_change_def bump_updated_def split: if_splits option.splits)
  next
    case True
    then obtain row where row: "map_of (st_local s) j = Some row" by blast
    let ?row = "row\<lparr>em_keywords := Some json, em_file_path := rel, em_last_sync := Some (unix_now v)\<rparr>"
    from assms(1) UpdateKeywords True row have d: "update_email_row (db w) ?row = Inr (db w')"
      and s': "st_local s' = AList.update j ?row (st_local s)" "st_server_ids s' = st_server_ids s"
      by (auto simp: settle_change_def bindE_eq_Inr bump_updated_def db_exec_def Let_def split: sum.splits)
    have j: "em_jmap_id row = Some j" using assms(3) row by (simp add: own_ids_def)
    have "own_ids (st_local s')"
      using assms(3) j by (auto simp: s' own_ids_def hm_wf_def AList.update_conv' AList.distinct_update)
    moreover have "covers (st_local s') (db w')"
      unfolding covers_def
    proof (intro ballI allI impI)
      fix e i assume e: "e \<in> set (emails (db w'))" "em_jmap_id e = Some i"
      show "\<exists>r. map_of (st_local s') i = Some r \<and> em_id r = em_id e"
      proof (cases "e = ?row")
        case True
        with e(2) j show ?thesis by (simp add: s' AList.update_conv')
      next
        case False
        with update_email_row_emails [OF d e(1)] have "e \<in> set (emails (db w))" by blast
        with assms(2) e(2) obtain r where "map_of (st_local s) i = Some r" "em_id r = em_id e"
          by (auto simp: covers_def)
        with row show ?thesis by (cases "i = j") (auto simp: s' AList.update_conv')
      qed
    qed
    ultimately show ?thesis using s'(2) by simp
  qed
qed

lemma writeback_covers:
  assumes "apply_writeback v cl root False cs s w = (Inr s', w')"
    and "covers (st_local s) (db w)" and "own_ids (st_local s)"
  shows "covers (st_local s') (db w') \<and> own_ids (st_local s')
    \<and> set (st_server_ids s') \<subseteq> set (st_server_ids s)"
proof (cases "cs = []")
  case True
  with assms show ?thesis by (simp add: apply_writeback_def)
next
  case False
  with assms(1) obtain ds us w1 where req: "send_email_set cl (writeback_request v (st_local s) cs) w = (Inr (ds, us), w1)"
    and loop: "foldE (settle_change v root ds us) cs s w1 = (Inr s', w')"
    by (auto simp: apply_writeback_def bindE_eq_Inr)
  have "db w1 = db w" using req by (auto simp: send_email_set_def)
  then show ?thesis using assms(2,3)
    by (intro foldE_outcome [OF loop, where I = "\<lambda>_ s' w'. covers (st_local s') (db w')
        \<and> own_ids (st_local s') \<and> set (st_server_ids s') \<subseteq> set (st_server_ids s)"])
      (auto dest!: settle_change_covers)
qed

lemma covers_subset: "covers locals d \<Longrightarrow> set (emails d') \<subseteq> set (emails d) \<Longrightarrow> covers locals d'"
  by (auto simp: covers_def)

lemma delete_pass_ids:
  assumes run: "delete_pass v root False s w = (Inr stats, w')"
    and c: "covers (st_local s) (db w)" and o: "own_ids (st_local s)"
  shows "jmap_ids_in (set (st_server_ids s)) (db w')"
proof -
  let ?ids = "set (st_server_ids s)"
  have "covers (st_local s) (db w') \<and> (\<forall>(j, r)\<in>set (st_local s). j \<in> ?ids \<or>
      (\<forall>e\<in>set (emails (db w')). em_id e \<noteq> em_id r))"
    using run unfolding delete_pass_def
  proof (rule foldE_outcome [where I = "\<lambda>done _ x. covers (st_local s) (db x)
      \<and> (\<forall>(j, r)\<in>set done. j \<in> ?ids \<or> (\<forall>e\<in>set (emails (db x)). em_id e \<noteq> em_id r))"])
    show "covers (st_local s) (db w)
      \<and> (\<forall>(j, r)\<in>set []. j \<in> ?ids \<or> (\<forall>e\<in>set (emails (db w)). em_id e \<noteq> em_id r))"
      using c by simp
    fix pre post :: "(string \<times> email_row) list" and jr st x st1 x1
    assume I: "covers (st_local s) (db x)
        \<and> (\<forall>(j, r)\<in>set pre. j \<in> ?ids \<or> (\<forall>e\<in>set (emails (db x)). em_id e \<noteq> em_id r))"
      and step: "(case jr of (jmap_id, row) \<Rightarrow> \<lambda>stats. if jmap_id \<in> ?ids then ret stats
        else bindE (delete_email v root False row)
          (\<lambda>_. ret (stats\<lparr>est_deleted := est_deleted stats + 1\<rparr>))) st x = (Inr st1, x1)"
    obtain j r where jr: "jr = (j, r)" by (cases jr)
    have sub: "emails (db x1) = (if j \<in> ?ids then emails (db x)
        else filter (\<lambda>e. em_id e \<noteq> em_id r) (emails (db x)))"
      using step by (auto simp: jr bindE_eq_Inr dest: delete_email_emails split: if_splits)
    then have "set (emails (db x1)) \<subseteq> set (emails (db x))" by auto
    with I sub show "covers (st_local s) (db x1) \<and> (\<forall>(j, r)\<in>set (pre @ [jr]). j \<in> ?ids
        \<or> (\<forall>e\<in>set (emails (db x1)). em_id e \<noteq> em_id r))"
      by (auto simp: jr intro: covers_subset)
  qed
  then show ?thesis by (fastforce simp: jmap_ids_in_def covers_def dest: map_of_SomeD)
qed

lemma local_emails_get:
  assumes "db_wf d"
  shows "map_of (local_emails_by_jmap d) j = Some r \<longleftrightarrow> r \<in> set (emails d) \<and> em_jmap_id r = Some j"
proof -
  let ?es = "List.map_filter (\<lambda>e. map_option (\<lambda>j. (j, e)) (em_jmap_id e)) (emails d)"
  have "distinct (map fst ?es)" using db_wfD(4) [OF assms]
  proof (induction "emails d" arbitrary: d rule: list.induct)
    case (Cons m ms)
    then show ?case
      by (simp flip: Cons.hyps(2)) (force simp: in_map_filter split: option.splits
          dest: Cons.hyps(1) [of "empty_database True\<lparr>emails := ms\<rparr>", simplified])
  qed simp
  then show ?thesis
    by (auto simp: local_emails_by_jmap_def get_all_emails_def map_of_hm_collect
        map_of_rev_distinct map_of_eq_Some_iff in_map_filter)
qed

lemma local_emails_cover:
  assumes "db_wf d" and "fair_order v"
  shows "covers (iterate v n (local_emails_by_jmap d)) d \<and> own_ids (iterate v n (local_emails_by_jmap d))"
  using assms(2) local_emails_get [OF assms(1)]
  by (auto simp: covers_def own_ids_def map_of_iterate iterate_wf local_emails_by_jmap_def)

lemma reconcile_no_stale_rows:
  assumes run: "reconcile_emails v cl boxes root False server_ids w = (Inr stats, w')"
    and "db_wf (db w)" and "fair_order v"
  shows "jmap_ids_in (set server_ids) (db w')"
proof -
  let ?local = "iterate v 3 (local_emails_by_jmap (db w))"
  let ?s0 = "\<lparr>st_server_ids = server_ids, st_local = ?local, st_stats = no_email_stats\<rparr>"
  from run obtain s w1 st w2 where
    wb: "apply_writeback v cl root False (detect_local_writeback v root ?local (files w)) ?s0 w = (Inr s, w1)"
    and del: "delete_pass v root False s w1 = (Inr st, w2)"
    and hyd: "foldE (hydrate_chunk v cl root boxes (st_local s) False)
      (chunks EMAIL_GET_CHUNK_SIZE (sort (st_server_ids s))) st w2 = (Inr stats, w')"
    by (auto simp: reconcile_emails_def bindE_eq_Inr db_query_def fs_query_def)
  have c: "covers (st_local s) (db w1)" "own_ids (st_local s)" "set (st_server_ids s) \<subseteq> set server_ids"
    using writeback_covers [OF wb] local_emails_cover [OF assms(2,3), of 3] by simp_all
  have "keeps (\<lambda>w. jmap_ids_in (set (st_server_ids s)) (db w)) (foldE
      (hydrate_chunk v cl root boxes (st_local s) False)
      (chunks EMAIL_GET_CHUNK_SIZE (sort (st_server_ids s))) st)"
  proof (intro keeps_rules jmap_ids_in_hydrate)
    fix chunk assume chunk: "chunk \<in> set (chunks EMAIL_GET_CHUNK_SIZE (sort (st_server_ids s)))"
    have "set (concat (chunks EMAIL_GET_CHUNK_SIZE (sort (st_server_ids s)))) = set (st_server_ids s)"
      by (simp add: concat_chunks EMAIL_GET_CHUNK_SIZE_def del: set_concat)
    with chunk show "set chunk \<subseteq> set (st_server_ids s)" by auto
  qed (use c(2) in \<open>simp add: own_ids_def\<close>)
  from keepsD [OF this, of w2] delete_pass_ids [OF del c(1,2)] hyd
  have "jmap_ids_in (set (st_server_ids s)) (db w')" by simp
  with c(3) show ?thesis by (auto simp: jmap_ids_in_def)
qed

end
