(* ===== verification/Mailbox_Tree_Facts.thy ===== *)
theory Mailbox_Tree_Facts
  imports Mailbox_Tree
begin

text \<open>
  What \<open>resolve_path\<close>, \<open>build_target_set\<close> and \<open>topo_sort_creates_and_updates\<close> compute:
  a path names the chain of ancestors, the target set is exactly the kept part of the
  server's view, and the order of application puts every parent before its children.
\<close>

section \<open>Paths name the chain of ancestors\<close>

text \<open>\<open>lineage t m ms\<close>: \<open>ms\<close> leads from \<open>m\<close> to a root along the parent links of \<open>t\<close>.\<close>

inductive lineage ::
    "(string, server_mailbox) hmap \<Rightarrow> server_mailbox \<Rightarrow> server_mailbox list \<Rightarrow> bool" where
  lineage_root: "sm_parent_id m = None \<Longrightarrow> lineage t m [m]"
| lineage_child: "sm_parent_id m = Some p \<Longrightarrow> map_of t p = Some q \<Longrightarrow> lineage t q ms \<Longrightarrow>
     lineage t m (m # ms)"

inductive_simps lineage_simps: "lineage t m ms"

definition segment_of :: "(string, string) hmap \<Rightarrow> server_mailbox \<Rightarrow> string" where
  "segment_of nm m = sanitize_segment (mapped_name nm (the (sm_name m)))"

definition clean_lineage ::
    "(string, server_mailbox) hmap \<Rightarrow> string set \<Rightarrow> server_mailbox \<Rightarrow> server_mailbox list \<Rightarrow> bool" where
  "clean_lineage t seen m ms \<longleftrightarrow>
     lineage t m ms \<and> distinct (map sm_id ms) \<and>
     (\<forall>x\<in>set ms. sm_name x \<noteq> None \<and> (\<exists>i. sm_id x = Some i \<and> i \<notin> seen))"

lemma lineage_not_Nil: "lineage t m ms \<Longrightarrow> ms \<noteq> []"
  by (auto elim: lineage.cases)

lemma lineage_unique: "lineage t m ms \<Longrightarrow> lineage t m ms' \<Longrightarrow> ms = ms'"
proof (induction arbitrary: ms' rule: lineage.induct)
  case (lineage_root m t)
  then show ?case by (auto elim: lineage.cases)
next
  case (lineage_child m p t q ms)
  from lineage_child.prems lineage_child.hyps show ?case
    by (cases rule: lineage.cases) (auto intro: lineage_child.IH)
qed

lemma clean_lineage_child:
  assumes "sm_id m = Some i" and "sm_parent_id m = Some p" and "map_of t p = Some q"
    and "sm_name m \<noteq> None" and "i \<notin> seen"
  shows "clean_lineage t seen m (m # ms) \<longleftrightarrow> clean_lineage t (insert i seen) q ms"
proof -
  have "lineage t m (m # ms) \<longleftrightarrow> lineage t q ms"
    using assms(2,3) by (subst lineage_simps) auto
  then show ?thesis using assms by (auto simp: clean_lineage_def) force
qed

lemma clean_lineage_root:
  "sm_id m = Some i \<Longrightarrow> sm_parent_id m = None \<Longrightarrow> sm_name m \<noteq> None \<Longrightarrow> i \<notin> seen \<Longrightarrow>
   clean_lineage t seen m ms \<longleftrightarrow> ms = [m]"
  by (auto simp: clean_lineage_def elim: lineage.cases intro: lineage.intros)

lemma clean_lineage_head: "clean_lineage t seen m ms \<Longrightarrow> \<exists>rest. ms = m # rest"
  by (auto simp: clean_lineage_def elim: lineage.cases)

lemma resolve_loop_iff:
  "resolve_loop t nm segs seen m = Inr out \<longleftrightarrow>
   (\<exists>ms. clean_lineage t (set seen) m ms \<and> out = segs @ map (segment_of nm) ms)"
proof (induction t nm segs seen m rule: resolve_loop.induct)
  case (1 t nm segs seen m)
  note simps = resolve_loop.simps [of t nm segs seen m]
  have needs: "clean_lineage t (set seen) m ms \<Longrightarrow>
      (\<exists>i. sm_id m = Some i \<and> i \<notin> set seen) \<and> sm_name m \<noteq> None" for ms
    using clean_lineage_head by (fastforce simp: clean_lineage_def)
  show ?case
  proof (cases "\<exists>i raw. sm_id m = Some i \<and> i \<notin> set seen \<and> sm_name m = Some raw")
    case False
    then have "\<not> clean_lineage t (set seen) m ms" for ms using needs [of ms] by blast
    moreover have "resolve_loop t nm segs seen m \<noteq> Inr out"
      unfolding simps using False by (auto split: option.splits)
    ultimately show ?thesis by blast
  next
    case True
    then obtain i raw where i: "sm_id m = Some i" "i \<notin> set seen" "sm_name m = Some raw" by blast
    show ?thesis
    proof (cases "sm_parent_id m")
      case None
      with i simps show ?thesis
        by (auto simp: clean_lineage_root segment_of_def)
    next
      case (Some p)
      show ?thesis
      proof (cases "map_of t p")
        case None
        then have "\<not> clean_lineage t (set seen) m ms" for ms
          using Some by (auto simp: clean_lineage_def elim: lineage.cases)
        with i Some None simps show ?thesis by simp
      next
        case q: (Some q)
        let ?segs = "segs @ [sanitize_segment (mapped_name nm raw)]"
        have "resolve_loop t nm segs seen m = resolve_loop t nm ?segs (i # seen) q"
          using i Some q simps by simp
        also have "\<dots> = Inr out \<longleftrightarrow>
            (\<exists>ms. clean_lineage t (set (i # seen)) q ms \<and> out = ?segs @ map (segment_of nm) ms)"
          using "1.IH" [OF i(1,2,3) refl Some q] by simp
        also have "\<dots> \<longleftrightarrow> (\<exists>ms. clean_lineage t (set seen) m (m # ms)
            \<and> out = segs @ map (segment_of nm) (m # ms))"
          using clean_lineage_child [OF i(1) Some q _ i(2)] i(3) by (simp add: segment_of_def)
        also have "\<dots> \<longleftrightarrow> (\<exists>ms. clean_lineage t (set seen) m ms \<and> out = segs @ map (segment_of nm) ms)"
          using clean_lineage_head by metis
        finally show ?thesis .
      qed
    qed
  qed
qed

lemma resolve_path_iff:
  "resolve_path m t nm = Inr p \<longleftrightarrow>
   (\<exists>ms. clean_lineage t {} m ms \<and> p = join_with ''/'' (rev (map (segment_of nm) ms)))"
  unfolding resolve_path_def rbind_eq_Inr resolve_loop_iff by auto

lemma segment_no_slash: "CHR ''/'' \<notin> set (segment_of nm m)"
  by (auto simp: segment_of_def sanitize_segment_def)

text \<open>Splitting a resolved path at the slashes gives one segment for each ancestor.\<close>

lemma resolve_path_components:
  assumes "resolve_path m t nm = Inr p"
  obtains ms where "lineage t m ms" "split_on CHR ''/'' p = rev (map (segment_of nm) ms)"
proof -
  from assms obtain ms where ms: "clean_lineage t {} m ms"
    and p: "p = join_with ''/'' (rev (map (segment_of nm) ms))"
    unfolding resolve_path_iff by blast
  then have l: "lineage t m ms" by (simp add: clean_lineage_def)
  have "split_on CHR ''/'' p = rev (map (segment_of nm) ms)"
    unfolding p using lineage_not_Nil [OF l] segment_no_slash
    by (intro split_on_join) auto
  with l show thesis by (rule that)
qed

section \<open>The target set is the kept part of the view\<close>

definition target_of ::
    "(string, server_mailbox) hmap \<Rightarrow> (string, string) hmap \<Rightarrow> (string \<Rightarrow> bool) list option
     \<Rightarrow> mail_config \<Rightarrow> server_mailbox \<Rightarrow> target_mailbox option" where
  "target_of ids nm globs cfg m =
     (case (sm_id m, resolve_path m ids nm) of
        (Some i, Inr path) \<Rightarrow>
          if keep_mailbox globs cfg m path then Some (target_entry nm i m path) else None
      | _ \<Rightarrow> None)"

lemma include_mailboxes_get:
  assumes "include_mailboxes ids nm globs cfg ms inc = Inr out"
    and "unique_some (map sm_id ms)"
    and "\<And>m i. m \<in> set ms \<Longrightarrow> sm_id m = Some i \<Longrightarrow> map_of inc i = None"
  shows "map_of out j = Some t \<longleftrightarrow>
    map_of inc j = Some t \<or> (\<exists>m\<in>set ms. sm_id m = Some j \<and> target_of ids nm globs cfg m = Some t)"
  using assms
proof (induction ms arbitrary: inc)
  case Nil
  then show ?case by simp
next
  case (Cons m ms)
  show ?case
  proof (cases "sm_id m")
    case None
    have "map_of out j = Some t \<longleftrightarrow> map_of inc j = Some t
      \<or> (\<exists>x\<in>set ms. sm_id x = Some j \<and> target_of ids nm globs cfg x = Some t)"
      using Cons.prems None by (intro Cons.IH) auto
    with None show ?thesis by auto
  next
    case (Some i)
    from Cons.prems(1) Some obtain path where path: "resolve_path m ids nm = Inr path"
      by (auto simp: rbind_eq_Inr)
    let ?inc = "if keep_mailbox globs cfg m path
      then AList.update i (target_entry nm i m path) inc else inc"
    have step: "include_mailboxes ids nm globs cfg ms ?inc = Inr out"
      using Cons.prems(1) Some path by (auto split: if_splits)
    have free: "map_of ?inc k = None" if "x \<in> set ms" "sm_id x = Some k" for x k
    proof -
      from Cons.prems(2) Some that have "k \<noteq> i" by (auto simp: image_iff)
      with Cons.prems(3) that show ?thesis by (auto simp: AList.update_conv')
    qed
    have "map_of out j = Some t \<longleftrightarrow> map_of ?inc j = Some t
      \<or> (\<exists>x\<in>set ms. sm_id x = Some j \<and> target_of ids nm globs cfg x = Some t)"
      using Cons.prems(2) free by (intro Cons.IH [OF step]) (auto split: if_splits)
    moreover have "map_of ?inc j = Some t \<longleftrightarrow> map_of inc j = Some t
      \<or> (j = i \<and> target_of ids nm globs cfg m = Some t)"
      using Some path Cons.prems(3) [of m i] by (auto simp: target_of_def AList.update_conv')
    ultimately show ?thesis using Some by auto
  qed
qed

lemma include_mailboxes_wf:
  "include_mailboxes ids nm globs cfg ms inc = Inr out \<Longrightarrow> hm_wf inc \<Longrightarrow> hm_wf out"
  by (induction ms arbitrary: inc)
     (auto simp: rbind_eq_Inr hm_wf_def AList.distinct_update split: option.splits if_splits)

lemma index_by_id_get:
  assumes "unique_some (map sm_id view)"
  shows "map_of (index_by_id view) i = Some m \<longleftrightarrow> m \<in> set view \<and> sm_id m = Some i"
proof -
  let ?es = "List.map_filter (\<lambda>m. map_option (\<lambda>i. (i, m)) (sm_id m)) view"
  have "distinct (map fst ?es)" using assms
    by (induction view) (auto simp: in_map_filter split: option.splits, force simp: in_map_filter)
  then show ?thesis
    by (auto simp: index_by_id_def map_of_hm_collect map_of_rev_distinct map_of_eq_Some_iff
        in_map_filter)
qed

text \<open>The globs that a configuration compiles to.\<close>

definition compiled_globs ::
    "(string \<Rightarrow> err + (string \<Rightarrow> bool)) \<Rightarrow> mail_config \<Rightarrow> err + (string \<Rightarrow> bool) list option" where
  "compiled_globs glob cfg =
     (case box_filter cfg of
        None \<Rightarrow> Inr None
      | Some gs \<Rightarrow> rbind (map_result glob gs) (\<lambda>ps. Inr (Some ps)))"

lemma build_target_set_get:
  assumes "build_target_set glob view cfg = Inr target" and "unique_some (map sm_id view)"
    and "compiled_globs glob cfg = Inr globs"
  shows "map_of target j = Some t \<longleftrightarrow>
    (\<exists>m\<in>set view. sm_id m = Some j
       \<and> target_of (index_by_id view) (name_map_of cfg) globs cfg m = Some t)"
proof -
  have "include_mailboxes (index_by_id view) (name_map_of cfg) globs cfg view [] = Inr target"
    using assms(1,3) by (simp add: build_target_set_def compiled_globs_def [symmetric])
  from include_mailboxes_get [OF this assms(2)] show ?thesis by simp
qed

section \<open>Parents come first\<close>

definition parents_first ::
    "(string, target_mailbox) hmap \<Rightarrow> string set \<Rightarrow> string list \<Rightarrow> bool" where
  "parents_first target known order \<longleftrightarrow>
     (\<forall>k<length order. \<forall>tgt pid.
        map_of target (order ! k) = Some tgt \<and> tm_parent_jmap_id tgt = Some pid
        \<and> pid \<in> set (map fst target) \<longrightarrow> pid \<in> known \<or> pid \<in> set (take k order))"

lemma topo_loop_mset: "mset (topo_loop target rem em order) = mset order + mset rem"
proof (induction target rem em order rule: topo_loop.induct)
  case (1 target rem em order)
  let ?ready = "filter (topo_ready target em) rem"
  let ?rest = "filter (\<lambda>i. i \<notin> set ?ready) rem"
  have rest: "?rest = filter (\<lambda>i. \<not> topo_ready target em i) rem"
    by (rule filter_cong) auto
  have split: "mset ?ready + mset ?rest = mset rem"
    unfolding rest by simp
  consider (stuck) "?ready = []" | (last) "?ready \<noteq> []" "?rest = []"
    | (next_round) "?ready \<noteq> []" "?rest \<noteq> []" by blast
  then show ?case
  proof cases
    case stuck
    then show ?thesis by (subst topo_loop.simps) (simp only: Let_def if_True refl mset_append)
  next
    case last
    have "topo_loop target rem em order = order @ ?ready"
      using last by (subst topo_loop.simps) (simp only: Let_def if_False if_True refl)
    with last(2) split show ?thesis by (metis add.right_neutral mset.simps(1) mset_append)
  next
    case next_round
    have "topo_loop target rem em order
      = topo_loop target ?rest (rev ?ready @ em) (order @ ?ready)"
      using next_round by (subst topo_loop.simps) (simp only: Let_def if_False)
    with "1.IH" [OF refl refl next_round] split show ?thesis
      by (metis add.assoc mset_append)
  qed
qed

lemma parents_first_append:
  assumes "parents_first target known order"
    and "\<And>i. i \<in> set ready \<Longrightarrow> topo_ready target em i" and "set em \<subseteq> known \<union> set order"
  shows "parents_first target known (order @ ready)"
  unfolding parents_first_def
proof (intro allI impI, elim conjE)
  fix k tgt pid
  assume k: "k < length (order @ ready)" and t: "map_of target ((order @ ready) ! k) = Some tgt"
    and p: "tm_parent_jmap_id tgt = Some pid" and mem: "pid \<in> set (map fst target)"
  show "pid \<in> known \<or> pid \<in> set (take k (order @ ready))"
  proof (cases "k < length order")
    case True
    with assms(1) t p mem show ?thesis by (auto simp: parents_first_def nth_append)
  next
    case False
    with k have "(order @ ready) ! k \<in> set ready" by (auto simp: nth_append)
    from assms(2) [OF this] t p mem have "pid \<in> set em" by (simp add: topo_ready_def)
    with assms(3) False show ?thesis by auto
  qed
qed

lemma topo_loop_parents_first:
  fixes rank :: "string \<Rightarrow> nat"
  assumes "\<And>i tgt pid. map_of target i = Some tgt \<Longrightarrow> tm_parent_jmap_id tgt = Some pid \<Longrightarrow>
      pid \<in> set (map fst target) \<Longrightarrow> rank pid < rank i"
    and "parents_first target known order" and "set em = known \<union> set order"
    and "set (map fst target) = set order \<union> set rem"
  shows "parents_first target known (topo_loop target rem em order)"
  using assms
proof (induction target rem em order rule: topo_loop.induct)
  case (1 target rem em order)
  let ?ready = "filter (topo_ready target em) rem"
  let ?rest = "filter (\<lambda>i. i \<notin> set ?ready) rem"
  have pf: "parents_first target known (order @ ?ready)"
    using 1(3,4) by (intro parents_first_append [where em = em]) auto
  show ?case
  proof (cases "rem = []")
    case True
    with 1(3) show ?thesis by (subst topo_loop.simps) simp
  next
    case False
    obtain i where i: "i \<in> set rem" and min: "\<And>j. j \<in> set rem \<Longrightarrow> rank i \<le> rank j"
      using False arg_min_if_finite [of "set rem" rank] by (metis finite_set not_le set_empty)
    have "i \<in> set (map fst target)" using i 1(5) by blast
    then obtain tgt where tgt: "map_of target i = Some tgt"
      by (cases "map_of target i") (auto simp: map_of_eq_None_iff)
    have "pid \<in> set em" if "tm_parent_jmap_id tgt = Some pid" "pid \<in> set (map fst target)" for pid
    proof -
      have "rank pid < rank i" using 1(2) tgt that by blast
      with min have "pid \<notin> set rem" by (meson leD)
      with that 1(4,5) show ?thesis by blast
    qed
    then have "topo_ready target em i"
      using tgt by (auto simp: topo_ready_def split: option.splits)
    with i have ready: "?ready \<noteq> []" by (auto simp: filter_empty_conv)
    show ?thesis
    proof (cases "?rest = []")
      case True
      with ready pf show ?thesis by (subst topo_loop.simps) (simp add: Let_def)
    next
      case rest: False
      have "topo_loop target rem em order
        = topo_loop target ?rest (rev ?ready @ em) (order @ ?ready)"
        using ready rest by (subst topo_loop.simps) (simp add: Let_def)
      moreover have "set (map fst target) = set (order @ ?ready) \<union> set ?rest"
        using 1(5) by auto
      moreover have "set (rev ?ready @ em) = known \<union> set (order @ ?ready)"
        using 1(4) by auto
      ultimately show ?thesis
        using "1.IH" [OF refl refl ready rest _ pf] 1(2) by (simp only:)
    qed
  qed
qed

section \<open>The order of a target set\<close>

lemma target_of_entry:
  "target_of ids nm globs cfg m = Some t \<Longrightarrow>
   (\<exists>i path. sm_id m = Some i \<and> resolve_path m ids nm = Inr path \<and> t = target_entry nm i m path)"
  by (auto simp: target_of_def split: option.splits sum.splits if_splits)

lemma lineage_rank:
  assumes "lineage ids m ms" and "sm_parent_id m = Some p" and "map_of ids p = Some q"
  shows "length (THE xs. lineage ids q xs) < length (THE xs. lineage ids m xs)"
proof -
  from assms obtain ns where ns: "lineage ids q ns" "ms = m # ns"
    by (cases rule: lineage.cases) auto
  have "(THE xs. lineage ids q xs) = ns" and "(THE xs. lineage ids m xs) = ms"
    using ns(1) assms(1) by (auto intro: lineage_unique)
  with ns(2) show ?thesis by simp
qed

lemma compiled_of_build:
  "build_target_set glob view cfg = Inr target \<Longrightarrow> \<exists>globs. compiled_globs glob cfg = Inr globs"
  by (cases "compiled_globs glob cfg") (simp_all add: build_target_set_def compiled_globs_def [symmetric])

lemma build_target_set_ranked:
  assumes b: "build_target_set glob view cfg = Inr target" and u: "unique_some (map sm_id view)"
  obtains rank :: "string \<Rightarrow> nat" where
    "\<And>i tgt pid. map_of target i = Some tgt \<Longrightarrow> tm_parent_jmap_id tgt = Some pid \<Longrightarrow>
      pid \<in> set (map fst target) \<Longrightarrow> rank pid < rank i"
proof -
  let ?ids = "index_by_id view"
  let ?rank = "\<lambda>i. length (THE xs. lineage ?ids (the (map_of ?ids i)) xs)"
  obtain globs where g: "compiled_globs glob cfg = Inr globs" using compiled_of_build [OF b] by blast
  note get = build_target_set_get [OF b u g]
  have "?rank pid < ?rank i"
    if t: "map_of target i = Some tgt" and p: "tm_parent_jmap_id tgt = Some pid"
      and mem: "pid \<in> set (map fst target)" for i tgt pid
  proof -
    from t obtain m where m: "m \<in> set view" "sm_id m = Some i"
      and tm: "target_of ?ids (name_map_of cfg) globs cfg m = Some tgt" using get by blast
    from target_of_entry [OF tm] m(2) obtain path where
      path: "resolve_path m ?ids (name_map_of cfg) = Inr path" "sm_parent_id m = Some pid"
      using p by (auto simp: target_entry_def)
    from path(1) obtain ms where ms: "lineage ?ids m ms"
      unfolding resolve_path_iff by (auto simp: clean_lineage_def)
    from mem obtain tp where "map_of target pid = Some tp"
      by (cases "map_of target pid") (auto simp: map_of_eq_None_iff)
    then obtain q where q: "q \<in> set view" "sm_id q = Some pid" using get by blast
    with m have "map_of ?ids pid = Some q" "map_of ?ids i = Some m"
      by (simp_all add: index_by_id_get [OF u])
    with lineage_rank [OF ms path(2)] show ?thesis by simp
  qed
  then show thesis by (rule that)
qed

lemma topo_sort_of_target_set:
  assumes "build_target_set glob view cfg = Inr target" and "unique_some (map sm_id view)"
  shows "mset (topo_sort_creates_and_updates target locals) = mset (hm_keys target)
    \<and> parents_first target (set (hm_keys locals)) (topo_sort_creates_and_updates target locals)"
proof
  show "mset (topo_sort_creates_and_updates target locals) = mset (hm_keys target)"
    by (simp add: topo_sort_creates_and_updates_def topo_loop_mset)
  obtain rank :: "string \<Rightarrow> nat" where "\<And>i tgt pid. map_of target i = Some tgt \<Longrightarrow>
      tm_parent_jmap_id tgt = Some pid \<Longrightarrow> pid \<in> set (map fst target) \<Longrightarrow> rank pid < rank i"
    using build_target_set_ranked [OF assms] by blast
  then show "parents_first target (set (hm_keys locals)) (topo_sort_creates_and_updates target locals)"
    unfolding topo_sort_creates_and_updates_def
    by (rule topo_loop_parents_first [where em = "hm_keys locals"])
      (auto simp: parents_first_def hm_keys_def)
qed

end
