(* ===== verification/Mailbox_Sync.thy ===== *)
theory Mailbox_Sync
  imports Mailbox_Tree_Facts
begin

text \<open>
  The half of \<open>sync/mailbox.rs\<close> that writes: the three-way diff between the target set and
  the stored mailboxes, its application to the Maildir tree and the database, and the
  removal of emails that no mailbox holds any more.
\<close>

section \<open>Definitions\<close>

record mailbox_sync_stats =
  mst_created :: nat
  mst_updated :: nat
  mst_deleted :: nat
  mst_orphaned_emails :: nat

definition no_mailbox_stats :: mailbox_sync_stats where
  "no_mailbox_stats =
     \<lparr>mst_created = 0, mst_updated = 0, mst_deleted = 0, mst_orphaned_emails = 0\<rparr>"

definition create_maildir :: "env \<Rightarrow> path \<Rightarrow> (world, unit) io" where
  "create_maildir v dir =
     foldE (\<lambda>sub _. sys_create_dir_all v (dir @ [sub])) [''cur'', ''new'', ''tmp''] ()"

definition parent_local_id ::
    "(string, mailbox_row) hmap \<Rightarrow> target_mailbox \<Rightarrow> database \<Rightarrow> string option" where
  "parent_local_id local_by_jmap tgt d =
     (case tm_parent_jmap_id tgt of
        None \<Rightarrow> None
      | Some pid \<Rightarrow>
          (case map_of local_by_jmap pid of
             Some r \<Rightarrow> Some (mb_id r)
           | None \<Rightarrow> map_option mb_id (get_mailbox_by_jmap_id d pid)))"

definition create_mailbox ::
    "env \<Rightarrow> path \<Rightarrow> (string, mailbox_row) hmap \<Rightarrow> bool \<Rightarrow> target_mailbox \<Rightarrow> (world, unit) io" where
  "create_mailbox v mail_root local_by_jmap dry_run tgt =
     bindE (db_query (parent_local_id local_by_jmap tgt)) (\<lambda>parent.
     bindE (generate_id v) (\<lambda>new_id.
       let row = \<lparr>mb_id = new_id, mb_jmap_id = Some (tm_jmap_id tgt), mb_name = tm_name tgt,
                  mb_parent_id = parent, mb_role = tm_role tgt, mb_sort_order = tm_sort_order tgt,
                  mb_path = tm_path tgt, mb_jmap_state = None\<rparr>
       in if dry_run then ret ()
          else bindE (create_maildir v (join_path mail_root (tm_path tgt))) (\<lambda>_.
               db_exec (\<lambda>d. insert_mailbox d row))))"

definition diff_and_build_update ::
    "mailbox_row \<Rightarrow> target_mailbox \<Rightarrow> (string, mailbox_row) hmap \<Rightarrow> mailbox_row option" where
  "diff_and_build_update existing tgt local_by_jmap =
     (let new_parent_id = (case tm_parent_jmap_id tgt of
            None \<Rightarrow> None
          | Some pid \<Rightarrow> map_option mb_id (map_of local_by_jmap pid));
          unchanged = (mb_name existing = tm_name tgt \<and> mb_parent_id existing = new_parent_id
            \<and> mb_role existing = tm_role tgt \<and> mb_sort_order existing = tm_sort_order tgt
            \<and> mb_path existing = tm_path tgt)
      in if unchanged then None
         else Some \<lparr>mb_id = mb_id existing, mb_jmap_id = mb_jmap_id existing,
                    mb_name = tm_name tgt, mb_parent_id = new_parent_id, mb_role = tm_role tgt,
                    mb_sort_order = tm_sort_order tgt, mb_path = tm_path tgt,
                    mb_jmap_state = mb_jmap_state existing\<rparr>)"

definition rename_mailbox_dir :: "env \<Rightarrow> path \<Rightarrow> path \<Rightarrow> (world, unit) io" where
  "rename_mailbox_dir v old_dir new_dir =
     bindE (if new_dir = [] then ret () else sys_create_dir_all v (butlast new_dir)) (\<lambda>_.
     bindE (sys_exists old_dir) (\<lambda>there.
       if there then sys_rename v old_dir new_dir else create_maildir v new_dir))"

definition update_mailbox ::
    "env \<Rightarrow> path \<Rightarrow> bool \<Rightarrow> mailbox_row \<Rightarrow> mailbox_row \<Rightarrow> (world, unit) io" where
  "update_mailbox v mail_root dry_run existing new_row =
     (if dry_run then ret ()
      else bindE (if mb_path existing \<noteq> mb_path new_row
                  then rename_mailbox_dir v (join_path mail_root (mb_path existing))
                         (join_path mail_root (mb_path new_row))
                  else ret ()) (\<lambda>_.
           db_exec (\<lambda>d. update_mailbox_row d new_row)))"

definition delete_mailbox :: "env \<Rightarrow> path \<Rightarrow> bool \<Rightarrow> mailbox_row \<Rightarrow> (world, unit) io" where
  "delete_mailbox v mail_root dry_run row =
     (let dir = join_path mail_root (mb_path row) in
      if dry_run then ret ()
      else bindE (sys_exists dir) (\<lambda>there.
           bindE (if there then sys_remove_dir_all v dir else ret ()) (\<lambda>_.
             db_exec (\<lambda>d. delete_mailbox_row d (mb_id row)))))"

text \<open>Longest path first; \<open>sort_by\<close> is stable.\<close>

definition mailboxes_to_delete ::
    "(string, target_mailbox) hmap \<Rightarrow> (string, mailbox_row) hmap \<Rightarrow> string list \<Rightarrow> mailbox_row list" where
  "mailboxes_to_delete target local_by_jmap excluded =
     sort_key (\<lambda>r. - int (length (mb_path r)))
       (map snd (filter (\<lambda>(jmap_id, row).
          jmap_id \<notin> set (hm_keys target) \<and> mb_path row \<notin> set excluded) local_by_jmap))"

definition create_or_update ::
    "env \<Rightarrow> path \<Rightarrow> (string, target_mailbox) hmap \<Rightarrow> (string, mailbox_row) hmap \<Rightarrow> bool
     \<Rightarrow> string \<Rightarrow> mailbox_sync_stats \<Rightarrow> (world, mailbox_sync_stats) io" where
  "create_or_update v mail_root target local_by_jmap dry_run jmap_id stats =
     (let tgt = the (map_of target jmap_id) in
      case map_of local_by_jmap jmap_id of
        None \<Rightarrow> bindE (create_mailbox v mail_root local_by_jmap dry_run tgt) (\<lambda>_.
          ret (stats\<lparr>mst_created := mst_created stats + 1\<rparr>))
      | Some existing \<Rightarrow>
          (case diff_and_build_update existing tgt local_by_jmap of
             None \<Rightarrow> ret stats
           | Some new_row \<Rightarrow> bindE (update_mailbox v mail_root dry_run existing new_row) (\<lambda>_.
               ret (stats\<lparr>mst_updated := mst_updated stats + 1\<rparr>))))"

definition apply_diff ::
    "env \<Rightarrow> path \<Rightarrow> (string, target_mailbox) hmap \<Rightarrow> (string, mailbox_row) hmap \<Rightarrow> string list
     \<Rightarrow> bool \<Rightarrow> (world, mailbox_sync_stats) io" where
  "apply_diff v mail_root target local_by_jmap exclude dry_run =
     bindE (foldE (\<lambda>row stats. bindE (delete_mailbox v mail_root dry_run row) (\<lambda>_.
              ret (stats\<lparr>mst_deleted := mst_deleted stats + 1\<rparr>)))
            (mailboxes_to_delete target local_by_jmap exclude) no_mailbox_stats)
       (foldE (create_or_update v mail_root target local_by_jmap dry_run)
         (topo_sort_creates_and_updates target local_by_jmap))"

definition cleanup_orphaned_emails :: "env \<Rightarrow> path \<Rightarrow> bool \<Rightarrow> (world, nat) io" where
  "cleanup_orphaned_emails v mail_root dry_run =
     bindE (db_query orphaned_emails) (\<lambda>orphaned.
     bindE (foldE (\<lambda>(email_id, file_path) _.
         let abs = (if prefix ''/'' file_path then join_path [] file_path
                    else join_path mail_root file_path) in
         if dry_run then ret ()
         else bindE (sys_exists abs) (\<lambda>there.
              bindE (if there then ignore_err (sys_remove_file v abs) else ret ()) (\<lambda>_.
                db_exec (\<lambda>d. delete_email_row d email_id)))) orphaned ())
       (\<lambda>_. ret (length orphaned)))"

definition local_mailboxes_by_jmap :: "database \<Rightarrow> (string, mailbox_row) hmap" where
  "local_mailboxes_by_jmap d =
     hm_collect (List.map_filter (\<lambda>m. map_option (\<lambda>j. (j, m)) (mb_jmap_id m)) (get_all_mailboxes d))"

text \<open>A relative Maildir path is taken from the root of the file system of the model.\<close>

definition mail_root_of :: "mail_config \<Rightarrow> path" where
  "mail_root_of cfg = join_path [] (mail_path cfg)"

text \<open>\<open>mailbox_get\<close> is the answer of the server to \<open>Mailbox/get\<close>, \<open>glob\<close> compiles a pattern.\<close>

definition sync_mailboxes ::
    "env \<Rightarrow> (string \<Rightarrow> err + (string \<Rightarrow> bool)) \<Rightarrow> err + server_mailbox list \<Rightarrow> account \<Rightarrow> bool
     \<Rightarrow> (world, mailbox_row list) io" where
  "sync_mailboxes v glob mailbox_get acct dry_run =
     (case mail acct of
        None \<Rightarrow> throw (NoMailSection (acct_name acct))
      | Some mail_cfg \<Rightarrow>
          bindE (liftE mailbox_get) (\<lambda>server_view.
          bindE (liftE (build_target_set glob server_view mail_cfg)) (\<lambda>target_set.
          bindE (db_query local_mailboxes_by_jmap) (\<lambda>local_by_jmap.
          bindE (apply_diff v (mail_root_of mail_cfg) (iterate v 0 target_set)
                  (iterate v 1 local_by_jmap) (exclude_mailboxes mail_cfg) dry_run) (\<lambda>_.
          bindE (cleanup_orphaned_emails v (mail_root_of mail_cfg) dry_run) (\<lambda>_.
            db_query get_all_mailboxes))))))"

section \<open>What the synchronisation of mailboxes keeps\<close>

lemmas mailbox_sync_defs =
  create_maildir_def create_mailbox_def rename_mailbox_dir_def update_mailbox_def
  delete_mailbox_def create_or_update_def apply_diff_def cleanup_orphaned_emails_def
  sync_mailboxes_def

lemma sync_mailboxes_db_wf [keeps_rules]:
  "keeps (\<lambda>w. db_wf (db w)) (sync_mailboxes v glob view acct dry_run)"
  unfolding mailbox_sync_defs Let_def by (intro keeps_rules)

lemma sync_mailboxes_dry [keeps_rules]:
  "keeps (\<lambda>w. Q (db w) (files w) (set_requests w)) (sync_mailboxes v glob view acct True)"
  unfolding mailbox_sync_defs Let_def if_True by (intro keeps_rules)

end
