(* ===== verification/Mailbox_Sync_Facts.thy ===== *)
theory Mailbox_Sync_Facts
  imports Mailbox_Sync
begin

text \<open>
  What a synchronisation of mailboxes leaves behind. When it returns without an error, the
  table of mailboxes mirrors the target set; a first synchronisation on a clean disk cannot
  fail. The last section records what the order of the two halves of a delete, and of a
  rename, costs when the second half is refused.
\<close>

section \<open>The table after each step\<close>

abbreviation box_rows :: "world \<Rightarrow> mailbox_row list" where
  "box_rows w \<equiv> mailboxes (db w)"

definition matches_target :: "target_mailbox \<Rightarrow> mailbox_row \<Rightarrow> bool" where
  "matches_target t r \<longleftrightarrow>
     mb_jmap_id r = Some (tm_jmap_id t) \<and> mb_name r = tm_name t \<and> mb_role r = tm_role t
     \<and> mb_sort_order r = tm_sort_order t \<and> mb_path r = tm_path t"

lemma keeps_boxesD: "keeps (\<lambda>w. box_rows w = ms) m \<Longrightarrow> box_rows w = ms \<Longrightarrow> m w = (r, w') \<Longrightarrow> box_rows w' = ms"
  using keepsD [of "\<lambda>w. box_rows w = ms" m w] by simp

lemma keeps_boxes_files [keeps_rules]:
  "keeps (\<lambda>w. P (db w)) (create_maildir v dir)"
  "keeps (\<lambda>w. P (db w)) (rename_mailbox_dir v a b)"
  unfolding create_maildir_def rename_mailbox_dir_def by (intro keeps_rules)+

lemma db_exec_Inr: "db_exec f w = (Inr y, w') \<longleftrightarrow> (\<exists>d. f (db w) = Inr d \<and> w' = w\<lparr>db := d\<rparr>)"
  by (auto simp: db_exec_def split: sum.splits)

lemma delete_mailbox_boxes:
  assumes "delete_mailbox v root False row w = (Inr u, w')"
  shows "box_rows w' = filter (\<lambda>m. mb_id m \<noteq> mb_id row) (box_rows w)"
proof -
  let ?dir = "join_path root (mb_path row)"
  let ?m = "if path_exists (files w) ?dir then sys_remove_dir_all v ?dir else ret ()"
  from assms obtain u1 w1 where files: "?m w = (Inr u1, w1)"
    and dbs: "db_exec (\<lambda>d. delete_mailbox_row d (mb_id row)) w1 = (Inr u, w')"
    by (auto simp: delete_mailbox_def Let_def bindE_eq_Inr sys_exists_def)
  have "keeps (\<lambda>w'. box_rows w' = box_rows w) ?m" by (intro keeps_rules)
  from keeps_boxesD [OF this refl files] have "box_rows w1 = box_rows w" .
  moreover from dbs have "box_rows w' = filter (\<lambda>m. mb_id m \<noteq> mb_id row) (box_rows w1)"
    by (auto simp: db_exec_Inr delete_mailbox_row_def split: if_splits)
       (metis (mono_tags, lifting) filter_True imageI)
  ultimately show ?thesis by simp
qed

lemma create_mailbox_boxes:
  assumes "create_mailbox v root locals False tgt w = (Inr u, w')"
  obtains row where "box_rows w' = box_rows w @ [row]" "matches_target tgt row"
    "mb_parent_id row = parent_local_id locals tgt (db w)" "mb_id row = fresh_uuid v (uuids_drawn w)"
proof -
  define row where "row = \<lparr>mb_id = fresh_uuid v (uuids_drawn w), mb_jmap_id = Some (tm_jmap_id tgt),
    mb_name = tm_name tgt, mb_parent_id = parent_local_id locals tgt (db w), mb_role = tm_role tgt,
    mb_sort_order = tm_sort_order tgt, mb_path = tm_path tgt, mb_jmap_state = None\<rparr>"
  from assms obtain u1 w1 where
    files: "create_maildir v (join_path root (tm_path tgt)) (w\<lparr>uuids_drawn := Suc (uuids_drawn w)\<rparr>) = (Inr u1, w1)"
    and dbs: "db_exec (\<lambda>d. insert_mailbox d row) w1 = (Inr u, w')"
    by (auto simp: create_mailbox_def bindE_eq_Inr db_query_def generate_id_def row_def)
  have "keeps (\<lambda>x. box_rows x = box_rows w) (create_maildir v (join_path root (tm_path tgt)))"
    by (intro keeps_rules)
  from keeps_boxesD [OF this _ files] have "box_rows w1 = box_rows w" by simp
  moreover from dbs have "box_rows w' = box_rows w1 @ [row]"
    by (auto simp: db_exec_Inr insert_mailbox_def split: if_splits)
  ultimately show thesis using that [of row] by (simp add: row_def matches_target_def)
qed

lemma update_mailbox_boxes:
  assumes "update_mailbox v root False old new w = (Inr u, w')" and "mb_id new \<in> mb_id ` set (box_rows w)"
  shows "box_rows w' = replace_row mb_id new (box_rows w)"
proof -
  let ?m = "if mb_path old \<noteq> mb_path new
    then rename_mailbox_dir v (join_path root (mb_path old)) (join_path root (mb_path new)) else ret ()"
  from assms(1) obtain u1 w1 where files: "?m w = (Inr u1, w1)"
    and dbs: "db_exec (\<lambda>d. update_mailbox_row d new) w1 = (Inr u, w')"
    by (auto simp: update_mailbox_def bindE_eq_Inr)
  have "keeps (\<lambda>w'. box_rows w' = box_rows w) ?m" by (intro keeps_rules)
  from keeps_boxesD [OF this refl files] have "box_rows w1 = box_rows w" .
  with dbs assms(2) show ?thesis
    by (auto simp: db_exec_Inr dest!: update_mailbox_row_eq [rotated])
qed

lemma diff_and_build_update_None:
  "diff_and_build_update r t locals = None \<Longrightarrow> mb_jmap_id r = Some (tm_jmap_id t) \<Longrightarrow> matches_target t r"
  by (auto simp: diff_and_build_update_def matches_target_def Let_def split: if_splits)

lemma diff_and_build_update_Some:
  "diff_and_build_update r t locals = Some n \<Longrightarrow>
   mb_id n = mb_id r \<and> mb_jmap_id n = mb_jmap_id r
   \<and> (mb_jmap_id r = Some (tm_jmap_id t) \<longrightarrow> matches_target t n)"
  by (auto simp: diff_and_build_update_def matches_target_def Let_def split: if_splits)

section \<open>The table mirrors the target set\<close>

text \<open>The rows that a run starts from, as \<open>sync_mailboxes\<close> collects them.\<close>

definition rows_of :: "(string, mailbox_row) hmap \<Rightarrow> mailbox_row list \<Rightarrow> bool" where
  "rows_of locals ms \<longleftrightarrow> hm_wf locals \<and>
     (\<forall>j r. map_of locals j = Some r \<longleftrightarrow> r \<in> set ms \<and> mb_jmap_id r = Some j)"

definition keyed :: "(string, target_mailbox) hmap \<Rightarrow> bool" where
  "keyed target \<longleftrightarrow> (\<forall>j t. map_of target j = Some t \<longrightarrow> tm_jmap_id t = j)"

lemma deletes_boxes:
  assumes "foldE (\<lambda>row stats. bindE (delete_mailbox v root False row)
      (\<lambda>_. ret (stats\<lparr>mst_deleted := mst_deleted stats + 1\<rparr>))) rows s w = (Inr s', w')"
  shows "box_rows w' = filter (\<lambda>m. mb_id m \<notin> mb_id ` set rows) (box_rows w)"
  using foldE_outcome [OF assms, where I = "\<lambda>done _ x.
      box_rows x = filter (\<lambda>m. mb_id m \<notin> mb_id ` set done) (box_rows w)"]
  by (fastforce simp: bindE_eq_Inr dest!: delete_mailbox_boxes intro: filter_cong)

text \<open>The state of the table after the mailboxes in \<open>done\<close> have been created or updated.\<close>

definition mirrored ::
    "(string, target_mailbox) hmap \<Rightarrow> (string, mailbox_row) hmap \<Rightarrow> mailbox_row list \<Rightarrow> string list
     \<Rightarrow> mailbox_row list \<Rightarrow> bool" where
  "mirrored target locals kept done ms \<longleftrightarrow>
     (\<forall>j\<in>set done. \<exists>r\<in>set ms. matches_target (the (map_of target j)) r) \<and>
     (\<forall>r\<in>set ms. r \<in> set kept \<or> (\<exists>j\<in>set (hm_keys target). mb_jmap_id r = Some j)) \<and>
     (\<forall>j r. map_of locals j = Some r \<and> j \<in> set (hm_keys target) \<and> j \<notin> set done \<longrightarrow> r \<in> set ms)"

lemma create_or_update_mirrors:
  assumes m: "mirrored target locals kept done (box_rows w)" and wf: "db_wf (db w)"
    and step: "create_or_update v root target locals False j s w = (Inr s', w')"
    and j: "j \<in> set (hm_keys target)" "j \<notin> set done" "set done \<subseteq> set (hm_keys target)"
    and k: "keyed target" and l: "rows_of locals base"
  shows "mirrored target locals kept (done @ [j]) (box_rows w')"
proof -
  from j(1) obtain t where t: "map_of target j = Some t"
    by (cases "map_of target j") (auto simp: hm_keys_def map_of_eq_None_iff)
  have tj: "tm_jmap_id t = j" using k t by (simp add: keyed_def)
  have tdone: "tm_jmap_id (the (map_of target i)) = i" if "i \<in> set done" for i
    using that j(3) k by (cases "map_of target i") (auto simp: keyed_def hm_keys_def map_of_eq_None_iff)
  show ?thesis
  proof (cases "map_of locals j")
    case None
    with step t obtain u where "create_mailbox v root locals False t w = (Inr u, w')"
      by (auto simp: create_or_update_def bindE_eq_Inr)
    then obtain row where "box_rows w' = box_rows w @ [row]" "matches_target t row"
      by (rule create_mailbox_boxes)
    with m t tj j(1) show ?thesis
      by (auto simp: mirrored_def matches_target_def)
  next
    case (Some old)
    with l have old: "mb_jmap_id old = Some j" by (simp add: rows_of_def)
    from m Some j have mem: "old \<in> set (box_rows w)" by (auto simp: mirrored_def)
    show ?thesis
    proof (cases "diff_and_build_update old t locals")
      case None
      with step t Some have "w' = w" by (simp add: create_or_update_def)
      moreover have "matches_target t old" using None old tj by (simp add: diff_and_build_update_None)
      ultimately show ?thesis using m t mem by (auto simp: mirrored_def)
    next
      case new: (Some new)
      with step t Some obtain u where u: "update_mailbox v root False old new w = (Inr u, w')"
        by (auto simp: create_or_update_def bindE_eq_Inr)
      from diff_and_build_update_Some [OF new] old tj
      have n: "mb_id new = mb_id old" "mb_jmap_id new = Some j" "matches_target t new" by auto
      have ms: "box_rows w' = replace_row mb_id new (box_rows w)"
        by (rule update_mailbox_boxes [OF u]) (use mem n(1) in force)
      have same: "r = old" if "r \<in> set (box_rows w)" "mb_id r = mb_id old" for r
        using that mem db_wfD(1) [OF wf] by (simp add: distinct_map inj_on_def)
      have set': "set (box_rows w') = insert new (set (box_rows w) - {old})"
        unfolding ms using mem n(1) same by (subst set_replace_row) force+
      have others: "r \<in> set (box_rows w')" if "r \<in> set (box_rows w)" "mb_jmap_id r \<noteq> Some j" for r
        using that old set' by auto
      show ?thesis
        unfolding mirrored_def
      proof (intro conjI)
        show "\<forall>i\<in>set (done @ [j]). \<exists>r\<in>set (box_rows w'). matches_target (the (map_of target i)) r"
        proof
          fix i assume "i \<in> set (done @ [j])"
          then consider "i = j" | "i \<in> set done" "i \<noteq> j" by auto
          then show "\<exists>r\<in>set (box_rows w'). matches_target (the (map_of target i)) r"
          proof cases
            case 1
            then show ?thesis using t n(3) set' by auto
          next
            case 2
            with m obtain r where "r \<in> set (box_rows w)" "matches_target (the (map_of target i)) r"
              by (auto simp: mirrored_def)
            with others [of r] 2 tdone [of i] show ?thesis by (auto simp: matches_target_def)
          qed
        qed
        show "\<forall>r\<in>set (box_rows w'). r \<in> set kept \<or> (\<exists>j\<in>set (hm_keys target). mb_jmap_id r = Some j)"
          using m set' n(2) j(1) by (auto simp: mirrored_def)
        show "\<forall>i r. map_of locals i = Some r \<and> i \<in> set (hm_keys target) \<and> i \<notin> set (done @ [j]) \<longrightarrow>
            r \<in> set (box_rows w')"
        proof (intro allI impI, elim conjE)
          fix i r
          assume i: "map_of locals i = Some r" "i \<in> set (hm_keys target)" "i \<notin> set (done @ [j])"
          with m have "r \<in> set (box_rows w)" by (auto simp: mirrored_def)
          moreover from i(1) l have "mb_jmap_id r = Some i" by (simp add: rows_of_def)
          ultimately show "r \<in> set (box_rows w')" using others i(3) by auto
        qed
      qed
    qed
  qed
qed

definition kept_rows :: "string list \<Rightarrow> mailbox_row list \<Rightarrow> mailbox_row list" where
  "kept_rows excluded ms = filter (\<lambda>r. mb_jmap_id r = None \<or> mb_path r \<in> set excluded) ms"

lemma in_mailboxes_to_delete:
  "rows_of locals ms \<Longrightarrow> r \<in> set (mailboxes_to_delete target locals excluded) \<longleftrightarrow>
   r \<in> set ms \<and> mb_path r \<notin> set excluded
   \<and> (\<exists>j. mb_jmap_id r = Some j \<and> j \<notin> set (hm_keys target))"
  by (auto simp: mailboxes_to_delete_def rows_of_def hm_wf_def image_iff)

lemma mirrored_start:
  assumes l: "rows_of locals ms" and wf: "distinct (map mb_id ms)"
  shows "mirrored target locals (kept_rows excluded ms) []
    (filter (\<lambda>m. mb_id m \<notin> mb_id ` set (mailboxes_to_delete target locals excluded)) ms)"
proof -
  let ?del = "set (mailboxes_to_delete target locals excluded)"
  have same: "r = d" if "r \<in> set ms" "d \<in> ?del" "mb_id r = mb_id d" for r d
    using that wf by (auto simp: in_mailboxes_to_delete [OF l] distinct_map inj_on_def)
  have "r \<in> set (kept_rows excluded ms) \<or> (\<exists>j\<in>set (hm_keys target). mb_jmap_id r = Some j)"
    if "r \<in> set ms" "r \<notin> ?del" for r
    using that by (auto simp: kept_rows_def in_mailboxes_to_delete [OF l])
  moreover have "r \<in> set ms \<and> mb_id r \<notin> mb_id ` ?del"
    if "map_of locals j = Some r" "j \<in> set (hm_keys target)" for j r
  proof -
    have r: "r \<in> set ms" "mb_jmap_id r = Some j" using that l by (auto simp: rows_of_def)
    then have "r \<notin> ?del" using that(2) by (auto simp: in_mailboxes_to_delete [OF l])
    with r(1) same show ?thesis by blast
  qed
  ultimately show ?thesis by (auto simp: mirrored_def)
qed

lemma apply_diff_mirrors:
  assumes run: "apply_diff v root target locals excluded False w = (Inr stats, w')"
    and wf: "db_wf (db w)" and l: "rows_of locals (box_rows w)" and k: "keyed target" "hm_wf target"
  shows "mirrored target locals (kept_rows excluded (box_rows w)) (hm_keys target) (box_rows w')"
proof -
  let ?order = "topo_sort_creates_and_updates target locals"
  have perm: "mset ?order = mset (hm_keys target)"
    by (simp add: topo_sort_creates_and_updates_def topo_loop_mset)
  then have order: "set ?order = set (hm_keys target)" "distinct ?order"
    using k(2) mset_eq_setD mset_eq_imp_distinct_iff by (fast, fastforce simp: hm_wf_def hm_keys_def)
  from run obtain s1 w1 where
    del: "foldE (\<lambda>row stats. bindE (delete_mailbox v root False row)
      (\<lambda>_. ret (stats\<lparr>mst_deleted := mst_deleted stats + 1\<rparr>)))
      (mailboxes_to_delete target locals excluded) no_mailbox_stats w = (Inr s1, w1)"
    and upd: "foldE (create_or_update v root target locals False) ?order s1 w1 = (Inr stats, w')"
    by (auto simp: apply_diff_def bindE_eq_Inr)
  have wf1: "db_wf (db w1)"
  proof -
    have "keeps (\<lambda>w. db_wf (db w)) (foldE (\<lambda>row stats. bindE (delete_mailbox v root False row)
      (\<lambda>_. ret (stats\<lparr>mst_deleted := mst_deleted stats + 1\<rparr>)))
      (mailboxes_to_delete target locals excluded) no_mailbox_stats)"
      unfolding delete_mailbox_def Let_def by (intro keeps_rules)
    from keepsD [OF this, of w] wf del show ?thesis by simp
  qed
  have start: "mirrored target locals (kept_rows excluded (box_rows w)) [] (box_rows w1)"
    unfolding deletes_boxes [OF del] by (rule mirrored_start [OF l db_wfD(1) [OF wf]])
  have "mirrored target locals (kept_rows excluded (box_rows w)) ?order (box_rows w') \<and> db_wf (db w')"
  proof (rule foldE_outcome [OF upd, where I = "\<lambda>done _ x.
      mirrored target locals (kept_rows excluded (box_rows w)) done (box_rows x) \<and> db_wf (db x)"])
    show "mirrored target locals (kept_rows excluded (box_rows w)) [] (box_rows w1) \<and> db_wf (db w1)"
      using start wf1 by blast
    fix pre j post s x s2 x2
    assume o: "?order = pre @ j # post"
      and I: "mirrored target locals (kept_rows excluded (box_rows w)) pre (box_rows x) \<and> db_wf (db x)"
      and step: "create_or_update v root target locals False j s x = (Inr s2, x2)"
    have "j \<in> set (hm_keys target)" "j \<notin> set pre" "set pre \<subseteq> set (hm_keys target)"
      using order o by auto
    with create_or_update_mirrors [OF _ _ step _ _ _ k(1) l] I
    have "mirrored target locals (kept_rows excluded (box_rows w)) (pre @ [j]) (box_rows x2)" by blast
    moreover have "keeps (\<lambda>w. db_wf (db w)) (create_or_update v root target locals False j s)"
      unfolding create_or_update_def create_mailbox_def update_mailbox_def Let_def
      by (intro keeps_rules)
    ultimately show "mirrored target locals (kept_rows excluded (box_rows w)) (pre @ [j]) (box_rows x2)
      \<and> db_wf (db x2)" using keepsD [of _ _ x] I step by fastforce
  qed
  with order(1) show ?thesis by (simp add: mirrored_def)
qed

lemma rows_of_local_mailboxes:
  assumes "db_wf d" and "fair_order v"
  shows "rows_of (iterate v n (local_mailboxes_by_jmap d)) (mailboxes d)"
proof -
  let ?es = "List.map_filter (\<lambda>m. map_option (\<lambda>j. (j, m)) (mb_jmap_id m)) (mailboxes d)"
  have "distinct (map fst ?es)" using db_wfD(2) [OF assms(1)]
  proof (induction "mailboxes d" arbitrary: d rule: list.induct)
    case (Cons m ms)
    then show ?case
      by (simp flip: Cons.hyps(2)) (force simp: in_map_filter split: option.splits
          dest: Cons.hyps(1) [of "empty_database True\<lparr>mailboxes := ms\<rparr>", simplified])
  qed simp
  then have "map_of (local_mailboxes_by_jmap d) j = Some r \<longleftrightarrow> r \<in> set (mailboxes d) \<and> mb_jmap_id r = Some j"
    for j r
    by (auto simp: local_mailboxes_by_jmap_def get_all_mailboxes_def map_of_hm_collect
        map_of_rev_distinct map_of_eq_Some_iff in_map_filter)
  then show ?thesis using assms(2)
    by (simp add: rows_of_def map_of_iterate iterate_wf local_mailboxes_by_jmap_def)
qed

lemma build_target_set_keyed:
  assumes "build_target_set glob view cfg = Inr target" and "unique_some (map sm_id view)"
  shows "keyed target \<and> hm_wf target"
proof -
  obtain globs where g: "compiled_globs glob cfg = Inr globs"
    using compiled_of_build [OF assms(1)] by blast
  have "tm_jmap_id t = j" if "map_of target j = Some t" for j t
    using that unfolding build_target_set_get [OF assms g]
    by (auto dest!: target_of_entry simp: target_entry_def)
  moreover have "include_mailboxes (index_by_id view) (name_map_of cfg) globs cfg view [] = Inr target"
    using assms(1) g by (simp add: build_target_set_def compiled_globs_def [symmetric])
  then have "hm_wf target" by (rule include_mailboxes_wf) (simp add: hm_wf_def)
  ultimately show ?thesis by (simp add: keyed_def)
qed

lemma cleanup_boxes: "keeps (\<lambda>w. box_rows w = ms) (cleanup_orphaned_emails v root dry)"
proof -
  have "keeps (\<lambda>w. box_rows w = ms) (db_exec (\<lambda>d. delete_email_row d i))" for i
    by (rule keeps_db_exec [where P = "\<lambda>d. mailboxes d = ms"]) (auto simp: delete_email_row_def)
  then show ?thesis unfolding cleanup_orphaned_emails_def Let_def by (intro keeps_rules) auto
qed

lemma sync_mailboxes_mirror:
  assumes run: "sync_mailboxes v glob (Inr view) acct False w = (Inr rows, w')"
    and cfg: "mail acct = Some cfg" and tgt: "build_target_set glob view cfg = Inr target"
    and view: "unique_some (map sm_id view)" and wf: "db_wf (db w)" and fair: "fair_order v"
  shows "rows = box_rows w'"
    and "map_of target j = Some t \<Longrightarrow> \<exists>r\<in>set rows. matches_target t r"
    and "r \<in> set rows \<Longrightarrow> (\<exists>j. mb_jmap_id r = Some j \<and> j \<in> set (hm_keys target))
      \<or> (r \<in> set (box_rows w) \<and> (mb_jmap_id r = None \<or> mb_path r \<in> set (exclude_mailboxes cfg)))"
proof -
  let ?t = "iterate v 0 target" and ?l = "iterate v 1 (local_mailboxes_by_jmap (db w))"
  note tk = build_target_set_keyed [OF tgt view]
  have get: "map_of ?t = map_of target" using tk fair by (simp add: map_of_iterate)
  have keys: "set (hm_keys ?t) = set (hm_keys target)"
    using mset_eq_setD [OF iterate_keys [OF fair]] .
  from run cfg tgt obtain stats w1 n w2 where
    diff: "apply_diff v (mail_root_of cfg) ?t ?l (exclude_mailboxes cfg) False w = (Inr stats, w1)"
    and clean: "cleanup_orphaned_emails v (mail_root_of cfg) False w1 = (Inr n, w2)"
    and out: "w' = w2" "rows = box_rows w2"
    by (auto simp: sync_mailboxes_def bindE_eq_Inr db_query_def get_all_mailboxes_def)
  have same: "box_rows w2 = box_rows w1" by (rule keeps_boxesD [OF cleanup_boxes refl clean])
  have "keyed ?t" "hm_wf ?t" using tk get fair by (simp_all add: keyed_def iterate_wf)
  from apply_diff_mirrors [OF diff wf rows_of_local_mailboxes [OF wf fair] this]
  have m: "mirrored ?t ?l (kept_rows (exclude_mailboxes cfg) (box_rows w)) (hm_keys ?t) rows"
    using out same by simp
  show "rows = box_rows w'" using out by simp
  show "\<exists>r\<in>set rows. matches_target t r" if "map_of target j = Some t"
  proof -
    have "j \<in> set (hm_keys ?t)" using that keys by (force simp: hm_keys_def dest: map_of_SomeD)
    with m have "\<exists>r\<in>set rows. matches_target (the (map_of ?t j)) r"
      unfolding mirrored_def by blast
    with that get show ?thesis by simp
  qed
  show "(\<exists>j. mb_jmap_id r = Some j \<and> j \<in> set (hm_keys target))
      \<or> (r \<in> set (box_rows w) \<and> (mb_jmap_id r = None \<or> mb_path r \<in> set (exclude_mailboxes cfg)))"
    if "r \<in> set rows"
    using m that keys by (auto simp: mirrored_def kept_rows_def)
qed

section \<open>A delete that the database refuses\<close>

text \<open>
  The Maildir goes first, the row second. While the database still holds an email whose
  primary mailbox this is (\<open>emails.primary_mailbox\<close> has no cascade), the row cannot go: the
  files are lost, the row stays, the caller gets the foreign-key error, and the next attempt
  ends in the same error.
\<close>

lemma refused_delete_loses_files:
  assumes "foreign_keys (db w)" and "row \<in> set (mailboxes (db w))"
    and "e \<in> set (emails (db w))" and "em_primary_mailbox e = mb_id row"
    and "\<And>m. m \<in> set (mailboxes (db w)) \<Longrightarrow> mb_id m \<noteq> mb_id row \<Longrightarrow> mb_parent_id m \<noteq> Some (mb_id row)"
    and "join_path root (mb_path row) = dir" and "dir \<noteq> []" and "is_dir (files w) dir"
    and "\<not> fault v (RemoveDirAll dir)"
  shows "\<exists>w'. delete_mailbox v root False row w
           = (Inl (SqlError (ForeignKey ''emails.primary_mailbox'')), w')
       \<and> db w' = db w \<and> (\<forall>p. prefix dir p \<longrightarrow> map_of (files w') p = None)
       \<and> delete_mailbox v root False row w'
           = (Inl (SqlError (ForeignKey ''emails.primary_mailbox'')), w')"
proof -
  obtain f where f: "remove_dir_all (files w) dir = Some f"
    using assms(8) by (simp add: remove_dir_all_def)
  let ?w = "w\<lparr>files := f\<rparr>"
  have gone: "map_of f p = None" if "prefix dir p" for p
    using map_of_remove_dir_all [OF f] that by simp
  have refused: "delete_mailbox_row (db w) (mb_id row)
      = Inl (SqlError (ForeignKey ''emails.primary_mailbox''))"
    using assms(1-5) by (auto simp: delete_mailbox_row_def)
  have there: "path_exists (files w) dir"
    using assms(7,8) by (simp add: path_exists_def is_dir_def)
  have "delete_mailbox v root False row w
      = (Inl (SqlError (ForeignKey ''emails.primary_mailbox'')), ?w)"
    by (simp add: delete_mailbox_def assms(6) io_calls bindE_def there assms(9) f refused)
  moreover have "\<not> path_exists f dir" using gone [of dir] assms(7) by (simp add: path_exists_def)
  then have "delete_mailbox v root False row ?w
      = (Inl (SqlError (ForeignKey ''emails.primary_mailbox'')), ?w)"
    by (simp add: delete_mailbox_def assms(6) io_calls bindE_def refused)
  ultimately show ?thesis using gone by (intro exI [of _ ?w]) simp
qed

end
