(* ===== verification/Email_Files.thy ===== *)
theory Email_Files
  imports Email_Outcome Mailbox_Sync_Facts
begin

text \<open>
  The files of the emails: a message appears under its final name complete or not at all, a
  downloaded message is settled (the next pass neither pushes nor rewrites it), and what a
  rename of a mailbox directory does to the messages below it.
\<close>

section \<open>Names\<close>

lemma show_nat_digits: "c \<in> set (show_nat n) \<Longrightarrow> 48 \<le> (of_char c :: nat) \<and> (of_char c :: nat) \<le> 57"
proof (induction n rule: show_nat.induct)
  case (1 n)
  have d: "48 \<le> (of_char (char_of (48 + k :: nat)) :: nat) \<and> (of_char (char_of (48 + k :: nat)) :: nat) \<le> 57"
    if "k < 10" for k using that by simp
  from 1 show ?case by (subst (asm) show_nat.simps) (auto split: if_splits simp: d)
qed

lemma show_int_plain: "c \<in> set (show_int i) \<Longrightarrow> c \<noteq> CHR ''/'' \<and> c \<noteq> CHR '':''"
  using show_nat_digits by (fastforce simp: show_int_def split: if_splits)

definition message_base :: "int \<Rightarrow> string \<Rightarrow> string" where
  "message_base ts uuid = show_int ts @ ''.'' @ uuid"

definition message_name :: "int \<Rightarrow> string \<Rightarrow> string \<Rightarrow> string" where
  "message_name ts uuid flags = message_base ts uuid @ '':2,'' @ flags"

lemma message_name_plain:
  "CHR ''/'' \<notin> set uuid \<Longrightarrow> CHR ''/'' \<notin> set flags \<Longrightarrow> plain_component (message_name ts uuid flags)"
proof -
  assume a: "CHR ''/'' \<notin> set uuid" "CHR ''/'' \<notin> set flags"
  have "length (message_name ts uuid flags) > 2" by (simp add: message_name_def message_base_def)
  with a show ?thesis
    by (auto simp: plain_component_def message_name_def message_base_def dest: show_int_plain)
qed

lemma message_name_base:
  "CHR '':'' \<notin> set flags \<Longrightarrow> filename_base (message_name ts uuid flags) = message_base ts uuid"
  using rsplit_flags [of flags "message_base ts uuid"] by (simp add: filename_base_def message_name_def)

lemma message_name_flags:
  "CHR '':'' \<notin> set flags \<Longrightarrow> filename_flags (x @ message_name ts uuid flags) = flags"
  using rsplit_flags [of flags "x @ message_base ts uuid"] by (simp add: filename_flags_def message_name_def)

lemma message_path:
  assumes "pp \<noteq> []" and "plain_component name"
  shows "join_path root (pp @ ''/cur/'' @ name) = join_path root pp @ [''cur'', name]"
proof -
  have "join_path root ((pp @ ''/'' @ ''cur'') @ ''/'' @ name) = join_path root (pp @ ''/'' @ ''cur'') @ [name]"
    by (rule join_path_append) (use assms in auto)
  also have "join_path root (pp @ ''/'' @ ''cur'') = join_path root pp @ [''cur'']"
    by (rule join_path_append) (use assms in \<open>auto simp: plain_component_def\<close>)
  finally show ?thesis by simp
qed

section \<open>All or nothing\<close>

text \<open>The file system \<open>f\<close> differs from \<open>f0\<close> at \<open>tmp\<close> and by new directories above \<open>ds\<close>.\<close>

definition prepared :: "fs \<Rightarrow> path \<Rightarrow> path list \<Rightarrow> fs \<Rightarrow> bool" where
  "prepared f0 tmp ds f \<longleftrightarrow>
     (\<forall>p. p \<noteq> tmp \<longrightarrow> map_of f p = map_of f0 p
       \<or> (map_of f0 p = None \<and> map_of f p = Some Dir \<and> (\<exists>d\<in>set ds. prefix p d)))"

lemma prepared_steps:
  "d \<in> set ds \<Longrightarrow> keeps (\<lambda>x. prepared f0 tmp ds (files x)) (sys_create_dir_all v d)"
  "keeps (\<lambda>x. prepared f0 tmp ds (files x)) (sys_write v tmp c)"
  unfolding sys_create_dir_all_def sys_write_def
  by (rule keeps_sys_files; simp add: prepared_def map_of_create_dir_all map_of_write_file; metis)+

lemma download_files:
  assumes run: "download_and_write v cl blob root pp ts flags False w = (r, w')"
    and pp: "pp \<noteq> []" and uuid: "uuid = fresh_uuid v (uuids_drawn w)" "CHR ''/'' \<notin> set uuid"
    and flags: "CHR ''/'' \<notin> set flags"
  defines "dir \<equiv> join_path root pp"
  defines "final \<equiv> dir @ [''cur'', message_name ts uuid flags]"
  defines "tmp \<equiv> dir @ [''tmp'', message_base ts uuid]"
  defines "ok \<equiv> prepared (files w) tmp [dir @ [''tmp''], dir @ [''cur'']]"
  shows "(\<exists>e. r = Inl e \<and> ok (files w')) \<or>
     (\<exists>bytes f. r = Inr (pp @ ''/cur/'' @ message_name ts uuid flags, length bytes)
        \<and> cl_download cl blob = Inr bytes \<and> ok f \<and> is_dir f (dir @ [''cur''])
        \<and> map_of (files w') = (map_of f)(tmp := None, final \<mapsto> File bytes) \<and> db w' = db w
        \<and> uuids_drawn w' = Suc (uuids_drawn w))"
proof (cases "cl_download cl blob")
  case (Inl e)
  then have "r = Inl e" "w' = w" using run by (auto simp: download_and_write_def bindE_def)
  then show ?thesis by (simp add: ok_def prepared_def)
next
  case (Inr bytes)
  let ?w0 = "w\<lparr>uuids_drawn := Suc (uuids_drawn w)\<rparr>"
  let ?prep = "bindE (sys_create_dir_all v (dir @ [''tmp''])) (\<lambda>_.
    bindE (sys_create_dir_all v (dir @ [''cur''])) (\<lambda>_. sys_write v tmp bytes))"
  have fin: "join_path root (pp @ ''/cur/'' @ message_name ts uuid flags) = final"
    using message_path [OF pp message_name_plain [OF uuid(2) flags]] by (simp add: final_def dir_def)
  have run': "bindE ?prep (\<lambda>_. bindE (sys_rename v tmp final)
      (\<lambda>_. ret (pp @ ''/cur/'' @ message_name ts uuid flags, length bytes))) ?w0 = (r, w')"
    using run Inr fin [unfolded message_name_def message_base_def]
    by (simp add: download_and_write_def bindE_def generate_id_def Let_def uuid(1) dir_def tmp_def
        final_def message_name_def message_base_def split: prod.splits sum.splits)
  have "keeps (\<lambda>x. ok (files x)) ?prep"
    unfolding ok_def by (intro keeps_bindE prepared_steps) auto
  then have ok1: "ok (files (snd (?prep ?w0)))"
    by (rule keepsD) (simp add: ok_def prepared_def)
  have dbs: "keeps (\<lambda>x. db x = db w \<and> uuids_drawn x = Suc (uuids_drawn w)) ?prep"
    unfolding sys_create_dir_all_def sys_write_def
    by (intro keeps_bindE; simp add: keeps_def sys_def split: option.splits)
  obtain r1 w1 where prep: "?prep ?w0 = (r1, w1)" by fastforce
  show ?thesis
  proof (cases r1)
    case (Inl e)
    then have "r = Inl e" "w' = w1" using run' prep by (simp_all add: bindE_def)
    with ok1 prep show ?thesis by simp
  next
    case unit: (Inr u)
    obtain r2 w2 where ren: "sys_rename v tmp final w1 = (r2, w2)" by fastforce
    show ?thesis
    proof (cases r2)
      case (Inl e)
      then have "w2 = w1" using ren sys_Inl unfolding sys_rename_def by blast
      with Inl unit run' prep ren ok1 show ?thesis by (auto simp: bindE_def)
    next
      case fin2: (Inr u2)
      then obtain f where f: "rename (files w1) tmp final = Some f" "w2 = w1\<lparr>files := f\<rparr>"
        using ren by (auto simp: sys_rename_def sys_Inr)
      obtain wb where "sys_write v tmp bytes wb = (Inr (), w1)"
        using prep [unfolded unit bindE_eq_Inr] by auto
      then have "write_file (files wb) tmp bytes = Some (files w1)"
        by (auto simp: sys_write_def sys_Inr)
      then have tmpf: "map_of (files w1) tmp = Some (File bytes)" by (simp add: map_of_write_file)
      have "is_dir (files w1) (butlast final)"
        using f(1) tmpf by (auto simp: rename_def split: if_splits)
      then have cur: "is_dir (files w1) (dir @ [''cur''])" by (simp add: final_def butlast_append)
      have out: "r = Inr (pp @ ''/cur/'' @ message_name ts uuid flags, length bytes)" "w' = w2"
        using run' prep unit ren fin2 by (simp_all add: bindE_def)
      show ?thesis
        using out f map_of_rename_file [OF f(1) tmpf] cur ok1 prep Inr keepsD [OF dbs, of ?w0]
        by (intro disjI2 exI [of _ bytes] exI [of _ "files w1"]) simp
    qed
  qed
qed

section \<open>A downloaded message is settled\<close>

text \<open>What one membership insert after another adds.\<close>

lemma insert_memberships_adds:
  assumes "insert_memberships e p ids boxes w = (Inr u, w')"
  shows "files w' = files w \<and> emails (db w') = emails (db w)
    \<and> email_mailboxes (db w') = email_mailboxes (db w) @
        List.map_filter (\<lambda>i. map_option (\<lambda>mb. \<lparr>ej_email_id = e, ej_mailbox_id = mb_id mb,
          ej_is_primary = (mb_id mb = p)\<rparr>) (map_of boxes i)) ids"
  using assms unfolding insert_memberships_def
  by (rule foldE_outcome [where I = "\<lambda>done _ x. files x = files w \<and> emails (db x) = emails (db w)
      \<and> email_mailboxes (db x) = email_mailboxes (db w) @
          List.map_filter (\<lambda>i. map_option (\<lambda>mb. \<lparr>ej_email_id = e, ej_mailbox_id = mb_id mb,
            ej_is_primary = (mb_id mb = p)\<rparr>) (map_of boxes i)) done"])
    (auto simp: map_filter_def db_exec_def insert_email_mailbox_def split: option.splits sum.splits if_splits)

lemma find_only: "x \<in> set xs \<Longrightarrow> P x \<Longrightarrow> (\<And>y. y \<in> set xs \<Longrightarrow> P y \<Longrightarrow> y = x) \<Longrightarrow> find P xs = Some x"
  by (metis find_None_iff find_Some_iff nth_mem option.exhaust)

lemma resolve_downloaded:
  assumes final: "join_path root rel = dir @ [''cur'', message_name ts uuid flags]"
    and flags: "CHR '':'' \<notin> set flags" and root: "prefix root dir"
    and f: "prepared f0 (dir @ [''tmp'', message_base ts uuid]) [dir @ [''tmp''], dir @ [''cur'']] f"
    and cur: "is_dir f (dir @ [''cur''])"
    and f': "map_of f' = (map_of f)(dir @ [''tmp'', message_base ts uuid] := None,
        dir @ [''cur'', message_name ts uuid flags] \<mapsto> File bytes)"
    and fresh: "\<And>n. n \<in> set (dir_entries f0 (dir @ [''cur''])) \<Longrightarrow> filename_base n \<noteq> message_base ts uuid"
    and ok: "\<not> fault v (ReadDir (dir @ [''cur'']))"
  shows "\<exists>r. resolve_current_file v f' root rel = Some (r, flags)"
proof -
  let ?cur = "dir @ [''cur'']" and ?name = "message_name ts uuid flags"
  have in_dir: "n \<in> set (dir_entries g ?cur) \<longleftrightarrow> map_of g (?cur @ [n]) \<noteq> None" for g :: fs and n
    by (simp add: read_dir_dir_entries map_of_eq_None_iff)
  have only: "n = ?name" if n: "n \<in> set (dir_entries f' ?cur)" "filename_base n = message_base ts uuid" for n
  proof (rule ccontr)
    assume "n \<noteq> ?name"
    with n(1) have "map_of f (?cur @ [n]) \<noteq> None" by (auto simp: in_dir f')
    moreover have "\<not> prefix (?cur @ [n]) (dir @ [''tmp''])" "\<not> prefix (?cur @ [n]) ?cur"
      by (auto dest: prefix_length_le)
    ultimately have "map_of f0 (?cur @ [n]) \<noteq> None"
      using f [unfolded prepared_def, rule_format, of "?cur @ [n]"] by auto
    with fresh [of n] n(2) show False by (simp add: in_dir)
  qed
  have "find (\<lambda>n. filename_base n = message_base ts uuid) (dir_entries f' ?cur) = Some ?name"
    by (rule find_only) (auto simp: in_dir f' message_name_base flags intro: only [unfolded in_dir f'])
  moreover have "is_dir f' ?cur" using cur by (auto simp: is_dir_def f')
  moreover have "filename_flags ?name = flags" using message_name_flags [of flags "[]"] flags by simp
  moreover have "prefix root (?cur @ [?name])" using root by (auto simp: prefix_def)
  ultimately show ?thesis
    by (simp add: resolve_current_file_def final butlast_append read_dir_def message_name_base flags ok)
qed

lemma inserted_email_settles:
  assumes run: "insert_email v cl root boxes False j email p flags json ts w = (Inr n, w')"
    and flags: "flags = keywords_to_flag_string (se_keywords email)"
    and json: "json = serialize_keywords v (se_keywords email)" "json_faithful v"
    and wf: "db_wf (db w)" "foreign_keys (db w)"
    and pp: "mb_path p \<noteq> []" "join_path root (mb_path p) = dir" "prefix root dir"
    and uuid: "uuid = fresh_uuid v (uuids_drawn w)" "CHR ''/'' \<notin> set uuid"
    and fresh: "\<And>n. n \<in> set (dir_entries (files w) (dir @ [''cur''])) \<Longrightarrow> filename_base n \<noteq> message_base ts uuid"
    and ok: "\<not> fault v (ReadDir (dir @ [''cur'']))"
    and pick: "pick_primary_mailbox (se_mailbox_ids email) boxes = Some p" "se_id email = Some j"
  shows "\<exists>row. get_email_by_jmap_id (db w') j = Some row
    \<and> local_change_of v (files w') root j row = None
    \<and> (\<forall>locals stats. map_of locals j = Some row \<longrightarrow>
         apply_email v cl root boxes locals False email stats w' = (Inr stats, w'))"
proof -
  have nof: "CHR ''/'' \<notin> set flags" "CHR '':'' \<notin> set flags"
    unfolding flags using keywords_to_flag_string_standard [of "CHR ''/''" "se_keywords email"]
    by (auto simp: standard_flags keywords_to_flag_string_no_colon)
  from run obtain blob where blob: "se_blob_id email = Some blob"
    by (auto simp: insert_email_def split: option.splits)
  with run obtain rel w1 where
    dl: "download_and_write v cl blob root (mb_path p) ts flags False w = (Inr (rel, n), w1)"
    by (auto simp: insert_email_def bindE_eq_Inr)
  define row where "row = \<lparr>em_id = fresh_uuid v (uuids_drawn w1), em_jmap_id = Some j,
    em_message_id = Option.bind (se_message_id email) (\<lambda>l. case l of [] \<Rightarrow> None | x # _ \<Rightarrow> Some x),
    em_file_path = rel, em_primary_mailbox = mb_id p, em_keywords = Some json,
    em_jmap_state = None, em_size = Some (int (se_size email)), em_last_sync = Some (unix_now v),
    em_is_dirty = False\<rparr>"
  have row: "em_jmap_id row = Some j" "em_file_path row = rel"
    "em_primary_mailbox row = mb_id p" "em_keywords row = Some json"
    by (simp_all add: row_def)
  have id: "em_id row = fresh_uuid v (uuids_drawn w1)" by (simp add: row_def)
  from run blob dl obtain d u where d: "insert_email_row (db w1) row = Inr d"
    and mem: "insert_memberships (em_id row) (mb_id p) (se_mailbox_ids email) boxes
      (w1\<lparr>uuids_drawn := Suc (uuids_drawn w1), db := d\<rparr>) = (Inr u, w')"
    unfolding insert_email_def blob option.case bindE_eq_Inr generate_id_def db_exec_def id
    by (auto simp: bindE_eq_Inr simp flip: row_def split: sum.splits)
  define w2 where "w2 = w1\<lparr>uuids_drawn := Suc (uuids_drawn w1), db := d\<rparr>"
  have ins: "insert_email_row (db w1) row = Inr (db w2)" "files w2 = files w1"
    using d by (simp_all add: w2_def)
  note mem = mem [folded w2_def]
  from download_files [OF dl pp(1) uuid nof(1)] pp(2) obtain bytes f where
    rel: "rel = mb_path p @ ''/cur/'' @ message_name ts uuid flags"
    and f: "prepared (files w) (dir @ [''tmp'', message_base ts uuid]) [dir @ [''tmp''], dir @ [''cur'']] f"
      "is_dir f (dir @ [''cur''])"
      "map_of (files w1) = (map_of f)(dir @ [''tmp'', message_base ts uuid] := None,
        dir @ [''cur'', message_name ts uuid flags] \<mapsto> File bytes)"
    and dbs: "db w1 = db w" by auto
  note add = insert_memberships_adds [OF mem]
  have fresh_id: "em_id row \<notin> em_id ` set (emails (db w))"
    and fresh_jmap: "Some j \<notin> em_jmap_id ` set (emails (db w))"
    and d2: "db w2 = db w\<lparr>emails := emails (db w) @ [row]\<rparr>"
    using ins(1) row(1) dbs by (auto simp: insert_email_row_def split: if_splits)
  note em = add [unfolded d2, simplified] fresh_id fresh_jmap
  have get: "get_email_by_jmap_id (db w') j = Some row"
  proof -
    have "find (\<lambda>e. em_jmap_id e = Some j) (emails (db w)) = None"
      using fresh_jmap unfolding find_None_iff by (metis imageI)
    then show ?thesis using em(1) row(1) by (simp add: get_email_by_jmap_id_def find_append_new)
  qed
  have "join_path root rel = dir @ [''cur'', message_name ts uuid flags]"
    using message_path [OF pp(1) message_name_plain [OF uuid(2) nof(1)]] pp(2) rel by simp
  from resolve_downloaded [OF this nof(2) pp(3) f fresh ok]
  obtain r where res: "resolve_current_file v (files w') root (em_file_path row) = Some (r, flags)"
    using add ins(2) row(2) by auto
  have local: "local_change_of v (files w') root j row = None"
    using settled_row [OF json(2)] res row(4) json(1) flags by simp
  have none: "ej_email_id x \<noteq> em_id row" if "x \<in> set (email_mailboxes (db w))" for x
    using db_wf_foreign(3) [OF wf that] fresh_id by auto
  have same: "\<not> memberships_differ (em_id row) (se_mailbox_ids email) boxes (db w')"
    using none by (auto simp: memberships_differ_def get_email_mailboxes_by_email_def em(1)
        in_map_filter image_iff) (blast, fastforce)
  have "current_flags_from_path rel = flags"
    using message_name_flags [of flags "mb_path p @ ''/cur/''"] nof(2) rel
    by (simp add: current_flags_is_filename_flags)
  then have "apply_email v cl root boxes locals False email stats w' = (Inr stats, w')"
    if "map_of locals j = Some row" for locals stats
    using that same pick row json(1) flags
    by (simp add: apply_email_def Let_def bindE_def db_query_def)
  with get local show ?thesis by blast
qed

section \<open>A renamed mailbox\<close>

lemma renamed_dir_gone:
  assumes "rename f a b = Some f'" and "map_of f a = Some Dir" and "a \<noteq> b"
    and "\<not> prefix b a" and "prefix a p"
  shows "map_of f' p = None"
proof -
  from assms(1-3) have f': "f' = map (\<lambda>(q, n). (move_entry a b q, n)) (AList.delete b f)"
    and ab: "\<not> prefix a b" by (auto simp: rename_def split: if_splits)
  have "move_entry a b q \<noteq> p" for q
  proof
    assume m: "move_entry a b q = p"
    then have "prefix b p \<or> q = p \<and> \<not> prefix a q"
      by (auto simp: move_entry_def split: if_splits)
    with assms(4,5) ab show False using prefix_same_cases by blast
  qed
  then show ?thesis unfolding f' by (auto simp: map_of_eq_None_iff) metis
qed

lemma update_mailbox_row_emails: "update_mailbox_row d m = Inr d' \<Longrightarrow> emails d' = emails d"
proof (cases "mb_id m \<in> mb_id ` set (mailboxes d)")
  case True
  moreover assume "update_mailbox_row d m = Inr d'"
  ultimately show ?thesis using update_mailbox_row_eq by fastforce
qed (simp add: update_mailbox_row_def Let_def)

lemma update_mailbox_renames:
  assumes run: "update_mailbox v root False old new w = (Inr u, w')"
    and dirs: "join_path root (mb_path old) = a" "join_path root (mb_path new) = b"
    and ne: "mb_path old \<noteq> mb_path new" "a \<noteq> b" "\<not> prefix b a" "\<not> prefix a b"
    and there: "map_of (files w) a = Some Dir" and p: "prefix a p"
  shows "emails (db w') = emails (db w)" and "map_of (files w') p = None"
proof -
  let ?up = "if b = [] then ret () else sys_create_dir_all v (butlast b)"
  obtain r1 w1 where up: "?up w = (r1, w1)" by fastforce
  have dir1: "map_of (files w1) a = Some Dir" "db w1 = db w"
  proof -
    have "map_of (files w1) a = Some Dir \<and> db w1 = db w"
    proof (cases "b = []")
      case True
      with up there show ?thesis by simp
    next
      case False
      with up have s: "sys v (MkdirAll (butlast b)) (\<lambda>f. create_dir_all f (butlast b)) w = (r1, w1)"
        by (simp add: sys_create_dir_all_def)
      show ?thesis
      proof (cases r1)
        case (Inl e)
        with s sys_Inl have "w1 = w" by blast
        with there show ?thesis by simp
      next
        case (Inr x)
        with s obtain f where "create_dir_all (files w) (butlast b) = Some f" "w1 = w\<lparr>files := f\<rparr>"
          by (auto simp: sys_Inr)
        with there show ?thesis by (simp add: map_of_create_dir_all)
      qed
    qed
    then show "map_of (files w1) a = Some Dir" "db w1 = db w" by simp_all
  qed
  have exists: "sys_exists a w1 = (Inr True, w1)"
    using dir1 by (simp add: sys_exists_def path_exists_def)
  have split: "update_mailbox v root False old new =
      bindE (rename_mailbox_dir v a b) (\<lambda>_. db_exec (\<lambda>d. update_mailbox_row d new))"
    by (simp add: update_mailbox_def dirs ne(1))
  from run obtain u2 w2 where rd: "rename_mailbox_dir v a b w = (Inr u2, w2)"
    and d: "db_exec (\<lambda>d. update_mailbox_row d new) w2 = (Inr u, w')"
    unfolding split bindE_eq_Inr by blast
  from rd obtain u3 w3 where "?up w = (Inr u3, w3)"
    and r3: "bindE (sys_exists a) (\<lambda>there. if there then sys_rename v a b else create_maildir v b) w3 = (Inr u2, w2)"
    unfolding rename_mailbox_dir_def bindE_eq_Inr by blast
  then have "w3 = w1" using up by simp
  with r3 exists have ren: "sys_rename v a b w1 = (Inr u2, w2)" by simp
  from ren obtain f where f: "rename (files w1) a b = Some f" "w2 = w1\<lparr>files := f\<rparr>"
    by (auto simp: sys_rename_def sys_Inr)
  from d obtain dd where dd: "update_mailbox_row (db w2) new = Inr dd" "w' = w2\<lparr>db := dd\<rparr>"
    unfolding db_exec_Inr by blast
  show "map_of (files w') p = None"
    using renamed_dir_gone [OF f(1) dir1(1) ne(2,3) p] f(2) dd(2) by simp
  show "emails (db w') = emails (db w)"
    using update_mailbox_row_emails [OF dd(1)] f(2) dd(2) dir1(2) by simp
qed

lemma unreadable_is_destroy:
  assumes "butlast (join_path root (em_file_path row)) \<noteq> []"
    and "map_of f (butlast (join_path root (em_file_path row))) = None"
  shows "local_change_of v f root j row = Some (Destroy j None)"
  using assms by (simp add: local_change_of_def resolve_current_file_def Let_def read_dir_def is_dir_def)

end
