(* ===== verification/Submit_Outcome.thy ===== *)
theory Submit_Outcome
  imports Config Mailbox_Tree
begin

text \<open>
  The conversation of one submission attempt (\<open>daemon/submit.rs\<close>): the context resolved at
  startup, the classification of failures, the request that imports and submits a message,
  and the reconciliation when the server already holds the message.

  The types of \<open>jmap_client\<close> are reduced to what the code looks at. A server is a pair of
  functions from requests to answers; the requests that were sent are part of the result.
  \<open>chrono\<close> is the pair \<open>parse_rfc3339\<close>, \<open>print_rfc3339\<close>; \<open>dbg\<close> is the
  \<open>Debug\<close> form of a string, \<open>show_err\<close> the \<open>Display\<close> form of an error, and \<open>se_text\<close> the
  \<open>Debug\<close> form of a \<open>SetError\<close>.
\<close>

section \<open>Errors of the client library\<close>

datatype method_error_type = ServerUnavailable | ServerFail | ServerPartialFail | OtherMethodError string

record method_error =
  me_type :: method_error_type
  me_text :: string

datatype set_error_type = AlreadyExists | OtherSetError string

record set_error =
  se_type :: set_error_type
  se_existing_id :: "string option"
  se_text :: string

datatype jmap_error =
    Transport "nat option" string
  | Problem "nat option" "string option"
  | Server string
  | Method method_error
  | SetFailed set_error
  | Parse string
  | Internal string
  | WebSocket string

datatype submit_outcome = Success | Transient string | Permanent string

definition from_method_error :: "method_error \<Rightarrow> submit_outcome" where
  "from_method_error me =
     (case me_type me of
        OtherMethodError _ \<Rightarrow> Permanent (''method '' @ me_text me)
      | _ \<Rightarrow> Transient (''method '' @ me_text me))"

fun from_jmap_error :: "(string \<Rightarrow> string) \<Rightarrow> jmap_error \<Rightarrow> submit_outcome" where
  "from_jmap_error dbg (Transport status err) =
     (case status of
        Some s \<Rightarrow>
          if 400 \<le> s \<and> s < 500 \<and> s \<noteq> 429
          then Permanent (''http '' @ show_nat s @ '': '' @ err)
          else Transient (''transport: '' @ err)
      | None \<Rightarrow> Transient (''transport: '' @ err))"
| "from_jmap_error dbg (Problem st title) =
     (let status = (case st of Some s \<Rightarrow> s | None \<Rightarrow> 0);
          msg = ''problem status='' @ show_nat status @ '' title=''
                @ dbg (case title of Some t \<Rightarrow> t | None \<Rightarrow> [])
      in if status \<ge> 500 \<or> status = 429 \<or> status = 408 then Transient msg else Permanent msg)"
| "from_jmap_error dbg (Server msg) = Transient (''server: '' @ msg)"
| "from_jmap_error dbg (Method me) = from_method_error me"
| "from_jmap_error dbg (SetFailed e) = Permanent (''set: '' @ se_text e)"
| "from_jmap_error dbg (Parse err) = Transient (''parse: '' @ err)"
| "from_jmap_error dbg (Internal msg) = Transient (''internal: '' @ msg)"
| "from_jmap_error dbg (WebSocket err) = Transient (''websocket: '' @ err)"

definition already_exists_id_from :: "jmap_error \<Rightarrow> string option" where
  "already_exists_id_from err =
     (case err of
        SetFailed e \<Rightarrow> if se_type e = AlreadyExists then se_existing_id e else None
      | _ \<Rightarrow> None)"

section \<open>The context of an account\<close>

record submit_context =
  sc_account_id :: string
  sc_identity_id :: string
  sc_drafts_id :: string
  sc_sent_id :: string
  sc_scheduled :: "string option"

record identity =
  idt_id :: "string option"
  idt_email :: "string option"

definition find_mailbox_id_by_name :: "server_mailbox list \<Rightarrow> string \<Rightarrow> string option" where
  "find_mailbox_id_by_name ms target =
     Option.bind (find (\<lambda>m. case sm_name m of
         Some n \<Rightarrow> eq_ignore_ascii_case n target | None \<Rightarrow> False) ms) sm_id"

definition need :: "string \<Rightarrow> 'a option \<Rightarrow> err + 'a" where
  "need what x = (case x of Some y \<Rightarrow> Inr y | None \<Rightarrow> Inl (Refused what))"

definition resolve_context ::
    "string \<Rightarrow> err + identity list \<Rightarrow> err + server_mailbox list \<Rightarrow> submit_config \<Rightarrow> err + submit_context" where
  "resolve_context account_id identity_get mailbox_get cfg =
     rbind (case identity_id cfg of
              Some i \<Rightarrow> Inr i
            | None \<Rightarrow> rbind identity_get (\<lambda>identities.
                need ''no matching identity''
                  (Option.bind (find (\<lambda>i. case idt_email i of
                      Some e \<Rightarrow> eq_ignore_ascii_case e (from_address cfg) | None \<Rightarrow> False) identities)
                    idt_id))) (\<lambda>ident.
     rbind mailbox_get (\<lambda>ms.
     rbind (need ''no Drafts mailbox'' (Option.bind (find (\<lambda>m. sm_role m = Drafts) ms) sm_id)) (\<lambda>drafts.
     rbind (need ''no Sent mailbox'' (Option.bind (find (\<lambda>m. sm_role m = Sent) ms) sm_id)) (\<lambda>sent.
       Inr \<lparr>sc_account_id = account_id, sc_identity_id = ident, sc_drafts_id = drafts,
            sc_sent_id = sent,
            sc_scheduled = (case scheduled_folder cfg of
                SentFolder \<Rightarrow> None
              | Auto \<Rightarrow> find_mailbox_id_by_name ms ''Scheduled''
              | Named n \<Rightarrow> find_mailbox_id_by_name ms n)\<rparr>))))"

definition file_target_id :: "submit_context \<Rightarrow> bool \<Rightarrow> string" where
  "file_target_id ctx has_send_at =
     (if has_send_at then (case sc_scheduled ctx of Some i \<Rightarrow> i | None \<Rightarrow> sc_sent_id ctx)
      else sc_sent_id ctx)"

section \<open>Sidecar and envelope\<close>

record envelope =
  env_from :: string
  env_to :: "string list"

record retry_state =
  rt_attempts :: nat
  rt_next_at :: "string option"
  rt_last_error :: "string option"

record sidecar_state =
  sd_envelope :: envelope
  sd_send_at :: "string option"
  sd_submitted_at :: string
  sd_account :: string
  sd_retry :: "retry_state option"
  sd_in_flight :: "string option"

definition default_sidecar :: sidecar_state where
  "default_sidecar =
     \<lparr>sd_envelope = \<lparr>env_from = [], env_to = []\<rparr>, sd_send_at = None, sd_submitted_at = [],
      sd_account = [], sd_retry = None, sd_in_flight = None\<rparr>"

definition envelope_validation_error :: "envelope \<Rightarrow> string option" where
  "envelope_validation_error e =
     (if trim (env_from e) = [] then Some ''sidecar envelope missing `from`''
      else if list_all (\<lambda>s. trim s = []) (env_to e) then Some ''sidecar envelope missing `to`''
      else None)"

section \<open>Requests and answers\<close>

text \<open>
  The create of an \<open>EmailSubmission/set\<close>, with the mailbox it files the email to on success.
  The second component of the sender is the \<open>holdUntil\<close> parameter.
\<close>

record submission =
  sub_email_id :: string
  sub_identity_id :: string
  sub_mail_from :: "string \<times> string option"
  sub_rcpt_to :: "string list"
  sub_send_at :: "int option"
  sub_unfile :: string
  sub_file :: string

datatype jmap_request =
    Upload string string
  | ImportSubmit string string string submission
  | ReconcileFetch string string
  | ReconcileSet "string list option" submission

datatype method_response =
    MrError method_error
  | MrImportEmail "(string \<times> jmap_error option) list" "string list"
  | MrSetEmailSubmission "string option" bool
  | MrGetEmail "string list list"
  | MrQueryEmailSubmission "string list"
  | MrOther

record submit_server =
  srv_upload :: "string \<Rightarrow> string \<Rightarrow> jmap_error + string"
  srv_send :: "jmap_request \<Rightarrow> jmap_error + method_response list"
  parse_rfc3339 :: "string \<Rightarrow> string + int"
  print_rfc3339 :: "int \<Rightarrow> string"
  dbg :: "string \<Rightarrow> string"
  show_err :: "jmap_error \<Rightarrow> string"

definition build_mail_from :: "submit_server \<Rightarrow> string \<Rightarrow> int option \<Rightarrow> string \<times> string option" where
  "build_mail_from srv email send_at = (email, map_option (print_rfc3339 srv) send_at)"

definition build_submission ::
    "submit_server \<Rightarrow> submit_context \<Rightarrow> sidecar_state \<Rightarrow> string \<Rightarrow> int option \<Rightarrow> submission" where
  "build_submission srv ctx sidecar email_id send_at =
     \<lparr>sub_email_id = email_id, sub_identity_id = sc_identity_id ctx,
      sub_mail_from = build_mail_from srv (env_from (sd_envelope sidecar)) send_at,
      sub_rcpt_to = env_to (sd_envelope sidecar), sub_send_at = send_at,
      sub_unfile = sc_drafts_id ctx, sub_file = file_target_id ctx (send_at \<noteq> None)\<rparr>"

section \<open>Reconciliation\<close>

datatype reconcile_action =
    AlreadyDone
  | CancelAndResubmit "string list" "int option"
  | CreateSubmission "int option"

definition reconcile_action :: "string list \<Rightarrow> string list \<Rightarrow> string \<Rightarrow> int option \<Rightarrow> reconcile_action" where
  "reconcile_action email_mailbox_ids pending_submission_ids sent_id send_at =
     (if sent_id \<in> set email_mailbox_ids then AlreadyDone
      else if pending_submission_ids \<noteq> [] then CancelAndResubmit pending_submission_ids send_at
      else CreateSubmission send_at)"

fun check_reconciled :: "method_response list \<Rightarrow> submit_outcome" where
  "check_reconciled [] = Success"
| "check_reconciled (MrError me # rs) = from_method_error me"
| "check_reconciled (MrSetEmailSubmission (Some e) c # rs) =
     Permanent (''EmailSubmission/set (reconcile): '' @ e)"
| "check_reconciled (MrSetEmailSubmission None False # rs) =
     Permanent ''EmailSubmission/set (reconcile) returned no created entry''"
| "check_reconciled (_ # rs) = check_reconciled rs"

definition execute_reconciled_submission ::
    "submit_server \<Rightarrow> submit_context \<Rightarrow> sidecar_state \<Rightarrow> string \<Rightarrow> int option \<Rightarrow> string list option
     \<Rightarrow> submit_outcome \<times> jmap_request list" where
  "execute_reconciled_submission srv ctx sidecar email_id send_at destroy_ids =
     (let req = ReconcileSet destroy_ids (build_submission srv ctx sidecar email_id send_at) in
      case srv_send srv req of
        Inl e \<Rightarrow> (from_jmap_error (dbg srv) e, [req])
      | Inr rs \<Rightarrow> (check_reconciled rs, [req]))"

text \<open>The mailboxes of the email and its pending submissions, as the last answer gives them.\<close>

fun reconcile_facts ::
    "string list \<Rightarrow> string list \<Rightarrow> method_response list \<Rightarrow> submit_outcome + string list \<times> string list" where
  "reconcile_facts mb pend [] = Inr (mb, pend)"
| "reconcile_facts mb pend (MrError me # rs) = Inl (from_method_error me)"
| "reconcile_facts mb pend (MrGetEmail [] # rs) = reconcile_facts mb pend rs"
| "reconcile_facts mb pend (MrGetEmail (m # ms) # rs) = reconcile_facts m pend rs"
| "reconcile_facts mb pend (MrQueryEmailSubmission ids # rs) = reconcile_facts mb ids rs"
| "reconcile_facts mb pend (_ # rs) = reconcile_facts mb pend rs"

definition reconcile_after_import ::
    "submit_server \<Rightarrow> submit_context \<Rightarrow> sidecar_state \<Rightarrow> string \<Rightarrow> int option
     \<Rightarrow> submit_outcome \<times> jmap_request list" where
  "reconcile_after_import srv ctx sidecar existing_id send_at =
     (let req = ReconcileFetch (sc_account_id ctx) existing_id in
      case srv_send srv req of
        Inl e \<Rightarrow> (from_jmap_error (dbg srv) e, [req])
      | Inr rs \<Rightarrow>
          (case reconcile_facts [] [] rs of
             Inl out \<Rightarrow> (out, [req])
           | Inr (mailbox_ids, pending) \<Rightarrow>
               (case reconcile_action mailbox_ids pending (sc_sent_id ctx) send_at of
                  AlreadyDone \<Rightarrow> (Success, [req])
                | CancelAndResubmit destroy_ids at \<Rightarrow>
                    (let (out, sent) = execute_reconciled_submission srv ctx sidecar existing_id at (Some destroy_ids)
                     in (out, req # sent))
                | CreateSubmission at \<Rightarrow>
                    (let (out, sent) = execute_reconciled_submission srv ctx sidecar existing_id at None
                     in (out, req # sent)))))"

section \<open>One attempt\<close>

text \<open>The loop over the answers; the left result ends the attempt.\<close>

fun check_submitted ::
    "submit_server \<Rightarrow> string option \<Rightarrow> method_response list \<Rightarrow> submit_outcome + string option" where
  "check_submitted srv ex [] = Inr ex"
| "check_submitted srv ex (MrError me # rs) =
     (if ex \<noteq> None then check_submitted srv ex rs else Inl (from_method_error me))"
| "check_submitted srv ex (MrImportEmail [] created # rs) =
     (if created = [] then Inl (Permanent ''Email/import returned no created entry'')
      else check_submitted srv ex rs)"
| "check_submitted srv ex (MrImportEmail ((i, e) # nc) created # rs) =
     (case e of
        Some err \<Rightarrow>
          (case already_exists_id_from err of
             Some existing \<Rightarrow> check_submitted srv (Some existing) rs
           | None \<Rightarrow> Inl (Permanent (''Email/import: '' @ show_err srv err)))
      | None \<Rightarrow> Inl (Permanent (''Email/import not_created: ['' @
          join_with '', '' (map (dbg srv) (i # map fst nc)) @ '']'')))"
| "check_submitted srv ex (MrSetEmailSubmission create_error has_created # rs) =
     (if ex \<noteq> None then check_submitted srv ex rs
      else (case create_error of
              Some e \<Rightarrow> Inl (Permanent (''EmailSubmission/set: '' @ e))
            | None \<Rightarrow> if has_created then check_submitted srv ex rs
                       else Inl (Permanent ''EmailSubmission/set returned no created entry'')))"
| "check_submitted srv ex (_ # rs) = check_submitted srv ex rs"

definition parse_send_at :: "submit_server \<Rightarrow> sidecar_state \<Rightarrow> submit_outcome + int option" where
  "parse_send_at srv sidecar =
     (case sd_send_at sidecar of
        None \<Rightarrow> Inr None
      | Some s \<Rightarrow>
          (case parse_rfc3339 srv s of
             Inr dt \<Rightarrow> Inr (Some dt)
           | Inl e \<Rightarrow> Inl (Permanent (''sidecar send_at '' @ dbg srv s
               @ '' not a valid RFC3339 timestamp: '' @ e))))"

definition submit_one ::
    "submit_server \<Rightarrow> submit_context \<Rightarrow> string \<Rightarrow> sidecar_state \<Rightarrow> submit_outcome \<times> jmap_request list" where
  "submit_one srv ctx msg_bytes sidecar =
     (case envelope_validation_error (sd_envelope sidecar) of
        Some reason \<Rightarrow> (Permanent reason, [])
      | None \<Rightarrow>
     (case parse_send_at srv sidecar of
        Inl out \<Rightarrow> (out, [])
      | Inr send_at \<Rightarrow>
     (let up = Upload (sc_account_id ctx) msg_bytes in
      case srv_upload srv (sc_account_id ctx) msg_bytes of
        Inl e \<Rightarrow> (from_jmap_error (dbg srv) e, [up])
      | Inr blob_id \<Rightarrow>
     (let req = ImportSubmit (sc_account_id ctx) blob_id (sc_drafts_id ctx)
                  (build_submission srv ctx sidecar ''#i0'' send_at) in
      case srv_send srv req of
        Inl e \<Rightarrow> (from_jmap_error (dbg srv) e, [up, req])
      | Inr rs \<Rightarrow>
          (case check_submitted srv None rs of
             Inl out \<Rightarrow> (out, [up, req])
           | Inr None \<Rightarrow> (Success, [up, req])
           | Inr (Some existing) \<Rightarrow>
               (let (out, sent) = reconcile_after_import srv ctx sidecar existing send_at
                in (out, [up, req] @ sent)))))))"

end
