(* ===== verification/Resilience.thy ===== *)
theory Resilience
  imports Std_Fs
begin

text \<open>
  \<open>daemon/resilience.rs\<close>: the exponential backoff, the notifier that reports each outage
  once, the wait between two attempts, and the labels that the notifications show. A
  \<open>Duration\<close> is a number of nanoseconds that saturates at the largest one the type holds.
\<close>

section \<open>Backoff\<close>

definition duration_max :: nat where
  "duration_max = 2 ^ 64 * 1000000000 - 1"

definition secs :: "nat \<Rightarrow> nat" where
  "secs n = n * 1000000000"

definition saturating_mul :: "nat \<Rightarrow> nat \<Rightarrow> nat" where
  "saturating_mul d n = min (d * n) duration_max"

record retry_backoff =
  rb_base :: nat
  rb_cap :: nat
  rb_next :: nat

definition new_backoff :: "nat \<Rightarrow> nat \<Rightarrow> retry_backoff" where
  "new_backoff base cap = \<lparr>rb_base = base, rb_cap = cap, rb_next = base\<rparr>"

definition take_delay :: "retry_backoff \<Rightarrow> nat \<times> retry_backoff" where
  "take_delay b = (rb_next b, b\<lparr>rb_next := min (saturating_mul (rb_next b) 2) (rb_cap b)\<rparr>)"

definition reset_backoff :: "retry_backoff \<Rightarrow> retry_backoff" where
  "reset_backoff b = b\<lparr>rb_next := rb_base b\<rparr>"

text \<open>\<open>n\<close> failures in a row.\<close>

fun take_delays :: "nat \<Rightarrow> retry_backoff \<Rightarrow> nat list \<times> retry_backoff" where
  "take_delays 0 b = ([], b)"
| "take_delays (Suc n) b =
     (let (d, b1) = take_delay b; (ds, b2) = take_delays n b1 in (d # ds, b2))"

lemma take_delays_next:
  assumes "rb_next b \<le> rb_cap b" and "rb_cap b \<le> duration_max"
  shows "take_delays n b =
    (map (\<lambda>k. min (rb_next b * 2 ^ k) (rb_cap b)) [0..<n],
     b\<lparr>rb_next := min (rb_next b * 2 ^ n) (rb_cap b)\<rparr>)"
  using assms
proof (induction n arbitrary: b)
  case 0
  then show ?case by simp
next
  case (Suc n)
  let ?b = "b\<lparr>rb_next := min (rb_next b * 2) (rb_cap b)\<rparr>"
  have step: "take_delay b = (rb_next b, ?b)"
    using Suc.prems by (simp add: take_delay_def saturating_mul_def min_def)
  have pow: "min (min (rb_next b * 2) (rb_cap b) * 2 ^ k) (rb_cap b)
      = min (rb_next b * 2 ^ Suc k) (rb_cap b)" for k
  proof (cases "rb_next b * 2 \<le> rb_cap b")
    case False
    have c: "rb_cap b \<le> rb_cap b * 2 ^ k" by simp
    also have "rb_cap b * 2 ^ k \<le> rb_next b * 2 * 2 ^ k"
      using False by (intro mult_le_mono) simp_all
    finally have "rb_cap b \<le> rb_next b * 2 ^ Suc k" by (simp add: mult.assoc)
    moreover have "min (rb_next b * 2) (rb_cap b) = rb_cap b" using False by simp
    ultimately show ?thesis using c by (simp add: min_absorb2)
  qed (simp add: min_def mult.assoc)
  have "take_delays n ?b = (map (\<lambda>k. min (rb_next b * 2 ^ Suc k) (rb_cap b)) [0..<n],
      b\<lparr>rb_next := min (rb_next b * 2 ^ Suc n) (rb_cap b)\<rparr>)"
    using Suc.IH [of ?b] Suc.prems by (simp add: pow)
  then show ?case
    using Suc.prems step by (simp add: upt_conv_Cons map_Suc_upt [symmetric] del: upt_Suc)
qed

section \<open>Notifications\<close>

datatype notice = Down | Up

record failure_notifier =
  fn_account :: string
  fn_server :: string
  fn_failed :: bool

text \<open>A notification is the notice, its summary and its body.\<close>

type_synonym notification = "notice \<times> string \<times> string"

definition notify_failed :: "failure_notifier \<Rightarrow> notification list \<times> failure_notifier" where
  "notify_failed f =
     (if fn_failed f then ([], f)
      else ([(Down, fn_account f @ '' eMail Down'', fn_server f @ '' server is unreachable.'')],
            f\<lparr>fn_failed := True\<rparr>))"

definition notify_recovered :: "failure_notifier \<Rightarrow> notification list \<times> failure_notifier" where
  "notify_recovered f =
     (if \<not> fn_failed f then ([], f)
      else ([(Up, fn_account f @ '' eMail Up'', fn_server f @ '' server is reachable.'')],
            f\<lparr>fn_failed := False\<rparr>))"

text \<open>A history of attempts: true for a failure, false for a success.\<close>

fun report :: "bool list \<Rightarrow> failure_notifier \<Rightarrow> notification list \<times> failure_notifier" where
  "report [] f = ([], f)"
| "report (failure # hs) f =
     (let (ns, f1) = (if failure then notify_failed f else notify_recovered f);
          (ms, f2) = report hs f1
      in (ns @ ms, f2))"

text \<open>One notice for each change of the outcome.\<close>

fun edges :: "bool \<Rightarrow> bool list \<Rightarrow> notice list" where
  "edges failed [] = []"
| "edges failed (h # hs) = (if h = failed then edges h hs else (if h then Down else Up) # edges h hs)"

lemma report_edges:
  "map fst (fst (report hs f)) = edges (fn_failed f) hs
   \<and> fn_failed (snd (report hs f)) = last (fn_failed f # hs)"
proof (induction hs arbitrary: f)
  case (Cons h hs)
  show ?case
    using Cons.IH [of "f\<lparr>fn_failed := True\<rparr>"] Cons.IH [of "f\<lparr>fn_failed := False\<rparr>"] Cons.IH [of f]
    by (cases h; cases "fn_failed f") (auto simp: notify_failed_def notify_recovered_def split: prod.splits)
qed simp

fun alternating :: "notice \<Rightarrow> notice list \<Rightarrow> bool" where
  "alternating n [] = True"
| "alternating n (m # ms) = (m = n \<and> alternating (if n = Down then Up else Down) ms)"

lemma edges_alternate: "alternating (if failed then Up else Down) (edges failed hs)"
proof (induction hs arbitrary: failed)
  case (Cons h hs)
  show ?case using Cons.IH [of True] Cons.IH [of False] by (cases h; cases failed) auto
qed simp

text \<open>Reading notices that alternate; the mode is whether the last one was \<open>Down\<close>.\<close>

fun follow :: "bool \<Rightarrow> notice list \<Rightarrow> bool option" where
  "follow down [] = Some down"
| "follow down (n # ns) = (if (n = Down) = down then None else follow (n = Down) ns)"

lemma follow_append: "follow d (xs @ ys) = Option.bind (follow d xs) (\<lambda>e. follow e ys)"
  by (induction xs arbitrary: d) auto

lemma follow_alternating: "follow d ns = Some e \<Longrightarrow> alternating (if d then Up else Down) ns"
proof (induction ns arbitrary: d)
  case (Cons n ns)
  then show ?case using Cons.IH [of True] Cons.IH [of False] by (cases n; cases d) auto
qed simp

lemma follow_failed: "notify_failed n = (ns, n') \<Longrightarrow> follow (fn_failed n) (map fst ns) = Some (fn_failed n')"
  by (auto simp: notify_failed_def split: if_splits)

lemma follow_recovered: "notify_recovered n = (ns, n') \<Longrightarrow> follow (fn_failed n) (map fst ns) = Some (fn_failed n')"
  by (auto simp: notify_recovered_def split: if_splits)

section \<open>Waiting between attempts\<close>

text \<open>
  \<open>waited\<close> is how long \<open>nm-online\<close> took. The wait ends with the time that is still to sleep,
  or not at all when the token was cancelled.
\<close>

datatype network_wait = Online | Unavailable | Cancelled

text \<open>The run of \<open>nm-online\<close>; its end races with the cancellation.\<close>

datatype nm_run = NotStarted | ExitedWith bool | WaitFailed | StoppedByCancel

definition NETWORK_MANAGER_WAIT_SECS :: string where "NETWORK_MANAGER_WAIT_SECS = ''2073600''"

fun wait_for_network_manager :: "nm_run \<Rightarrow> network_wait" where
  "wait_for_network_manager NotStarted = Unavailable"
| "wait_for_network_manager StoppedByCancel = Cancelled"
| "wait_for_network_manager (ExitedWith ok) = (if ok then Online else Unavailable)"
| "wait_for_network_manager WaitFailed = Unavailable"

definition wait_for_connectivity_or_delay ::
    "network_wait \<Rightarrow> nat \<Rightarrow> nat \<Rightarrow> bool \<Rightarrow> nat \<times> bool" where
  "wait_for_connectivity_or_delay net minimum_delay waited cancelled =
     (case net of
        Cancelled \<Rightarrow> (0, False)
      | _ \<Rightarrow>
          let remaining = minimum_delay - waited in
          if cancelled then (0, False) else (remaining, True))"

lemma wait_at_least_delay:
  "wait_for_connectivity_or_delay net d waited c = (s, True) \<Longrightarrow> d \<le> waited + s"
  by (auto simp: wait_for_connectivity_or_delay_def Let_def split: network_wait.splits if_splits)

section \<open>Labels\<close>

text \<open>\<open>upper\<close> is the table of \<open>char::to_uppercase\<close>, which may give several characters.\<close>

definition display_label :: "(nat \<Rightarrow> nat list) \<Rightarrow> string \<Rightarrow> string" where
  "display_label upper s =
     (case utf8_decode s of
        [] \<Rightarrow> s
      | c # cs \<Rightarrow> utf8_encode (upper c @ cs))"

definition host_name :: "string \<Rightarrow> string" where
  "host_name jmap_host =
     (let rest = (case split_once ''://'' jmap_host of Some (_, r) \<Rightarrow> r | None \<Rightarrow> jmap_host);
          authority = hd (split_on CHR ''/'' rest)
      in hd (split_on CHR '':'' authority))"

definition server_label :: "(nat \<Rightarrow> nat list) \<Rightarrow> string \<Rightarrow> string" where
  "server_label upper jmap_host =
     (let hostname = host_name jmap_host;
          labels = filter (\<lambda>l. l \<noteq> []) (split_on CHR ''.'' hostname);
          provider = (if 2 \<le> length labels then labels ! (length labels - 2) else hostname)
      in display_label upper provider)"

definition new_notifier :: "(nat \<Rightarrow> nat list) \<Rightarrow> string \<Rightarrow> string \<Rightarrow> failure_notifier" where
  "new_notifier upper account jmap_host =
     \<lparr>fn_account = display_label upper account, fn_server = server_label upper jmap_host,
      fn_failed = False\<rparr>"

text \<open>The first data root that holds the icon; \<open>vars\<close> is the process environment.\<close>

definition connected_icon :: "(string \<Rightarrow> string option) \<Rightarrow> fs \<Rightarrow> string" where
  "connected_icon vars f =
     (let home_root = (case vars ''XDG_DATA_HOME'' of
            Some d \<Rightarrow> [d]
          | None \<Rightarrow> (case vars ''HOME'' of Some h \<Rightarrow> [h @ ''/.local/share''] | None \<Rightarrow> []));
          dirs = (case vars ''XDG_DATA_DIRS'' of
            Some ds \<Rightarrow> split_on CHR '':'' ds
          | None \<Rightarrow> [''/usr/local/share'', ''/usr/share'']);
          icon = (\<lambda>r. r @ ''/icons/hicolor/scalable/status/network-connected-symbolic.svg'')
      in case find (\<lambda>r. is_file f (join_path [] (icon r))) (home_root @ dirs) of
           Some r \<Rightarrow> icon r
         | None \<Rightarrow> ''network-connected-symbolic'')"

section \<open>The notification helper\<close>

text \<open>
  \<open>notify-send\<close> is started with these arguments and waited for; a helper that does not end
  within the timeout is killed. The result is the time the task waits, and whether it kills.
\<close>

definition NOTIFICATION_TIMEOUT :: nat where "NOTIFICATION_TIMEOUT = secs 5"

definition notify_send_args :: "string \<Rightarrow> string \<Rightarrow> string \<Rightarrow> string \<Rightarrow> string list" where
  "notify_send_args urgency icon summary body =
     [''--app-name=jmapsyncd'', ''--urgency='' @ urgency, ''--icon='' @ icon, summary, body]"

definition notification_args :: "(string \<Rightarrow> string option) \<Rightarrow> fs \<Rightarrow> notification \<Rightarrow> string list" where
  "notification_args vars f n =
     (case n of
        (Down, summary, body) \<Rightarrow> notify_send_args ''normal'' ''network-error-symbolic'' summary body
      | (Up, summary, body) \<Rightarrow> notify_send_args ''normal'' (connected_icon vars f) summary body)"

datatype helper = CannotStart | EndsAfter nat | NeverEnds

definition send_notification :: "helper \<Rightarrow> nat \<times> bool" where
  "send_notification h =
     (case h of
        CannotStart \<Rightarrow> (0, False)
      | EndsAfter d \<Rightarrow> if d < NOTIFICATION_TIMEOUT then (d, False) else (NOTIFICATION_TIMEOUT, True)
      | NeverEnds \<Rightarrow> (NOTIFICATION_TIMEOUT, True))"

lemma send_notification_bounded: "fst (send_notification h) \<le> secs 5"
  by (simp add: send_notification_def NOTIFICATION_TIMEOUT_def split: helper.split)

end
