(* ===== verification/Retry_Schedule.thy ===== *)
theory Retry_Schedule
  imports Btree_Map Resilience Complex_Main
begin

text \<open>
  The retry queue of \<open>daemon/submit.rs\<close>: a \<open>BTreeMap\<close> from due times to sets of basenames,
  and an index from basenames back to due times. Its contract (locale \<open>timer_queue\<close>) speaks
  of the due time of a basename alone; the interpretation shows that the two structures stay
  consistent. The second half is \<open>backoff_delay\<close>.
\<close>

section \<open>The queue\<close>

type_synonym instant = nat

record retry_schedule =
  sched :: "(instant, string list) btree"
  sched_index :: "(string, instant) hmap"

definition new_schedule :: retry_schedule where
  "new_schedule = \<lparr>sched = [], sched_index = []\<rparr>"

definition remove_scheduled :: "string \<Rightarrow> retry_schedule \<Rightarrow> retry_schedule" where
  "remove_scheduled basename q =
     (case map_of (sched_index q) basename of
        None \<Rightarrow> q
      | Some prev \<Rightarrow>
          \<lparr>sched = (case map_of (sched q) prev of
              None \<Rightarrow> sched q
            | Some names \<Rightarrow>
                let names' = removeAll basename names in
                if names' = [] then bt_remove prev (sched q) else bt_insert prev names' (sched q)),
           sched_index = AList.delete basename (sched_index q)\<rparr>)"

definition schedule_at :: "string \<Rightarrow> instant \<Rightarrow> retry_schedule \<Rightarrow> retry_schedule" where
  "schedule_at basename due q =
     (let q' = remove_scheduled basename q;
          names = (case map_of (sched q') due of None \<Rightarrow> [] | Some s \<Rightarrow> s)
      in \<lparr>sched = bt_insert due (List.insert basename names) (sched q'),
          sched_index = AList.update basename due (sched_index q')\<rparr>)"

fun drain_loop ::
    "instant \<Rightarrow> (instant, string list) btree \<Rightarrow> (string, instant) hmap \<Rightarrow> string list
     \<Rightarrow> string list \<times> retry_schedule" where
  "drain_loop now [] idx due = (due, \<lparr>sched = [], sched_index = idx\<rparr>)"
| "drain_loop now ((w, names) # rest) idx due =
     (if w > now then (due, \<lparr>sched = (w, names) # rest, sched_index = idx\<rparr>)
      else drain_loop now rest (fold AList.delete names idx) (due @ names))"

definition drain_due :: "instant \<Rightarrow> retry_schedule \<Rightarrow> string list \<times> retry_schedule" where
  "drain_due now q = drain_loop now (sched q) (sched_index q) []"

text \<open>When \<open>wait_next\<close> resolves: at once, at a later time, or never.\<close>

definition wait_next :: "instant \<Rightarrow> retry_schedule \<Rightarrow> instant option" where
  "wait_next now q = (case sched q of [] \<Rightarrow> None | (w, _) # _ \<Rightarrow> Some (max w now))"

section \<open>The contract of a queue of timers\<close>

locale timer_queue =
  fixes due_of :: "'q \<Rightarrow> string \<Rightarrow> instant option"
    and put :: "string \<Rightarrow> instant \<Rightarrow> 'q \<Rightarrow> 'q"
    and cancel :: "string \<Rightarrow> 'q \<Rightarrow> 'q"
    and drain :: "instant \<Rightarrow> 'q \<Rightarrow> string list \<times> 'q"
    and wake :: "instant \<Rightarrow> 'q \<Rightarrow> instant option"
    and ok :: "'q \<Rightarrow> bool"
  assumes put_due: "ok q \<Longrightarrow> due_of (put b w q) = (due_of q)(b \<mapsto> w)"
    and cancel_due: "ok q \<Longrightarrow> due_of (cancel b q) = (due_of q)(b := None)"
    and drained: "ok q \<Longrightarrow> b \<in> set (fst (drain now q)) \<longleftrightarrow> (\<exists>w\<le>now. due_of q b = Some w)"
    and drained_once: "ok q \<Longrightarrow> distinct (fst (drain now q))"
    and drain_due: "ok q \<Longrightarrow> due_of (snd (drain now q)) b =
          (case due_of q b of Some w \<Rightarrow> if w \<le> now then None else Some w | None \<Rightarrow> None)"
    and wake_due: "ok q \<Longrightarrow> wake now q = Some t \<Longrightarrow>
          now \<le> t \<and> (\<exists>b w. due_of q b = Some w \<and> t = max w now)"
    and wake_first: "ok q \<Longrightarrow> due_of q b = Some w \<Longrightarrow> \<exists>t. wake now q = Some t \<and> t \<le> max w now"
    and put_ok: "ok q \<Longrightarrow> ok (put b w q)"
    and cancel_ok: "ok q \<Longrightarrow> ok (cancel b q)"
    and drain_ok: "ok q \<Longrightarrow> ok (snd (drain now q))"
begin

lemma reschedule_moves: "ok q \<Longrightarrow> due_of (put b w2 (put b w1 q)) = due_of (put b w2 q)"
  by (simp add: put_due put_ok)

lemma never_early: "ok q \<Longrightarrow> due_of q b = Some w \<Longrightarrow> now < w \<Longrightarrow>
    b \<notin> set (fst (drain now q)) \<and> due_of (snd (drain now q)) b = Some w"
  by (auto simp: drained drain_due)

lemma cancelled_never_drained: "ok q \<Longrightarrow> b \<notin> set (fst (drain now (cancel b q)))"
  by (simp add: drained cancel_ok cancel_due)

lemma no_second_drain: "ok q \<Longrightarrow> fst (drain now (snd (drain now q))) = []"
proof -
  assume ok: "ok q"
  have "b \<notin> set (fst (drain now (snd (drain now q))))" for b
    using ok by (auto simp: drained drain_ok drain_due split: option.splits if_splits)
  then show ?thesis by (meson hd_in_set)
qed

text \<open>Sleeping until \<open>wake\<close> and draining then returns something: no lost wake-up, no spin.\<close>

lemma wake_drains: "ok q \<Longrightarrow> wake now q = Some t \<Longrightarrow> fst (drain t q) \<noteq> []"
proof -
  assume ok: "ok q" and t: "wake now q = Some t"
  from wake_due [OF ok t] obtain b w where "due_of q b = Some w" "w \<le> t" by auto
  then have "b \<in> set (fst (drain t q))" using drained [OF ok] by blast
  then show ?thesis by auto
qed

lemma asleep_iff_empty: "ok q \<Longrightarrow> wake now q = None \<longleftrightarrow> (\<forall>b. due_of q b = None)"
proof -
  assume ok: "ok q"
  show ?thesis
  proof
    assume "wake now q = None"
    then show "\<forall>b. due_of q b = None" using wake_first [OF ok] by (metis not_None_eq)
  next
    assume none: "\<forall>b. due_of q b = None"
    show "wake now q = None"
    proof (rule ccontr)
      assume "wake now q \<noteq> None"
      then obtain t where "wake now q = Some t" by blast
      with wake_due [OF ok] none show False by fastforce
    qed
  qed
qed

end

section \<open>The two structures stay consistent\<close>

text \<open>The basenames that are due at \<open>w\<close>.\<close>

definition slot :: "(instant, string list) btree \<Rightarrow> instant \<Rightarrow> string list" where
  "slot s w = (case map_of s w of None \<Rightarrow> [] | Some names \<Rightarrow> names)"

definition sched_ok :: "retry_schedule \<Rightarrow> bool" where
  "sched_ok q \<longleftrightarrow> bt_ok (sched q) \<and> distinct (map fst (sched_index q))
     \<and> (\<forall>w. map_of (sched q) w \<noteq> Some []) \<and> (\<forall>w. distinct (slot (sched q) w))
     \<and> (\<forall>b w. map_of (sched_index q) b = Some w \<longleftrightarrow> b \<in> set (slot (sched q) w))"

definition due_of :: "retry_schedule \<Rightarrow> string \<Rightarrow> instant option" where
  "due_of q b = map_of (sched_index q) b"

lemma sched_okD:
  assumes "sched_ok q"
  shows "bt_ok (sched q)" "distinct (map fst (sched_index q))" "map_of (sched q) w \<noteq> Some []"
    "distinct (slot (sched q) w)" "map_of (sched_index q) b = Some w \<longleftrightarrow> b \<in> set (slot (sched q) w)"
  using assms by (auto simp: sched_ok_def)

lemma sched_okI:
  assumes "bt_ok s" and "distinct (map fst idx)" and "\<And>w. map_of s w \<noteq> Some []"
    and "\<And>w. distinct (slot s w)" and "\<And>b w. map_of idx b = Some w \<longleftrightarrow> b \<in> set (slot s w)"
  shows "sched_ok \<lparr>sched = s, sched_index = idx\<rparr>"
  using assms by (simp add: sched_ok_def)

lemma slot_insert: "bt_ok s \<Longrightarrow> slot (bt_insert w ns s) = (slot s)(w := ns)"
  by (auto simp: slot_def bt_insert_get)

lemma slot_remove: "slot (bt_remove w s) = (slot s)(w := [])"
  by (auto simp: slot_def bt_remove_get)

lemma new_schedule_ok [simp]: "sched_ok new_schedule"
  by (simp add: sched_ok_def new_schedule_def slot_def)

lemma remove_scheduled_ok:
  assumes "sched_ok q"
  shows "sched_ok (remove_scheduled b q) \<and> due_of (remove_scheduled b q) = (due_of q)(b := None)"
proof (cases "map_of (sched_index q) b")
  case None
  with assms show ?thesis by (auto simp: remove_scheduled_def due_of_def)
next
  case (Some prev)
  note ok = sched_okD [OF assms]
  let ?names = "removeAll b (slot (sched q) prev)"
  let ?s = "if ?names = [] then bt_remove prev (sched q) else bt_insert prev ?names (sched q)"
  have "b \<in> set (slot (sched q) prev)" using Some ok(5) by blast
  then have "map_of (sched q) prev = Some (slot (sched q) prev)"
    by (cases "map_of (sched q) prev") (simp_all add: slot_def)
  then have q': "remove_scheduled b q = \<lparr>sched = ?s, sched_index = AList.delete b (sched_index q)\<rparr>"
    using Some by (simp add: remove_scheduled_def Let_def)
  have s': "slot ?s = (slot (sched q))(prev := ?names)"
    using ok(1) by (simp add: slot_insert slot_remove)
  have "map_of ?s w \<noteq> Some []" for w
    using ok(1) ok(3) [of w] by (auto simp: bt_insert_get bt_remove_get)
  moreover have "bt_ok ?s" using ok(1) by simp
  moreover have "map_of (AList.delete b (sched_index q)) c = Some w \<longleftrightarrow> c \<in> set (slot ?s w)" for c w
    using ok(5) [of b w] ok(5) [of c w] Some unfolding s' AList.delete_conv' by auto
  moreover have "distinct (slot ?s w)" for w
    using ok(4) [of w] ok(4) [of prev] unfolding s' by (auto simp: distinct_removeAll)
  moreover have "distinct (map fst (AList.delete b (sched_index q)))"
    using ok(2) by (rule distinct_delete)
  ultimately have "sched_ok (remove_scheduled b q)" unfolding q' by (intro sched_okI)
  moreover have "due_of (remove_scheduled b q) = (due_of q)(b := None)"
    by (simp add: q' due_of_def fun_eq_iff AList.delete_conv')
  ultimately show ?thesis by blast
qed

lemma schedule_at_ok:
  assumes "sched_ok q"
  shows "sched_ok (schedule_at b w q) \<and> due_of (schedule_at b w q) = (due_of q)(b \<mapsto> w)"
proof -
  let ?q = "remove_scheduled b q"
  let ?s = "bt_insert w (List.insert b (slot (sched ?q) w)) (sched ?q)"
  have r: "sched_ok ?q" "due_of ?q = (due_of q)(b := None)"
    using remove_scheduled_ok [OF assms] by blast+
  note ok = sched_okD [OF r(1)]
  have q': "schedule_at b w q = \<lparr>sched = ?s, sched_index = AList.update b w (sched_index ?q)\<rparr>"
    by (simp add: schedule_at_def Let_def slot_def)
  have s': "slot ?s = (slot (sched ?q))(w := List.insert b (slot (sched ?q) w))"
    using ok(1) by (rule slot_insert)
  have none: "b \<notin> set (slot (sched ?q) u)" for u
    using ok(5) [of b u] fun_cong [OF r(2), of b] by (simp add: due_of_def)
  have "map_of ?s u \<noteq> Some []" for u
    using ok(1) ok(3) [of u] by (auto simp: bt_insert_get List.insert_def split: if_splits)
  moreover have "bt_ok ?s" using ok(1) by simp
  moreover have "map_of (AList.update b w (sched_index ?q)) c = Some u \<longleftrightarrow> c \<in> set (slot ?s u)" for c u
    using ok(5) [of c u] none [of u] unfolding s' AList.update_conv' by auto
  moreover have "distinct (slot ?s u)" for u using ok(4) [of u] unfolding s' by auto
  moreover have "distinct (map fst (AList.update b w (sched_index ?q)))"
    using ok(2) by (rule AList.distinct_update)
  ultimately have "sched_ok (schedule_at b w q)" unfolding q' by (intro sched_okI)
  moreover have "due_of (schedule_at b w q) = (due_of ?q)(b \<mapsto> w)"
    by (simp add: q' due_of_def AList.update_conv' fun_eq_iff)
  ultimately show ?thesis using r(2) by simp
qed

section \<open>Draining\<close>

lemma drain_loop_due: "drain_loop now s idx due = (due @ fst (drain_loop now s idx []), snd (drain_loop now s idx []))"
proof (induction s arbitrary: idx due)
  case (Cons e s)
  obtain w ns where e: "e = (w, ns)" by (cases e)
  show ?case
  proof (cases "w > now")
    case False
    then show ?thesis
      using Cons.IH [of "fold AList.delete ns idx" "due @ ns"] Cons.IH [of "fold AList.delete ns idx" ns]
      by (simp add: e)
  qed (simp add: e)
qed simp

lemma map_of_fold_delete: "map_of (fold AList.delete ns idx) b = (if b \<in> set ns then None else map_of idx b)"
  by (induction ns arbitrary: idx) (auto simp: AList.delete_conv')

lemma distinct_fold_delete: "distinct (map fst idx) \<Longrightarrow> distinct (map fst (fold AList.delete ns idx))"
  by (induction ns arbitrary: idx) (auto simp: distinct_delete)

lemma slot_Cons:
  assumes "bt_ok ((w, ns) # s)"
  shows "slot ((w, ns) # s) u = (if u = w then ns else slot s u)" and "u \<le> w \<Longrightarrow> slot s u = []"
proof -
  show "slot ((w, ns) # s) u = (if u = w then ns else slot s u)" by (simp add: slot_def)
  assume "u \<le> w"
  with assms have "u \<notin> fst ` set s" by auto
  then have "map_of s u = None" by (simp add: map_of_eq_None_iff)
  then show "slot s u = []" by (simp add: slot_def)
qed

lemma drain_loop_ok:
  assumes "sched_ok \<lparr>sched = s, sched_index = idx\<rparr>"
  shows "sched_ok (snd (drain_loop now s idx [])) \<and> distinct (fst (drain_loop now s idx []))
    \<and> (\<forall>b. b \<in> set (fst (drain_loop now s idx [])) \<longleftrightarrow> (\<exists>w\<le>now. map_of idx b = Some w))
    \<and> (\<forall>b. due_of (snd (drain_loop now s idx [])) b = (case map_of idx b of
          Some w \<Rightarrow> if w \<le> now then None else Some w | None \<Rightarrow> None))"
  using assms
proof (induction s arbitrary: idx)
  case Nil
  then have "map_of idx b = None" for b by (auto simp: sched_ok_def slot_def)
  with Nil show ?case by (auto simp: due_of_def)
next
  case (Cons e s)
  obtain w ns where e: "e = (w, ns)" by (cases e)
  note ok = sched_okD [OF Cons.prems [unfolded e], simplified]
  have bt: "bt_ok ((w, ns) # s)" "bt_ok s" using ok(1) by auto
  note sl = slot_Cons [OF bt(1)]
  have idx: "map_of idx b = Some u \<longleftrightarrow> (if u = w then b \<in> set ns else b \<in> set (slot s u))" for b u
    using ok(5) [of b u] sl(1) by simp
  show ?case
  proof (cases "w > now")
    case True
    then have later: "\<not> (\<exists>u\<le>now. map_of idx b = Some u)" for b
      using idx sl(2) by auto
    have "due_of \<lparr>sched = (w, ns) # s, sched_index = idx\<rparr> b = (case map_of idx b of
          Some w \<Rightarrow> if w \<le> now then None else Some w | None \<Rightarrow> None)" for b
      using later [of b] by (auto simp: due_of_def split: option.splits)
    with True later Cons.prems show ?thesis by (simp add: e)
  next
    case False
    let ?idx = "fold AList.delete ns idx"
    have rest: "map_of ?idx b = Some u \<longleftrightarrow> b \<in> set (slot s u)" for b u
    proof -
      have "b \<notin> set ns" if "b \<in> set (slot s u)"
      proof
        assume "b \<in> set ns"
        then have "map_of idx b = Some w" using idx by simp
        moreover from that sl(2) have "\<not> u \<le> w" by fastforce
        with that have "map_of idx b = Some u" using idx by simp
        ultimately show False using \<open>\<not> u \<le> w\<close> by simp
      qed
      then show ?thesis using idx [of b u] sl(2) [of w] by (auto simp: map_of_fold_delete)
    qed
    have wn: "map_of s w = None" using bt(1) by (auto simp: map_of_eq_None_iff)
    have "sched_ok \<lparr>sched = s, sched_index = ?idx\<rparr>"
      unfolding sched_ok_def retry_schedule.simps
      apply (intro conjI allI)
      subgoal by (rule bt(2))
      subgoal using distinct_fold_delete [OF ok(2)] by blast
      subgoal for u using ok(3) [of u] wn by (cases "u = w") auto
      subgoal for u using ok(4) [of u] sl(1) [of u] sl(2) [of u] by (cases "u = w") auto
      subgoal by (rule rest)
      done
    note ih = Cons.IH [OF this]
    have step: "drain_loop now (e # s) idx [] = (ns @ fst (drain_loop now s ?idx []), snd (drain_loop now s ?idx []))"
      using False drain_loop_due [of now s ?idx ns] by (simp add: e)
    have now: "map_of idx b = Some w \<longleftrightarrow> b \<in> set ns" for b using idx by simp
    have dn: "distinct ns" using ok(4) [of w] sl(1) by simp
    have disj: "b \<notin> set (fst (drain_loop now s ?idx []))" if "b \<in> set ns" for b
      using ih that by (simp add: map_of_fold_delete)
    show ?thesis
      unfolding step fst_conv snd_conv
    proof (intro conjI allI)
      show "sched_ok (snd (drain_loop now s ?idx []))" using ih by blast
      show "distinct (ns @ fst (drain_loop now s ?idx []))" using ih dn disj by auto
      fix b
      show "b \<in> set (ns @ fst (drain_loop now s ?idx [])) \<longleftrightarrow> (\<exists>w\<le>now. map_of idx b = Some w)"
        using ih now [of b] False by (auto simp: map_of_fold_delete)
      show "due_of (snd (drain_loop now s ?idx [])) b = (case map_of idx b of
          Some w \<Rightarrow> if w \<le> now then None else Some w | None \<Rightarrow> None)"
        using ih now [of b] False by (auto simp: map_of_fold_delete split: option.splits)
    qed
  qed
qed

lemma wait_next_due:
  assumes "sched_ok q"
  shows "wait_next now q = Some t \<Longrightarrow> now \<le> t \<and> (\<exists>b w. due_of q b = Some w \<and> t = max w now)"
    and "due_of q b = Some w \<Longrightarrow> \<exists>t. wait_next now q = Some t \<and> t \<le> max w now"
proof -
  note ok = sched_okD [OF assms]
  show "now \<le> t \<and> (\<exists>b w. due_of q b = Some w \<and> t = max w now)" if t: "wait_next now q = Some t"
  proof -
    from t obtain w ns s where s: "sched q = (w, ns) # s" "t = max w now"
      by (auto simp: wait_next_def split: list.splits)
    have "ns \<noteq> []" using ok(3) [of w] s(1) by simp
    then obtain b where "b \<in> set (slot (sched q) w)" using s(1) by (cases ns) (auto simp: slot_def)
    then have "due_of q b = Some w" using ok(5) by (simp add: due_of_def)
    with s(2) show ?thesis by auto
  qed
  show "\<exists>t. wait_next now q = Some t \<and> t \<le> max w now" if "due_of q b = Some w"
  proof -
    from that have b: "b \<in> set (slot (sched q) w)" using ok(5) by (simp add: due_of_def)
    then obtain u ns s where s: "sched q = (u, ns) # s"
      by (cases "sched q") (auto simp: slot_def)
    have "u \<le> w"
    proof (rule ccontr)
      assume "\<not> u \<le> w"
      moreover have "slot (sched q) w = (if w = u then ns else slot s w)" "w \<le> u \<Longrightarrow> slot s w = []"
        using slot_Cons [of u ns s w] ok(1) s by simp_all
      ultimately show False using b by (simp split: if_splits)
    qed
    with s show ?thesis by (auto simp: wait_next_def)
  qed
qed

lemma drain_due_ok:
  assumes "sched_ok q"
  shows "sched_ok (snd (drain_due now q)) \<and> distinct (fst (drain_due now q))
    \<and> (\<forall>b. b \<in> set (fst (drain_due now q)) \<longleftrightarrow> (\<exists>w\<le>now. due_of q b = Some w))
    \<and> (\<forall>b. due_of (snd (drain_due now q)) b = (case due_of q b of
          Some w \<Rightarrow> if w \<le> now then None else Some w | None \<Rightarrow> None))"
proof -
  have "sched_ok \<lparr>sched = sched q, sched_index = sched_index q\<rparr>" using assms by (cases q) simp
  from drain_loop_ok [OF this, of now] show ?thesis
    unfolding drain_due_def due_of_def [of q] .
qed

interpretation retry_queue: timer_queue due_of schedule_at remove_scheduled drain_due wait_next sched_ok
proof (unfold_locales, goal_cases)
  case (1 q b w)
  then show ?case using schedule_at_ok by blast
next
  case (2 q b)
  then show ?case using remove_scheduled_ok by blast
next
  case (3 q b now)
  then show ?case using drain_due_ok [of q now] by blast
next
  case (4 q now)
  then show ?case using drain_due_ok [of q now] by blast
next
  case (5 q now b)
  then show ?case using drain_due_ok [of q now] by blast
next
  case (6 q now t)
  then show ?case using wait_next_due(1) by blast
next
  case (7 q b w now)
  then show ?case using wait_next_due(2) by blast
next
  case (8 q b w)
  then show ?case using schedule_at_ok by blast
next
  case (9 q b)
  then show ?case using remove_scheduled_ok by blast
next
  case (10 q now)
  then show ?case using drain_due_ok [of q now] by blast
qed

section \<open>The delay before a retry\<close>

definition BACKOFF_ATTEMPT_CAP :: nat where "BACKOFF_ATTEMPT_CAP = 30"

definition u64_max :: nat where "u64_max = 2 ^ 64 - 1"

text \<open>The clamped number of seconds, before the jitter. \<open>1u64 << exp\<close> does not overflow.\<close>

definition backoff_raw :: "nat \<Rightarrow> nat \<Rightarrow> nat \<Rightarrow> nat" where
  "backoff_raw attempts base_secs cap_secs =
     (let exp = min (attempts - 1) BACKOFF_ATTEMPT_CAP;
          raw = min (base_secs * 2 ^ exp) u64_max
      in max (min raw cap_secs) 1)"

text \<open>
  \<open>f64\<close> arithmetic is exact arithmetic followed by a rounding \<open>rnd\<close>. Of IEEE 754 only this
  is used: rounding is monotone and odd, and leaves what the format holds, among it
  \<open>k / 4\<close> for every integer \<open>k\<close> up to \<open>2 ^ 53\<close>.
\<close>

definition f64_rounding :: "(rat \<Rightarrow> rat) \<Rightarrow> bool" where
  "f64_rounding rnd \<longleftrightarrow> mono rnd \<and> (\<forall>x. rnd (- x) = - rnd x)
     \<and> (\<forall>k::int. \<bar>k\<bar> \<le> 2 ^ 53 \<longrightarrow> rnd (of_int k / 4) = of_int k / 4)"

definition jitter_fraction :: "(rat \<Rightarrow> rat) \<Rightarrow> nat \<Rightarrow> rat" where
  "jitter_fraction rnd nanos = rnd (rnd (rnd (rnd (of_nat nanos) / 1000000000) * 2) - 1)"

text \<open>\<open>Duration::from_secs_f64\<close> rounds to the nearest nanosecond and panics on overflow.\<close>

definition from_secs_f64 :: "rat \<Rightarrow> nat option" where
  "from_secs_f64 x =
     (let ns = nat (round (x * 1000000000)) in if ns \<le> duration_max then Some ns else None)"

definition backoff_delay :: "(rat \<Rightarrow> rat) \<Rightarrow> nat \<Rightarrow> nat \<Rightarrow> nat \<Rightarrow> nat \<Rightarrow> nat option" where
  "backoff_delay rnd attempts base_secs cap_secs nanos =
     (let raw = rnd (of_nat (backoff_raw attempts base_secs cap_secs));
          jitter = rnd (rnd (raw * rnd (20 / 100)) * jitter_fraction rnd nanos);
          jittered = max (rnd (raw + jitter)) 1
      in from_secs_f64 jittered)"

lemma rnd_quarter: "f64_rounding rnd \<Longrightarrow> \<bar>k\<bar> \<le> 2 ^ 53 \<Longrightarrow> rnd (of_int k / 4) = of_int k / 4"
  by (simp add: f64_rounding_def)

lemma rnd_mono: "f64_rounding rnd \<Longrightarrow> x \<le> y \<Longrightarrow> rnd x \<le> rnd y"
  by (simp add: f64_rounding_def mono_def)

lemma rnd_between:
  "f64_rounding rnd \<Longrightarrow> \<bar>j\<bar> \<le> 2 ^ 53 \<Longrightarrow> \<bar>k\<bar> \<le> 2 ^ 53 \<Longrightarrow> of_int j / 4 \<le> x \<Longrightarrow> x \<le> of_int k / 4 \<Longrightarrow>
   of_int j / 4 \<le> rnd x \<and> rnd x \<le> of_int k / 4"
  by (metis rnd_mono rnd_quarter)

lemma jitter_fraction_range:
  assumes "f64_rounding rnd" and "nanos < 1000000000"
  shows "- 1 \<le> jitter_fraction rnd nanos \<and> jitter_fraction rnd nanos \<le> 1"
proof -
  note b = rnd_between [OF assms(1)]
  let ?a = "rnd (of_nat nanos)"
  have a: "0 \<le> ?a \<and> ?a \<le> 1000000000"
    using b [of 0 4000000000 "of_nat nanos"] assms(2) by simp
  have c: "0 \<le> rnd (?a / 1000000000) \<and> rnd (?a / 1000000000) \<le> 1"
    using b [of 0 4 "?a / 1000000000"] a by simp
  let ?c = "rnd (?a / 1000000000)"
  have d: "0 \<le> rnd (?c * 2) \<and> rnd (?c * 2) \<le> 2" using b [of 0 8 "?c * 2"] c by simp
  show ?thesis using b [of "-4" 4 "rnd (?c * 2) - 1"] d by (simp add: jitter_fraction_def)
qed

lemma backoff_delay_range:
  assumes "f64_rounding rnd" and "nanos < 1000000000"
    and "backoff_raw attempts base_secs cap_secs = raw" and "raw \<le> 2 ^ 50"
  shows "\<exists>d. backoff_delay rnd attempts base_secs cap_secs nanos = Some d
    \<and> secs 1 \<le> d \<and> 3 * secs raw \<le> 4 * d \<and> 4 * d \<le> 5 * secs raw"
proof -
  note b = rnd_between [OF assms(1)]
  let ?r = "of_nat raw :: rat" and ?j = "jitter_fraction rnd nanos"
  have raw1: "1 \<le> raw" using assms(3) by (auto simp: backoff_raw_def Let_def)
  have rr: "rnd ?r = ?r"
    using rnd_quarter [OF assms(1), of "4 * int raw"] assms(4) by simp
  have q: "0 \<le> rnd (20 / 100) \<and> rnd (20 / 100) \<le> 1 / 4" using b [of 0 1 "20 / 100"] by simp
  let ?p = "rnd (?r * rnd (20 / 100))"
  have "0 \<le> ?r * rnd (20 / 100)" using q by simp
  moreover have "?r * rnd (20 / 100) \<le> ?r * (1 / 4)" using q by (intro mult_left_mono) simp_all
  ultimately have p: "0 \<le> ?p \<and> ?p \<le> ?r / 4"
    using b [of 0 "int raw" "?r * rnd (20 / 100)"] assms(4) by simp
  have j: "\<bar>?j\<bar> \<le> 1" using jitter_fraction_range [OF assms(1,2)] by linarith
  have "\<bar>?p * ?j\<bar> \<le> ?r / 4 * 1"
    unfolding abs_mult using p j by (intro mult_mono) simp_all
  then have "of_int (- int raw) / 4 \<le> ?p * ?j" "?p * ?j \<le> of_int (int raw) / 4"
    by (simp_all add: abs_le_iff)
  from b [OF _ _ this] have jit: "- ?r / 4 \<le> rnd (?p * ?j) \<and> rnd (?p * ?j) \<le> ?r / 4"
    using assms(4) by simp
  let ?x = "rnd (?r + rnd (?p * ?j))"
  have x: "3 * ?r / 4 \<le> ?x \<and> ?x \<le> 5 * ?r / 4"
    using b [of "3 * int raw" "5 * int raw" "?r + rnd (?p * ?j)"] jit assms(4) by simp
  let ?y = "max ?x 1 * 1000000000"
  have y: "?y \<le> of_int (1250000000 * int raw)" "of_int (750000000 * int raw) \<le> ?y"
      "of_int 1000000000 \<le> ?y"
    using x raw1 by (auto simp: max_def)
  have r: "round ?y \<le> 1250000000 * int raw" "750000000 * int raw \<le> round ?y" "1000000000 \<le> round ?y"
    using round_mono [OF y(1)] round_mono [OF y(2)] round_mono [OF y(3)] by (simp_all only: round_of_int)
  let ?d = "nat (round ?y)"
  have d: "backoff_delay rnd attempts base_secs cap_secs nanos = from_secs_f64 (max ?x 1)"
    by (simp add: backoff_delay_def Let_def assms(3) rr)
  have "?d \<le> duration_max"
    using r(1) assms(4) by (simp add: duration_max_def nat_le_iff)
  with d have "backoff_delay rnd attempts base_secs cap_secs nanos = Some ?d"
    by (simp add: from_secs_f64_def Let_def)
  moreover have "secs 1 \<le> ?d" "3 * secs raw \<le> 4 * ?d" "4 * ?d \<le> 5 * secs raw"
    using r by (simp_all add: secs_def nat_le_iff le_nat_iff)
  ultimately show ?thesis by blast
qed

end
