(* ===== verification/Family2.thy ===== *)
theory Family2
  imports Rust_Str
begin

text \<open>
  The diagnostic headers of \<open>daemon/submit.rs\<close>: \<open>inject_family2_headers\<close> puts three header
  lines before a message that failed for good, \<open>strip_family2_headers\<close> takes such lines out
  again before the message is retried. Messages are byte strings.
\<close>

section \<open>Lines, header and body\<close>

abbreviation LF :: char where "LF \<equiv> CHR 0x0A"
abbreviation CR :: char where "CR \<equiv> CHR 0x0D"
abbreviation TAB :: char where "TAB \<equiv> CHR 0x09"
abbreviation CRLF :: string where "CRLF \<equiv> [CR, LF]"

fun find_line_end :: "string \<Rightarrow> nat" where
  "find_line_end [] = 0"
| "find_line_end (b # bs) = (if b = LF then 1 else Suc (find_line_end bs))"

fun find_subseq_from :: "nat \<Rightarrow> string \<Rightarrow> string \<Rightarrow> nat option" where
  "find_subseq_from i [] needle = None"
| "find_subseq_from i (b # bs) needle =
     (if prefix needle (b # bs) then Some i else find_subseq_from (Suc i) bs needle)"

definition find_subseq :: "string \<Rightarrow> string \<Rightarrow> nat option" where
  "find_subseq bytes needle =
     (if needle = [] \<or> length needle > length bytes then None else find_subseq_from 0 bytes needle)"

definition split_header_body :: "string \<Rightarrow> string \<times> string" where
  "split_header_body bytes =
     (case find_subseq bytes (CRLF @ CRLF) of
        Some pos \<Rightarrow> (take (pos + 4) bytes, drop (pos + 4) bytes)
      | None \<Rightarrow>
          (case find_subseq bytes [LF, LF] of
             Some pos \<Rightarrow> (take (pos + 2) bytes, drop (pos + 2) bytes)
           | None \<Rightarrow> (bytes, [])))"

definition starts_with_folded_continuation :: "string \<Rightarrow> bool" where
  "starts_with_folded_continuation rest \<longleftrightarrow> (case rest of [] \<Rightarrow> False | b # _ \<Rightarrow> b = CHR '' '' \<or> b = TAB)"

definition line_starts_with_header_ci :: "string \<Rightarrow> string \<Rightarrow> bool" where
  "line_starts_with_header_ci line name \<longleftrightarrow>
     length name \<le> length line
     \<and> list_all2 (\<lambda>a b. ascii_lower a = ascii_lower b) (take (length name) line) name"

definition is_family2_header_line :: "string \<Rightarrow> bool" where
  "is_family2_header_line line \<longleftrightarrow>
     list_ex (line_starts_with_header_ci line) [''X-JMAP-Failure:'', ''X-JMAP-Failed-At:'', ''X-JMAP-Ulid:'']"

section \<open>Strip\<close>

lemma find_line_end_pos: "bs \<noteq> [] \<Longrightarrow> 0 < find_line_end bs"
  by (cases bs) auto

text \<open>How far the folded continuations after a line reach.\<close>

function folded_length :: "string \<Rightarrow> nat" where
  "folded_length rest =
     (if starts_with_folded_continuation rest
      then find_line_end rest + folded_length (drop (find_line_end rest) rest) else 0)"
  by pat_completeness auto
termination
proof (relation "measure length", simp)
  fix rest :: string assume "starts_with_folded_continuation rest"
  then have "rest \<noteq> []" by (auto simp: starts_with_folded_continuation_def)
  then show "(drop (find_line_end rest) rest, rest) \<in> measure length"
    using find_line_end_pos [of rest] by simp
qed

declare folded_length.simps [simp del]

text \<open>The loop over the header, from the position \<open>i\<close> that has been reached.\<close>

function strip_lines :: "string \<Rightarrow> string" where
  "strip_lines header =
     (if header = [] then []
      else let line_end = find_line_end header;
               skip = line_end + folded_length (drop line_end header)
           in (if is_family2_header_line (take line_end header) then [] else take skip header)
              @ strip_lines (drop skip header))"
  by pat_completeness auto
termination
  by (relation "measure length") (auto simp: find_line_end_pos)

declare strip_lines.simps [simp del]

definition strip_family2_headers :: "string \<Rightarrow> string" where
  "strip_family2_headers bytes =
     (let (header, body) = split_header_body bytes in strip_lines header @ body)"

section \<open>Inject\<close>

definition sanitize_reason :: "string \<Rightarrow> string" where
  "sanitize_reason reason =
     join_with '' '' (map utf8_encode (split_ws
       (map (\<lambda>c. if is_control c then 32 else c) (utf8_decode reason))))"

definition inject_family2_headers :: "string \<Rightarrow> string \<Rightarrow> string \<Rightarrow> string \<Rightarrow> string" where
  "inject_family2_headers now bytes reason ulid =
     ''X-JMAP-Failure: '' @ sanitize_reason reason @ CRLF
     @ ''X-JMAP-Failed-At: '' @ now @ CRLF
     @ ''X-JMAP-Ulid: '' @ ulid @ CRLF @ bytes"

section \<open>Finding the end of the header\<close>

lemma prefix_length: "prefix xs ys \<Longrightarrow> length xs \<le> length ys"
  by (auto simp: prefix_def)

lemma find_subseq_from_short: "length bytes < length needle \<Longrightarrow> find_subseq_from i bytes needle = None"
  by (induction bytes arbitrary: i) (auto dest: prefix_length)

lemma find_subseq_eq: "needle \<noteq> [] \<Longrightarrow> find_subseq bytes needle = find_subseq_from 0 bytes needle"
  by (simp add: find_subseq_def find_subseq_from_short)

lemma find_subseq_from_shift:
  "find_subseq_from (i + n) bytes needle = map_option (\<lambda>p. p + n) (find_subseq_from i bytes needle)"
  by (induction bytes arbitrary: i) (auto simp flip: add_Suc)

text \<open>A line that ends in CRLF, followed by something that is not a line break.\<close>

definition plain_line :: "string \<Rightarrow> bool" where
  "plain_line l \<longleftrightarrow> CR \<notin> set l \<and> LF \<notin> set l"

definition opens_line :: "string \<Rightarrow> bool" where
  "opens_line r \<longleftrightarrow> (case r of [] \<Rightarrow> True | c # _ \<Rightarrow> c \<noteq> CR \<and> c \<noteq> LF)"

lemma find_over_line:
  assumes "plain_line l" and "opens_line r" and "needle \<in> {CRLF @ CRLF, [LF, LF]}"
  shows "find_subseq_from i (l @ CRLF @ r) needle = find_subseq_from (i + length l + 2) r needle"
  using assms(1)
proof (induction l arbitrary: i)
  case Nil
  show ?case using assms(2,3) by (cases r) (auto simp: opens_line_def)
next
  case (Cons c l)
  then have "\<not> prefix needle (c # l @ CRLF @ r)" using assms(3) by (auto simp: plain_line_def)
  with Cons show ?case by (simp add: plain_line_def)
qed

lemma find_subseq_over_line:
  assumes "plain_line l" and "opens_line r" and "needle \<in> {CRLF @ CRLF, [LF, LF]}"
  shows "find_subseq (l @ CRLF @ r) needle = map_option (\<lambda>p. p + (length l + 2)) (find_subseq r needle)"
proof -
  have "needle \<noteq> []" using assms(3) by auto
  then show ?thesis
    using find_over_line [OF assms, of 0] find_subseq_from_shift [of 0 "length l + 2" r needle]
    by (simp add: find_subseq_eq)
qed

lemma split_over_line:
  assumes "plain_line l" and "opens_line r"
  shows "split_header_body (l @ CRLF @ r) =
    (l @ CRLF @ fst (split_header_body r), snd (split_header_body r))"
proof -
  note f = find_subseq_over_line [OF assms, simplified]
  show ?thesis
    by (simp add: split_header_body_def f [of "[CR, LF, CR, LF]"] f [of "[LF, LF]"] numeral_eq_Suc
        split: option.splits)
qed

section \<open>Strip undoes inject\<close>

lemma find_line_end_line: "plain_line l \<Longrightarrow> find_line_end (l @ CRLF @ r) = length l + 2"
  by (induction l) (auto simp: plain_line_def)

lemma strip_family2_line:
  assumes "plain_line l" and "is_family2_header_line (l @ CRLF)"
    and "\<not> starts_with_folded_continuation r"
  shows "strip_lines (l @ CRLF @ r) = strip_lines r"
proof -
  have "folded_length r = 0" using assms(3) by (subst folded_length.simps) simp
  then show ?thesis
    using assms(2) find_line_end_line [OF assms(1), of r] by (subst strip_lines.simps) (simp add: Let_def)
qed

lemma folded_take: "starts_with_folded_continuation (take n r) \<Longrightarrow> starts_with_folded_continuation r"
  by (cases r; cases n) (auto simp: starts_with_folded_continuation_def)

lemma folded_header: "starts_with_folded_continuation (fst (split_header_body r)) \<Longrightarrow>
   starts_with_folded_continuation r"
  by (auto simp: split_header_body_def split: option.splits dest: folded_take)

lemma sanitize_reason_plain: "plain_line (sanitize_reason reason)"
proof -
  let ?ns = "map (\<lambda>c. if is_control c then 32 else c) (utf8_decode reason)"
  have bound: "n < 2097152" if "n \<in> set ?ns" for n using that utf8_decode_bound by auto
  have enc: "c \<noteq> CR \<and> c \<noteq> LF" if w: "w \<in> set (split_ws ?ns)" and c: "c \<in> set (utf8_encode w)" for c w
  proof -
    from c obtain n where n: "n \<in> set w" "c \<in> set (utf8_char n)" by (auto simp: utf8_encode_def)
    have "\<not> is_whitespace n" by (rule split_ws_no_space [OF w n(1)])
    then have ne: "n \<noteq> 10" "n \<noteq> 13" by (auto simp: is_whitespace_def)
    have "n < 2097152" using split_ws_subset [OF w] n(1) bound by blast
    then have "(of_char c :: nat) < 128 \<Longrightarrow> of_char c = n" using utf8_char_ascii [OF n(2)] by blast
    with ne show ?thesis by fastforce
  qed
  have join: "c \<in> set (join_with '' '' ws) \<Longrightarrow> c = CHR '' '' \<or> (\<exists>w\<in>set ws. c \<in> set w)" for c ws
    by (induction "'' '' :: string" ws rule: join_with.induct) auto
  show ?thesis
    unfolding plain_line_def sanitize_reason_def
    by (intro conjI notI; drule join; use enc in \<open>fastforce\<close>)
qed

lemma family2_lines:
  "is_family2_header_line (''X-JMAP-Failure: '' @ s)" "is_family2_header_line (''X-JMAP-Failed-At: '' @ s)"
  "is_family2_header_line (''X-JMAP-Ulid: '' @ s)"
  by (simp_all add: is_family2_header_line_def line_starts_with_header_ci_def list_all2_conv_all_nth
      list_all2_refl)

lemma strip_inject:
  assumes now: "plain_line now" and ulid: "plain_line ulid"
    and b: "opens_line b" "\<not> starts_with_folded_continuation b"
  shows "strip_family2_headers (inject_family2_headers now b reason ulid) = strip_family2_headers b"
proof -
  let ?l1 = "''X-JMAP-Failure: '' @ sanitize_reason reason"
  let ?l2 = "''X-JMAP-Failed-At: '' @ now" and ?l3 = "''X-JMAP-Ulid: '' @ ulid"
  let ?h = "fst (split_header_body b)"
  have plain: "plain_line ?l1" "plain_line ?l2" "plain_line ?l3"
    using sanitize_reason_plain [of reason] now ulid by (auto simp: plain_line_def)
  have opens: "opens_line (?l2 @ r)" "opens_line (?l3 @ r)" for r by (simp_all add: opens_line_def)
  have inj: "inject_family2_headers now b reason ulid = ?l1 @ CRLF @ ?l2 @ CRLF @ ?l3 @ CRLF @ b"
    by (simp add: inject_family2_headers_def)
  have split: "split_header_body (?l1 @ CRLF @ ?l2 @ CRLF @ ?l3 @ CRLF @ b)
      = (?l1 @ CRLF @ ?l2 @ CRLF @ ?l3 @ CRLF @ ?h, snd (split_header_body b))"
    unfolding split_over_line [OF plain(1) opens(1)] split_over_line [OF plain(2) opens(2)]
      split_over_line [OF plain(3) b(1)] by simp
  have nf: "\<not> starts_with_folded_continuation (?l2 @ r)" "\<not> starts_with_folded_continuation (?l3 @ r)" for r
    by (simp_all add: starts_with_folded_continuation_def)
  have nfh: "\<not> starts_with_folded_continuation ?h" using b(2) folded_header by blast
  have fam: "is_family2_header_line (?l1 @ CRLF)" "is_family2_header_line (?l2 @ CRLF)"
    "is_family2_header_line (?l3 @ CRLF)" using family2_lines by simp_all
  have "strip_lines (?l1 @ CRLF @ ?l2 @ CRLF @ ?l3 @ CRLF @ ?h) = strip_lines ?h"
    unfolding strip_family2_line [OF plain(1) fam(1) nf(1)] strip_family2_line [OF plain(2) fam(2) nf(2)]
      strip_family2_line [OF plain(3) fam(3) nfh] by (rule refl)
  then show ?thesis
    unfolding strip_family2_headers_def inj split case_prod_unfold Let_def fst_conv snd_conv by (simp only:)
qed

section \<open>Other headers stay\<close>

function physical_lines :: "string \<Rightarrow> string list" where
  "physical_lines h =
     (if h = [] then [] else take (find_line_end h) h # physical_lines (drop (find_line_end h) h))"
  by pat_completeness auto
termination
  by (relation "measure length") (auto simp: find_line_end_pos)

declare physical_lines.simps [simp del]

lemma physical_lines_drop: "set (physical_lines (drop (find_line_end h) h)) \<subseteq> set (physical_lines h)"
  by (cases "h = []") (auto simp: physical_lines.simps [of h])

lemma physical_lines_folded: "set (physical_lines (drop (folded_length h) h)) \<subseteq> set (physical_lines h)"
proof (induction h rule: folded_length.induct)
  case (1 h)
  show ?case
  proof (cases "starts_with_folded_continuation h")
    case True
    let ?h = "drop (find_line_end h) h"
    have "drop (folded_length h) h = drop (folded_length ?h) ?h"
      using True by (subst folded_length.simps) (simp add: add.commute)
    with 1 [OF True] physical_lines_drop [of h] show ?thesis by auto
  next
    case False
    then show ?thesis by (subst folded_length.simps) simp
  qed
qed

lemma strip_lines_other:
  "(\<And>l. l \<in> set (physical_lines h) \<Longrightarrow> \<not> is_family2_header_line l) \<Longrightarrow> strip_lines h = h"
proof (induction h rule: strip_lines.induct)
  case (1 h)
  show ?case
  proof (cases "h = []")
    case False
    let ?e = "find_line_end h"
    let ?s = "?e + folded_length (drop ?e h)"
    have line: "\<not> is_family2_header_line (take ?e h)"
      using "1.prems" False by (simp add: physical_lines.simps [of h])
    have "set (physical_lines (drop ?s h)) \<subseteq> set (physical_lines h)"
      using physical_lines_folded [of "drop ?e h"] physical_lines_drop [of h] by (auto simp: add.commute)
    then have "strip_lines (drop ?s h) = drop ?s h"
      using "1.IH" [OF False refl refl] "1.prems" by blast
    with False line show ?thesis by (subst strip_lines.simps) (simp add: Let_def)
  qed (simp add: strip_lines.simps)
qed

lemma split_header_body_append: "fst (split_header_body b) @ snd (split_header_body b) = b"
  by (simp add: split_header_body_def split: option.splits)

lemma strip_other_headers:
  "(\<And>l. l \<in> set (physical_lines (fst (split_header_body b))) \<Longrightarrow> \<not> is_family2_header_line l) \<Longrightarrow>
   strip_family2_headers b = b"
  using strip_lines_other [of "fst (split_header_body b)"] split_header_body_append [of b]
  by (simp add: strip_family2_headers_def case_prod_unfold)

end
