(* ===== verification/Outbox.thy ===== *)
theory Outbox
  imports Submit_Outcome Retry_Schedule Family2
begin

text \<open>
  The submit loop of \<open>daemon/submit.rs\<close> around one attempt: the sidecar files, locating a
  queued message, the outcome of an attempt, the move to \<open>Failed/\<close>, the events of the file
  watcher, and the queue that the startup scan builds.

  \<open>codec\<close> is \<open>serde_json\<close> on sidecars. \<open>moment\<close> is what the clock, the network wait and the
  identifier generator give during one attempt.
\<close>

record codec =
  sidecar_parse :: "string \<Rightarrow> sidecar_state option"
  sidecar_print :: "sidecar_state \<Rightarrow> string"

record moment =
  mo_iso_now :: string
  mo_epoch :: nat
  mo_nanos :: nat
  mo_rnd :: "rat \<Rightarrow> rat"
  mo_iso_of :: "nat \<Rightarrow> string"
  mo_ulid :: string
  mo_net :: network_wait
  mo_waited :: nat
  mo_cancelled :: bool
  mo_after :: instant

section \<open>Names\<close>

definition strip_flags :: "string \<Rightarrow> string" where
  "strip_flags name = (case rsplit_once '':2,'' name of Some (base, _) \<Rightarrow> base | None \<Rightarrow> name)"

definition sidecar_path :: "path \<Rightarrow> string \<Rightarrow> path" where
  "sidecar_path dir basename = dir @ [basename @ ''.json'']"

definition sidecar_tmp :: "path \<Rightarrow> string \<Rightarrow> path" where
  "sidecar_tmp dir basename = dir @ [''.'' @ basename @ ''.json.tmp'']"

definition tmp_neighbour :: "path \<Rightarrow> path" where
  "tmp_neighbour p =
     butlast p @ [''.'' @ (if p = [] then ''message'' else last p) @ ''.jmapsyncd-tmp'']"

section \<open>Sidecars\<close>

definition load_sidecar :: "env \<Rightarrow> codec \<Rightarrow> path \<Rightarrow> string \<Rightarrow> fs \<Rightarrow> sidecar_state" where
  "load_sidecar v cd dir basename f =
     (if fault v (ReadFile (sidecar_path dir basename)) then default_sidecar
      else case read_file f (sidecar_path dir basename) of
             None \<Rightarrow> default_sidecar
           | Some bytes \<Rightarrow> (case sidecar_parse cd bytes of Some s \<Rightarrow> s | None \<Rightarrow> default_sidecar))"

definition save_sidecar :: "env \<Rightarrow> codec \<Rightarrow> path \<Rightarrow> string \<Rightarrow> sidecar_state \<Rightarrow> (world, unit) io" where
  "save_sidecar v cd dir basename s =
     bindE (sys_write v (sidecar_tmp dir basename) (sidecar_print cd s)) (\<lambda>_.
       sys_rename v (sidecar_tmp dir basename) (sidecar_path dir basename))"

definition reset_sidecar_for_retry :: "env \<Rightarrow> codec \<Rightarrow> path \<Rightarrow> string \<Rightarrow> (world, unit) io" where
  "reset_sidecar_for_retry v cd dir basename =
     bindE (fs_query (load_sidecar v cd dir basename)) (\<lambda>sc.
       ignore_err (save_sidecar v cd dir basename (sc\<lparr>sd_retry := None, sd_in_flight := None\<rparr>)))"

section \<open>Locating a message\<close>

definition read_message :: "env \<Rightarrow> fs \<Rightarrow> path \<Rightarrow> err + path \<times> string" where
  "read_message v f p =
     (if fault v (ReadFile p) then Inl (IoError (ReadFile p))
      else case read_file f p of None \<Rightarrow> Inl (IoError (ReadFile p)) | Some c \<Rightarrow> Inr (p, c))"

definition list_dir :: "env \<Rightarrow> fs \<Rightarrow> path \<Rightarrow> string list" where
  "list_dir v f dir =
     (if fault v (ReadDir dir) then [] else case read_dir f dir of None \<Rightarrow> [] | Some ns \<Rightarrow> ns)"

definition locate_in :: "env \<Rightarrow> fs \<Rightarrow> path \<Rightarrow> string \<Rightarrow> (err + path \<times> string) option" where
  "locate_in v f dir basename =
     (if is_file f (dir @ [basename]) then Some (read_message v f (dir @ [basename]))
      else map_option (\<lambda>n. read_message v f (dir @ [n]))
             (find (prefix (basename @ '':2,'')) (list_dir v f dir)))"

definition locate_and_read_outbox_message ::
    "env \<Rightarrow> path \<Rightarrow> string \<Rightarrow> fs \<Rightarrow> err + path \<times> string" where
  "locate_and_read_outbox_message v outbox basename f =
     (case locate_in v f (outbox @ [''new'']) basename of
        Some r \<Rightarrow> r
      | None \<Rightarrow>
          (case locate_in v f (outbox @ [''cur'']) basename of
             Some r \<Rightarrow> r
           | None \<Rightarrow> Inl (Refused ''no file matching'')))"

definition scan_maildir_files :: "env \<Rightarrow> path \<Rightarrow> fs \<Rightarrow> path list" where
  "scan_maildir_files v base f =
     concat (map (\<lambda>sub. map (\<lambda>n. base @ [sub, n])
       (filter (\<lambda>n. \<not> prefix ''.'' n \<and> is_file f (base @ [sub, n])) (list_dir v f (base @ [sub]))))
       [''new'', ''cur''])"

definition scan_basenames :: "env \<Rightarrow> path \<Rightarrow> fs \<Rightarrow> string list" where
  "scan_basenames v base f = remdups (map (\<lambda>p. strip_flags (last p)) (scan_maildir_files v base f))"

section \<open>Moving a message to Failed\<close>

definition move_to_failed_atomic ::
    "env \<Rightarrow> string \<Rightarrow> path \<Rightarrow> path \<Rightarrow> string \<Rightarrow> string \<Rightarrow> string \<Rightarrow> (world, path) io" where
  "move_to_failed_atomic v now src failed_dir basename reason ulid =
     bindE (sys_read_file v src) (\<lambda>bytes.
     let annotated = inject_family2_headers now bytes reason ulid;
         tmp_path = failed_dir @ [''tmp'', basename];
         new_path = failed_dir @ [''new'', basename]
     in bindE (sys_create_dir_all v (failed_dir @ [''tmp''])) (\<lambda>_.
        bindE (sys_create_dir_all v (failed_dir @ [''new''])) (\<lambda>_.
        bindE (sys_write v tmp_path annotated) (\<lambda>_.
        bindE (sys_rename v tmp_path new_path) (\<lambda>_.
        bindE (if src \<noteq> new_path then ignore_err (sys_remove_file v src) else ret ()) (\<lambda>_.
          ret new_path))))))"

definition strip_family2_headers_in_place :: "env \<Rightarrow> path \<Rightarrow> (world, unit) io" where
  "strip_family2_headers_in_place v p =
     bindE (sys_read_file v p) (\<lambda>bytes.
       let stripped = strip_family2_headers bytes in
       if stripped = bytes then ret ()
       else bindE (sys_write v (tmp_neighbour p) stripped) (\<lambda>_. sys_rename v (tmp_neighbour p) p))"

section \<open>One attempt\<close>

definition swallow :: "('w, 'a) io \<Rightarrow> ('w, unit) io" where
  "swallow m = (\<lambda>w. (Inr (), snd (m w)))"

definition u32_max :: nat where "u32_max = 2 ^ 32 - 1"

definition next_attempts :: "sidecar_state \<Rightarrow> nat" where
  "next_attempts s = (case sd_retry s of Some r \<Rightarrow> min (rt_attempts r + 1) u32_max | None \<Rightarrow> 1)"

record attempt_result =
  ar_queue :: retry_schedule
  ar_notifier :: failure_notifier
  ar_notices :: "notification list"
  ar_outcome :: "submit_outcome option"
  ar_requests :: "jmap_request list"

text \<open>What follows the outcome of \<open>submit_one\<close>.\<close>

definition settle_attempt ::
    "env \<Rightarrow> codec \<Rightarrow> moment \<Rightarrow> submit_config \<Rightarrow> path \<Rightarrow> path \<Rightarrow> string \<Rightarrow> retry_schedule \<Rightarrow> failure_notifier
     \<Rightarrow> path \<Rightarrow> sidecar_state \<Rightarrow> submit_outcome \<Rightarrow> jmap_request list \<Rightarrow> (world, attempt_result) io" where
  "settle_attempt v cd mo cfg sidecar_dir failed basename q n msg_path sidecar outcome sent =
     (case outcome of
           Success \<Rightarrow>
             (let (ns, n') = notify_recovered n in
              bindE (ignore_err (sys_remove_file v msg_path)) (\<lambda>_.
              bindE (ignore_err (sys_remove_file v (sidecar_path sidecar_dir basename))) (\<lambda>_.
                ret \<lparr>ar_queue = q, ar_notifier = n', ar_notices = ns, ar_outcome = Some outcome,
                     ar_requests = sent\<rparr>)))
         | Transient reason \<Rightarrow>
             (case backoff_delay (mo_rnd mo) (next_attempts sidecar) (retry_base_secs cfg)
                     (retry_cap_secs cfg) (mo_nanos mo) of
                None \<Rightarrow> throw (Refused ''panic: the delay overflows Duration'')
              | Some delay \<Rightarrow>
                  let due_at_secs = min (mo_epoch mo + delay div 1000000000) u64_max;
                      sidecar' = sidecar\<lparr>sd_in_flight := None,
                        sd_retry := Some \<lparr>rt_attempts = next_attempts sidecar,
                          rt_next_at = Some (mo_iso_of mo due_at_secs), rt_last_error = Some reason\<rparr>\<rparr>;
                      (ns, n') = notify_failed n;
                      (_, go_on) = wait_for_connectivity_or_delay (mo_net mo) delay (mo_waited mo) (mo_cancelled mo)
                  in bindE (ignore_err (save_sidecar v cd sidecar_dir basename sidecar')) (\<lambda>_.
                     ret \<lparr>ar_queue = (if go_on then schedule_at basename (mo_after mo) q else q),
                          ar_notifier = n', ar_notices = ns, ar_outcome = Some outcome,
                          ar_requests = sent\<rparr>))
         | Permanent reason \<Rightarrow>
             bindE (swallow (move_to_failed_atomic v (mo_iso_now mo) msg_path failed basename reason (mo_ulid mo))) (\<lambda>_.
             bindE (ignore_err (sys_remove_file v (sidecar_path sidecar_dir basename))) (\<lambda>_.
               ret \<lparr>ar_queue = q, ar_notifier = n, ar_notices = [], ar_outcome = Some outcome,
                    ar_requests = sent\<rparr>)))"

definition in_flight_sidecar :: "env \<Rightarrow> codec \<Rightarrow> moment \<Rightarrow> path \<Rightarrow> string \<Rightarrow> fs \<Rightarrow> sidecar_state" where
  "in_flight_sidecar v cd mo dir b f = (load_sidecar v cd dir b f)\<lparr>sd_in_flight := Some (mo_iso_now mo)\<rparr>"

definition handle_submit_attempt ::
    "env \<Rightarrow> codec \<Rightarrow> submit_server \<Rightarrow> moment \<Rightarrow> submit_context \<Rightarrow> submit_config \<Rightarrow> path \<Rightarrow> path \<Rightarrow> path
     \<Rightarrow> string \<Rightarrow> retry_schedule \<Rightarrow> failure_notifier \<Rightarrow> (world, attempt_result) io" where
  "handle_submit_attempt v cd srv mo ctx cfg sidecar_dir outbox failed basename q n =
     bindE (fs_query (locate_and_read_outbox_message v outbox basename)) (\<lambda>located.
     case located of
       Inl _ \<Rightarrow>
         bindE (ignore_err (sys_remove_file v (sidecar_path sidecar_dir basename))) (\<lambda>_.
           ret \<lparr>ar_queue = q, ar_notifier = n, ar_notices = [], ar_outcome = None, ar_requests = []\<rparr>)
     | Inr (msg_path, msg_bytes) \<Rightarrow>
         bindE (fs_query (in_flight_sidecar v cd mo sidecar_dir basename)) (\<lambda>sidecar.
         bindE (ignore_err (save_sidecar v cd sidecar_dir basename sidecar)) (\<lambda>_.
           let (outcome, sent) = submit_one srv ctx msg_bytes sidecar in
           settle_attempt v cd mo cfg sidecar_dir failed basename q n msg_path sidecar outcome sent)))"

section \<open>Events\<close>

datatype outbox_side = OutboxSide | FailedSide

datatype raw_event_kind = CreateOrRenameTo | RemoveEvent | RenameFrom

record outbox_event =
  ev_side :: outbox_side
  ev_path :: path
  ev_subdir :: string
  ev_kind :: raw_event_kind

record pending_rename =
  pr_side :: outbox_side
  pr_seen_at :: instant

record loop_state =
  ls_known_failures :: "string list"
  ls_pending :: "(string, pending_rename) hmap"
  ls_queue :: retry_schedule

definition RENAME_PAIR_WINDOW :: nat where "RENAME_PAIR_WINDOW = 500000000"

definition handle_event ::
    "env \<Rightarrow> codec \<Rightarrow> path \<Rightarrow> instant \<Rightarrow> outbox_event \<Rightarrow> loop_state \<Rightarrow> (world, loop_state) io" where
  "handle_event v cd sidecar_dir now ev s =
     (if ev_path ev = [] then ret s
      else let filename = last (ev_path ev); basename = strip_flags filename in
      if prefix ''.'' filename then ret s
      else (case (ev_side ev, ev_kind ev) of
        (OutboxSide, CreateOrRenameTo) \<Rightarrow>
          (case map_of (ls_pending s) basename of
             Some p \<Rightarrow>
               let s1 = s\<lparr>ls_pending := AList.delete basename (ls_pending s)\<rparr> in
               if pr_side p = FailedSide
               then bindE (ignore_err (strip_family2_headers_in_place v (ev_path ev))) (\<lambda>_.
                    bindE (reset_sidecar_for_retry v cd sidecar_dir basename) (\<lambda>_.
                      ret (s1\<lparr>ls_known_failures := removeAll basename (ls_known_failures s),
                              ls_queue := schedule_at basename now (ls_queue s)\<rparr>)))
               else ret (s1\<lparr>ls_queue := schedule_at basename now (ls_queue s)\<rparr>)
           | None \<Rightarrow> ret (s\<lparr>ls_queue := schedule_at basename now (ls_queue s)\<rparr>))
      | (OutboxSide, RemoveEvent) \<Rightarrow> ret (s\<lparr>ls_queue := remove_scheduled basename (ls_queue s)\<rparr>)
      | (OutboxSide, RenameFrom) \<Rightarrow>
          ret (s\<lparr>ls_pending := AList.update basename \<lparr>pr_side = OutboxSide, pr_seen_at = now\<rparr> (ls_pending s)\<rparr>)
      | (FailedSide, CreateOrRenameTo) \<Rightarrow>
          ret (s\<lparr>ls_known_failures := List.insert basename (ls_known_failures s),
                 ls_queue := remove_scheduled basename (ls_queue s)\<rparr>)
      | (FailedSide, RemoveEvent) \<Rightarrow>
          ret (s\<lparr>ls_known_failures := removeAll basename (ls_known_failures s)\<rparr>)
      | (FailedSide, RenameFrom) \<Rightarrow>
          ret (s\<lparr>ls_pending := AList.update basename \<lparr>pr_side = FailedSide, pr_seen_at = now\<rparr> (ls_pending s)\<rparr>)))"

definition expire_pending_renames :: "instant \<Rightarrow> loop_state \<Rightarrow> loop_state" where
  "expire_pending_renames now s =
     (let expired = filter (\<lambda>(_, p). now - pr_seen_at p > RENAME_PAIR_WINDOW) (ls_pending s)
      in s\<lparr>ls_pending := fold (\<lambda>(k, _). AList.delete k) expired (ls_pending s),
           ls_known_failures := fold (\<lambda>(k, p). if pr_side p = FailedSide then removeAll k else id)
             expired (ls_known_failures s)\<rparr>)"

text \<open>The kinds of \<open>notify\<close> that the code tells apart.\<close>

datatype rename_mode = FromMode | ToMode | OtherMode

datatype notify_kind = NotifyCreate | NotifyRemove | NotifyName rename_mode | NotifyOther

fun classify_event :: "notify_kind \<Rightarrow> raw_event_kind option" where
  "classify_event NotifyCreate = Some CreateOrRenameTo"
| "classify_event NotifyRemove = Some RemoveEvent"
| "classify_event (NotifyName FromMode) = Some RenameFrom"
| "classify_event (NotifyName _) = Some CreateOrRenameTo"
| "classify_event NotifyOther = None"

definition classify_path :: "path \<Rightarrow> path \<Rightarrow> path \<Rightarrow> (outbox_side \<times> string) option" where
  "classify_path p outbox_ab failed_ab =
     (let below = (\<lambda>side base. case drop (length base) p of
            [] \<Rightarrow> None
          | subdir # rest \<Rightarrow>
              if subdir \<notin> {''new'', ''cur''} \<or> rest = [] then None else Some (side, subdir))
      in if prefix outbox_ab p then below OutboxSide outbox_ab
         else if prefix failed_ab p then below FailedSide failed_ab
         else None)"

text \<open>The debouncer drops an event when an equal one was let through within the window.\<close>

type_synonym event_key = "outbox_side \<times> string \<times> raw_event_kind"

definition event_key :: "outbox_event \<Rightarrow> event_key" where
  "event_key ev = (ev_side ev, if ev_path ev = [] then [] else last (ev_path ev), ev_kind ev)"

fun debounce ::
    "nat \<Rightarrow> (event_key, instant) hmap \<Rightarrow> (instant \<times> outbox_event) list \<Rightarrow> (instant \<times> outbox_event) list" where
  "debounce window last_seen [] = []"
| "debounce window last_seen ((now, ev) # evs) =
     (case map_of last_seen (event_key ev) of
        Some prev \<Rightarrow>
          if now - prev < window then debounce window last_seen evs
          else (now, ev) # debounce window (AList.update (event_key ev) now last_seen) evs
      | None \<Rightarrow> (now, ev) # debounce window (AList.update (event_key ev) now last_seen) evs)"

section \<open>Startup\<close>

definition next_at_epoch_secs :: "submit_server \<Rightarrow> retry_state \<Rightarrow> nat option" where
  "next_at_epoch_secs srv r =
     (case rt_next_at r of
        None \<Rightarrow> None
      | Some s \<Rightarrow> (case parse_rfc3339 srv s of Inl _ \<Rightarrow> None | Inr t \<Rightarrow> Some (nat t)))"

definition startup_queue ::
    "env \<Rightarrow> codec \<Rightarrow> submit_server \<Rightarrow> path \<Rightarrow> path \<Rightarrow> nat \<Rightarrow> instant \<Rightarrow> fs \<Rightarrow> retry_schedule" where
  "startup_queue v cd srv sidecar_dir outbox now_epoch_secs now f =
     fold (\<lambda>p q.
         let basename = strip_flags (last p);
             sidecar = load_sidecar v cd sidecar_dir basename f;
             due_secs = (case Option.bind (sd_retry sidecar) (next_at_epoch_secs srv) of
                 Some d \<Rightarrow> d | None \<Rightarrow> now_epoch_secs)
         in schedule_at basename (now + secs (due_secs - now_epoch_secs)) q)
       (scan_maildir_files v outbox f) new_schedule"

end
