(* ===== verification/Submit_Facts.thy ===== *)
theory Submit_Facts
  imports Submit_Outcome
begin

text \<open>
  What one submission attempt guarantees: which failures are retried, what goes onto the
  wire, what a success means, and when a second submission is created.
\<close>

section \<open>Retried or not\<close>

fun retried :: "submit_outcome \<Rightarrow> bool" where
  "retried (Transient _) = True"
| "retried _ = False"

lemma retried_method:
  "retried (from_method_error me) \<longleftrightarrow> me_type me \<in> {ServerUnavailable, ServerFail, ServerPartialFail}"
  by (cases "me_type me") (simp_all add: from_method_error_def)

lemma method_not_success: "from_method_error me \<noteq> Success"
  by (cases "me_type me") (simp_all add: from_method_error_def)

lemma jmap_error_not_success: "from_jmap_error d e \<noteq> Success"
  by (cases e) (auto simp: Let_def method_not_success split: option.splits)

section \<open>What is sent\<close>

fun submission_of :: "jmap_request \<Rightarrow> submission option" where
  "submission_of (ImportSubmit _ _ _ s) = Some s"
| "submission_of (ReconcileSet _ s) = Some s"
| "submission_of _ = None"

abbreviation submissions :: "jmap_request list \<Rightarrow> submission list" where
  "submissions log \<equiv> List.map_filter submission_of log"

lemma reconcile_log:
  assumes "reconcile_after_import srv ctx sidecar existing send_at = (out, log)"
  shows "log = [ReconcileFetch (sc_account_id ctx) existing] \<or>
    (\<exists>ds mb pend rs. log = [ReconcileFetch (sc_account_id ctx) existing,
        ReconcileSet ds (build_submission srv ctx sidecar existing send_at)]
      \<and> srv_send srv (ReconcileFetch (sc_account_id ctx) existing) = Inr rs
      \<and> reconcile_facts [] [] rs = Inr (mb, pend) \<and> sc_sent_id ctx \<notin> set mb
      \<and> ds = (if pend = [] then None else Some pend))"
  using assms
  by (auto simp: reconcile_after_import_def Let_def reconcile_action_def execute_reconciled_submission_def
      split: sum.splits prod.splits if_splits)

lemma submit_one_valid:
  assumes "submit_one srv ctx msg sidecar = (out, log)" and "log \<noteq> []"
  shows "envelope_validation_error (sd_envelope sidecar) = None
    \<and> (\<exists>send_at. parse_send_at srv sidecar = Inr send_at
       \<and> (\<exists>rest. log = Upload (sc_account_id ctx) msg # rest
          \<and> (rest = [] \<or> (\<exists>blob rest'. rest = ImportSubmit (sc_account_id ctx) blob (sc_drafts_id ctx)
                (build_submission srv ctx sidecar ''#i0'' send_at) # rest'
              \<and> (rest' = [] \<or> (\<exists>rs existing out'.
                    srv_send srv (ImportSubmit (sc_account_id ctx) blob (sc_drafts_id ctx)
                      (build_submission srv ctx sidecar ''#i0'' send_at)) = Inr rs
                    \<and> check_submitted srv None rs = Inr (Some existing)
                    \<and> reconcile_after_import srv ctx sidecar existing send_at = (out', rest')))))))"
  using assms
  by (auto simp: submit_one_def Let_def split: option.splits sum.splits prod.splits)

lemma parse_send_at_None: "parse_send_at srv sidecar = Inr send_at \<Longrightarrow>
   send_at = None \<longleftrightarrow> sd_send_at sidecar = None"
  by (auto simp: parse_send_at_def split: option.splits sum.splits)

lemma submissions_built:
  assumes "submit_one srv ctx msg sidecar = (out, log)" and "s \<in> set (submissions log)"
  obtains email_id send_at where "s = build_submission srv ctx sidecar email_id send_at"
    "parse_send_at srv sidecar = Inr send_at"
    "envelope_validation_error (sd_envelope sidecar) = None"
proof -
  from assms(2) have "log \<noteq> []" by auto
  from submit_one_valid [OF assms(1) this] assms(2) that show thesis
    by (fastforce dest: reconcile_log)
qed

section \<open>What success means\<close>

text \<open>An answer that does not stand in the way of a success.\<close>

fun confirming :: "method_response \<Rightarrow> bool" where
  "confirming (MrError _) = False"
| "confirming (MrImportEmail nc created) = (nc = [] \<and> created \<noteq> [])"
| "confirming (MrSetEmailSubmission e c) = (e = None \<and> c)"
| "confirming _ = True"

lemma check_submitted_keeps_existing: "check_submitted srv (Some i) rs \<noteq> Inr None"
proof (induction rs arbitrary: i)
  case (Cons r rs)
  show ?case
  proof (cases r)
    case (MrImportEmail nc cr)
    show ?thesis
    proof (cases nc)
      case Nil
      then show ?thesis using Cons MrImportEmail by simp
    next
      case (Cons n ncs)
      then show ?thesis using Cons.IH MrImportEmail by (cases n) (auto split: option.splits)
    qed
  qed (use Cons in simp_all)
qed simp

lemma check_submitted_confirms:
  "check_submitted srv None rs = Inr None \<longleftrightarrow> list_all confirming rs"
proof (induction rs)
  case (Cons r rs)
  show ?case
  proof (cases r)
    case (MrImportEmail nc cr)
    show ?thesis
    proof (cases nc)
      case Nil
      then show ?thesis using Cons.IH MrImportEmail by simp
    next
      case (Cons n ncs)
      then show ?thesis using check_submitted_keeps_existing MrImportEmail
        by (cases n) (auto split: option.splits)
    qed
  qed (use Cons in \<open>auto split: option.splits\<close>)
qed simp

lemma check_submitted_existing:
  "check_submitted srv ex rs = Inr (Some i) \<Longrightarrow> ex \<noteq> Some i \<Longrightarrow>
   \<exists>k e nc cr. MrImportEmail ((k, Some e) # nc) cr \<in> set rs \<and> already_exists_id_from e = Some i"
proof (induction rs arbitrary: ex)
  case (Cons r rs)
  show ?case
  proof (cases r)
    case (MrImportEmail nc cr)
    show ?thesis
    proof (cases nc)
      case Nil
      with Cons.prems MrImportEmail have "check_submitted srv ex rs = Inr (Some i)"
        by (simp split: if_splits)
      from Cons.IH [OF this Cons.prems(2)] show ?thesis by auto
    next
      case n: (Cons n ncs)
      obtain k e where ke: "n = (k, e)" by (cases n)
      from Cons.prems(1) MrImportEmail n ke obtain err x where x: "e = Some err"
        "already_exists_id_from err = Some x" "check_submitted srv (Some x) rs = Inr (Some i)"
        by (auto split: option.splits)
      show ?thesis
      proof (cases "x = i")
        case True
        with x n ke MrImportEmail show ?thesis by auto
      next
        case False
        with Cons.IH [OF x(3)] show ?thesis by auto
      qed
    qed
  qed (use Cons in \<open>auto split: if_splits option.splits; fastforce\<close>)+
qed simp

fun reconciled_ok :: "method_response \<Rightarrow> bool" where
  "reconciled_ok (MrError _) = False"
| "reconciled_ok (MrSetEmailSubmission e c) = (e = None \<and> c)"
| "reconciled_ok _ = True"

lemma check_reconciled_success: "check_reconciled rs = Success \<longleftrightarrow> list_all reconciled_ok rs"
  by (induction rs rule: check_reconciled.induct) (simp_all add: method_not_success)

end
