(* ===== verification/Outbox_Facts.thy ===== *)
theory Outbox_Facts
  imports Outbox Submit_Facts
begin

text \<open>
  What the submit loop guarantees of a queued message: an attempt that does not end in
  success leaves it on the disk, every message in the Outbox is queued at startup, and the
  queue stays consistent. The last section follows a message that failed for good and is
  dragged back, and one whose events come too fast.
\<close>

section \<open>Frames\<close>

lemma keeps_swallow [keeps_rules]: "keeps P m \<Longrightarrow> keeps P (swallow m)"
  by (simp add: keeps_def swallow_def)

definition holds :: "path \<Rightarrow> string \<Rightarrow> fs \<Rightarrow> bool" where
  "holds p c f \<longleftrightarrow> map_of f p = Some (File c)"

lemma holds_read: "holds p c f \<longleftrightarrow> read_file f p = Some c"
  by (auto simp: holds_def read_file_def split: option.splits node.splits)

lemma keeps_holds:
  "keeps (\<lambda>w. holds p c (files w)) (sys_create_dir_all v d)"
  "q \<noteq> p \<Longrightarrow> keeps (\<lambda>w. holds p c (files w)) (sys_write v q x)"
  "q \<noteq> p \<Longrightarrow> keeps (\<lambda>w. holds p c (files w)) (sys_remove_file v q)"
  unfolding sys_create_dir_all_def sys_write_def sys_remove_file_def holds_def
  by (rule keeps_sys_files; simp add: map_of_create_dir_all map_of_write_file map_of_remove_file)+

text \<open>Writing a file and renaming it leaves every other file alone.\<close>

lemma keeps_holds_write_rename:
  assumes "q \<noteq> p" and "r \<noteq> p"
  shows "keeps (\<lambda>w. holds p c (files w)) (bindE (sys_write v q x) (\<lambda>_. sys_rename v q r))"
proof (rule keepsI)
  fix w :: world assume h: "holds p c (files w)"
  obtain r1 w1 where w1: "sys_write v q x w = (r1, w1)" by fastforce
  show "holds p c (files (snd (bindE (sys_write v q x) (\<lambda>_. sys_rename v q r) w)))"
  proof (cases r1)
    case (Inl e)
    then show ?thesis using w1 h by (auto simp: bindE_def sys_write_def dest: sys_Inl)
  next
    case (Inr u)
    then obtain f where f: "write_file (files w) q x = Some f" "w1 = w\<lparr>files := f\<rparr>"
      using w1 by (auto simp: sys_write_def sys_Inr)
    have q: "map_of f q = Some (File x)" and p: "holds p c f"
      using f(1) h assms by (simp_all add: map_of_write_file holds_def)
    obtain r2 w2 where w2: "sys_rename v q r w1 = (r2, w2)" by fastforce
    have "holds p c (files w2)"
    proof (cases r2)
      case (Inl e)
      with w2 p f(2) show ?thesis by (auto simp: sys_rename_def dest: sys_Inl)
    next
      case (Inr u2)
      then obtain g where "rename f q r = Some g" "w2 = w1\<lparr>files := g\<rparr>"
        using w2 f(2) by (auto simp: sys_rename_def sys_Inr)
      with map_of_rename_file [OF _ q] p assms show ?thesis by (simp add: holds_def)
    qed
    with w1 w2 Inr show ?thesis by (simp add: bindE_def)
  qed
qed

lemma sidecar_under: "prefix dir (sidecar_path dir b)" "prefix dir (sidecar_tmp dir b)"
  by (simp_all add: sidecar_path_def sidecar_tmp_def)

lemma keeps_holds_save:
  "\<not> prefix dir p \<Longrightarrow> keeps (\<lambda>w. holds p c (files w)) (save_sidecar v cd dir b s)"
  unfolding save_sidecar_def
  by (rule keeps_holds_write_rename) (use sidecar_under in metis)+

section \<open>Moving to Failed\<close>

lemma move_to_failed_outcome:
  assumes run: "move_to_failed_atomic v now src failed b reason ulid w = (r, w')"
    and src: "holds src bytes (files w)" and ne: "\<not> prefix failed src"
  shows "(\<exists>e. r = Inl e \<and> holds src bytes (files w')) \<or>
     (r = Inr (failed @ [''new'', b])
      \<and> holds (failed @ [''new'', b]) (inject_family2_headers now bytes reason ulid) (files w'))"
proof -
  let ?tmp = "failed @ [''tmp'', b]" and ?new = "failed @ [''new'', b]"
  let ?ann = "inject_family2_headers now bytes reason ulid"
  have paths: "?tmp \<noteq> src" "?new \<noteq> src" using ne by (auto simp: prefix_def)
  obtain r1 w1 where rd: "sys_read_file v src w = (r1, w1)" by fastforce
  then have w1: "w1 = w" by (auto simp: sys_read_file_def split: if_splits option.splits)
  show ?thesis
  proof (cases r1)
    case (Inl e)
    with run rd w1 src show ?thesis by (auto simp: move_to_failed_atomic_def bindE_def)
  next
    case (Inr c)
    with rd src have c: "c = bytes"
      by (auto simp: sys_read_file_def holds_read split: if_splits option.splits)
    let ?prep = "bindE (sys_create_dir_all v (failed @ [''tmp''])) (\<lambda>_.
      bindE (sys_create_dir_all v (failed @ [''new''])) (\<lambda>_. sys_write v ?tmp ?ann))"
    let ?rest = "bindE (if src \<noteq> ?new then ignore_err (sys_remove_file v src) else ret ()) (\<lambda>_. ret ?new)"
    have run': "bindE ?prep (\<lambda>_. bindE (sys_rename v ?tmp ?new) (\<lambda>_. ?rest)) w = (r, w')"
      using run unfolding move_to_failed_atomic_def Let_def
        bindE_Inr [where m = "sys_read_file v src" and w = w, OF rd [unfolded Inr w1 c]] bindE_assoc .
    obtain r2 w2 where prep: "?prep w = (r2, w2)" by fastforce
    have "keeps (\<lambda>x. holds src bytes (files x)) ?prep"
      using paths by (intro keeps_bindE keeps_holds)
    with src prep have src2: "holds src bytes (files w2)" using keepsD by fastforce
    show ?thesis
    proof (cases r2)
      case (Inl e)
      with run' prep src2 show ?thesis by (auto simp: bindE_def)
    next
      case u2: (Inr u)
      obtain wb where "sys_write v ?tmp ?ann wb = (Inr (), w2)"
        using prep [unfolded u2 bindE_eq_Inr] by auto
      then have "write_file (files wb) ?tmp ?ann = Some (files w2)" by (auto simp: sys_write_def sys_Inr)
      then have tmp: "map_of (files w2) ?tmp = Some (File ?ann)" by (simp add: map_of_write_file)
      obtain r3 w3 where ren: "sys_rename v ?tmp ?new w2 = (r3, w3)" by fastforce
      show ?thesis
      proof (cases r3)
        case (Inl e)
        with ren have "w3 = w2" by (auto simp: sys_rename_def dest: sys_Inl)
        with Inl run' prep u2 ren src2 show ?thesis by (auto simp: bindE_def)
      next
        case u3: (Inr u)
        then obtain f where f: "rename (files w2) ?tmp ?new = Some f" "w3 = w2\<lparr>files := f\<rparr>"
          using ren by (auto simp: sys_rename_def sys_Inr)
        have new3: "holds ?new ?ann (files w3)"
          using map_of_rename_file [OF f(1) tmp] f(2) by (simp add: holds_def)
        have rest: "?rest w3 = (r, w')" using run' prep u2 ren u3 by (simp add: bindE_def)
        have "keeps (\<lambda>x. holds ?new ?ann (files x)) ?rest"
          using paths by (intro keeps_rules keeps_holds) simp_all
        with new3 rest have "holds ?new ?ann (files w')" using keepsD by fastforce
        moreover have "r = Inr ?new" using rest by (auto simp: bindE_def ignore_err_def split: if_splits)
        ultimately show ?thesis by blast
      qed
    qed
  qed
qed

section \<open>One attempt\<close>

lemma locate_file:
  assumes "locate_and_read_outbox_message v outbox b f = Inr (p, bytes)"
  shows "holds p bytes f \<and> (\<exists>sub name. p = outbox @ [sub, name])"
  using assms
  by (auto simp: locate_and_read_outbox_message_def locate_in_def read_message_def holds_read
      split: option.splits if_splits)

text \<open>The places a message of the Outbox can be found in after an attempt.\<close>

definition kept :: "moment \<Rightarrow> path \<Rightarrow> string \<Rightarrow> path \<Rightarrow> string \<Rightarrow> string \<Rightarrow> fs \<Rightarrow> bool" where
  "kept mo failed b p bytes reason f \<longleftrightarrow>
     holds p bytes f
     \<or> holds (failed @ [''new'', b]) (inject_family2_headers (mo_iso_now mo) bytes reason (mo_ulid mo)) f"

lemma attempt_located:
  assumes "locate_and_read_outbox_message v outbox b (files w) = Inr (p, bytes)"
    and "submit_one srv ctx bytes (in_flight_sidecar v cd mo sidecar_dir b (files w)) = (out, reqs)"
  shows "handle_submit_attempt v cd srv mo ctx cfg sidecar_dir outbox failed b q n w =
    settle_attempt v cd mo cfg sidecar_dir failed b q n p
      (in_flight_sidecar v cd mo sidecar_dir b (files w)) out reqs
      (snd (save_sidecar v cd sidecar_dir b (in_flight_sidecar v cd mo sidecar_dir b (files w)) w))"
proof -
  let ?sc = "in_flight_sidecar v cd mo sidecar_dir b (files w)"
  have loc: "fs_query (locate_and_read_outbox_message v outbox b) w = (Inr (Inr (p, bytes)), w)"
    by (simp add: fs_query_def assms(1))
  have sc: "fs_query (in_flight_sidecar v cd mo sidecar_dir b) w = (Inr ?sc, w)"
    by (simp add: fs_query_def)
  have sv: "ignore_err (save_sidecar v cd sidecar_dir b ?sc) w
      = (Inr (), snd (save_sidecar v cd sidecar_dir b ?sc w))"
    by (simp add: ignore_err_def)
  show ?thesis
    unfolding handle_submit_attempt_def
      bindE_Inr [where m = "fs_query (locate_and_read_outbox_message v outbox b)" and w = w, OF loc]
      sum.case prod.case
      bindE_Inr [where m = "fs_query (in_flight_sidecar v cd mo sidecar_dir b)" and w = w, OF sc]
      bindE_Inr [where m = "ignore_err (save_sidecar v cd sidecar_dir b ?sc)" and w = w, OF sv]
      Let_def assms(2) by (rule refl)
qed

lemma save_then:
  assumes "holds p bytes (files w)" and "\<not> prefix sidecar_dir p"
  shows "holds p bytes (files (snd (save_sidecar v cd sidecar_dir b s w)))"
  using keepsD [OF keeps_holds_save [OF assms(2)] assms(1)] .

lemma after_transient:
  assumes "settle_attempt v cd mo cfg sidecar_dir failed b q n p sc (Transient reason) reqs w = (r, w')"
    and "holds p bytes (files w)" and "\<not> prefix sidecar_dir p"
  shows "holds p bytes (files w')"
proof -
  have "keeps (\<lambda>w. holds p bytes (files w))
      (settle_attempt v cd mo cfg sidecar_dir failed b q n p sc (Transient reason) reqs)"
    unfolding settle_attempt_def submit_outcome.case Let_def case_prod_unfold
    by (intro keeps_rules keeps_holds_save assms(3))
  from keepsD [OF this assms(2)] assms(1) show ?thesis by simp
qed

lemma sidecar_not_in_failed:
  assumes "\<not> prefix sidecar_dir failed" and "\<not> prefix failed sidecar_dir"
  shows "sidecar_path sidecar_dir b \<noteq> failed @ x"
proof
  assume "sidecar_path sidecar_dir b = failed @ x"
  then have "prefix failed (sidecar_path sidecar_dir b)" by simp
  with prefix_same_cases [OF this sidecar_under(1)] assms show False by blast
qed

lemma after_permanent:
  assumes run: "settle_attempt v cd mo cfg sidecar_dir failed b q n p sc (Permanent reason) reqs w = (r, w')"
    and p: "holds p bytes (files w)" and apart: "\<not> prefix sidecar_dir p" "\<not> prefix failed p"
      "\<not> prefix sidecar_dir failed" "\<not> prefix failed sidecar_dir"
  shows "holds p bytes (files w') \<or>
    holds (failed @ [''new'', b]) (inject_family2_headers (mo_iso_now mo) bytes reason (mo_ulid mo)) (files w')"
proof -
  obtain rm w2 where mv: "move_to_failed_atomic v (mo_iso_now mo) p failed b reason (mo_ulid mo) w = (rm, w2)"
    by fastforce
  have w': "w' = snd (sys_remove_file v (sidecar_path sidecar_dir b) w2)"
    using run unfolding settle_attempt_def submit_outcome.case bindE_def swallow_def ignore_err_def mv
    by simp
  have keep: "holds x c (files w')" if "sidecar_path sidecar_dir b \<noteq> x" "holds x c (files w2)" for x c
    using keepsD [OF keeps_holds(3) [OF that(1)] that(2)] w' by simp
  have "sidecar_path sidecar_dir b \<noteq> p" using apart(1) sidecar_under(1) by metis
  with move_to_failed_outcome [OF mv p apart(2)] keep sidecar_not_in_failed [OF apart(3,4)]
  show ?thesis by blast
qed

lemma attempt_keeps_message:
  assumes loc: "locate_and_read_outbox_message v outbox b (files w) = Inr (p, bytes)"
    and run: "handle_submit_attempt v cd srv mo ctx cfg sidecar_dir outbox failed b q n w = (r, w')"
    and one: "submit_one srv ctx bytes (in_flight_sidecar v cd mo sidecar_dir b (files w)) = (out, reqs)"
    and ne: "out \<noteq> Success" and apart: "\<not> prefix sidecar_dir p" "\<not> prefix failed p" "\<not> prefix sidecar_dir failed"
      "\<not> prefix failed sidecar_dir"
  shows "holds p bytes (files w') \<or> (\<exists>reason. out = Permanent reason \<and>
    holds (failed @ [''new'', b]) (inject_family2_headers (mo_iso_now mo) bytes reason (mo_ulid mo)) (files w'))"
proof -
  note run' = run [unfolded attempt_located [OF loc one]]
  have p1: "holds p bytes (files (snd (save_sidecar v cd sidecar_dir b
      (in_flight_sidecar v cd mo sidecar_dir b (files w)) w)))"
    using locate_file [OF loc] apart(1) by (intro save_then) simp_all
  show ?thesis
  proof (cases out)
    case (Transient reason)
    from after_transient [OF run' [unfolded Transient] p1 apart(1)] show ?thesis by blast
  next
    case (Permanent reason)
    from after_permanent [OF run' [unfolded Permanent] p1 apart] Permanent show ?thesis by blast
  qed (use ne in simp)
qed

section \<open>The queue\<close>

lemma startup_fold:
  assumes "sched_ok q"
  shows "sched_ok (fold (\<lambda>p. schedule_at (name p) (due p)) ps q)
    \<and> (\<forall>b. due_of (fold (\<lambda>p. schedule_at (name p) (due p)) ps q) b \<noteq> None \<longleftrightarrow>
         b \<in> name ` set ps \<or> due_of q b \<noteq> None)"
  using assms
proof (induction ps arbitrary: q)
  case (Cons p ps)
  have "sched_ok (schedule_at (name p) (due p) q)" using Cons.prems by (rule retry_queue.put_ok)
  from Cons.IH [OF this] retry_queue.put_due [OF Cons.prems, of "name p" "due p"]
  show ?case by auto
qed simp

lemma startup_queue_names:
  "sched_ok (startup_queue v cd srv sidecar_dir outbox epoch now f)
   \<and> (\<forall>b. due_of (startup_queue v cd srv sidecar_dir outbox epoch now f) b \<noteq> None \<longleftrightarrow>
        b \<in> (\<lambda>p. strip_flags (last p)) ` set (scan_maildir_files v outbox f))"
  using startup_fold [OF new_schedule_ok]
  unfolding startup_queue_def Let_def by (simp add: due_of_def new_schedule_def)

lemma handle_event_sched_ok:
  assumes "handle_event v cd dir now ev s w = (Inr s', w')" and "sched_ok (ls_queue s)"
  shows "sched_ok (ls_queue s')"
  using assms
  by (auto simp: handle_event_def Let_def bindE_eq_Inr retry_queue.put_ok retry_queue.cancel_ok
      split: if_splits option.splits outbox_side.splits raw_event_kind.splits)

lemma handle_event_create:
  assumes "handle_event v cd dir now ev s w = (Inr s', w')" and "sched_ok (ls_queue s)"
    and "ev_side ev = OutboxSide" "ev_kind ev = CreateOrRenameTo" "ev_path ev = p @ [name]"
    and "\<not> prefix ''.'' name"
  shows "due_of (ls_queue s') = (due_of (ls_queue s))(strip_flags name \<mapsto> now)"
  using assms
  by (auto simp: handle_event_def Let_def bindE_eq_Inr retry_queue.put_due
      split: if_splits option.splits)

section \<open>The debouncer\<close>

text \<open>Events come in the order of their times, and after those that were let through before.\<close>

definition in_time :: "(event_key, instant) hmap \<Rightarrow> (instant \<times> outbox_event) list \<Rightarrow> bool" where
  "in_time seen evs \<longleftrightarrow> sorted (map fst evs)
     \<and> (\<forall>k prev. map_of seen k = Some prev \<longrightarrow> (\<forall>(t, e)\<in>set evs. prev \<le> t))"

lemma in_time_step:
  "in_time seen ((now, e) # evs) \<Longrightarrow> in_time seen evs \<and> in_time (AList.update k now seen) evs"
  by (auto simp: in_time_def AList.update_conv' split: if_splits)

lemma in_time_seen: "in_time seen ((now, e) # evs) \<Longrightarrow> map_of seen k = Some prev \<Longrightarrow> prev \<le> now"
  unfolding in_time_def by (elim conjE allE [of _ k] allE [of _ prev]) simp

lemma debounce_subset: "set (debounce window seen evs) \<subseteq> set evs"
  by (induction window seen evs rule: debounce.induct) (auto split: option.splits)

text \<open>Every event is let through, or follows an equal one that was, within the window.\<close>

lemma debounce_covers:
  assumes "(t, ev) \<in> set evs" and "in_time seen evs" and "0 < window"
  shows "\<exists>t' ev'. event_key ev' = event_key ev \<and> t' \<le> t \<and> t < t' + window
    \<and> ((t', ev') \<in> set (debounce window seen evs) \<or> map_of seen (event_key ev) = Some t')"
  using assms
proof (induction window seen evs rule: debounce.induct)
  case (1 window seen)
  then show ?case by simp
next
  case (2 window seen now e evs)
  let ?seen = "AList.update (event_key e) now seen"
  note times = in_time_step [OF "2.prems"(2)]
  consider (drop) prev where "map_of seen (event_key e) = Some prev" "now - prev < window"
    | (pass) "debounce window seen ((now, e) # evs) = (now, e) # debounce window ?seen evs"
      "\<And>prev. map_of seen (event_key e) = Some prev \<Longrightarrow> \<not> now - prev < window"
    by (cases "map_of seen (event_key e)") auto
  then show ?case
  proof cases
    case drop
    show ?thesis
    proof (cases "(t, ev) = (now, e)")
      case True
      moreover have "prev \<le> now" by (rule in_time_seen [OF "2.prems"(2) drop(1)])
      ultimately show ?thesis using drop by (intro exI [of _ prev] exI [of _ e]) auto
    next
      case False
      with "2.prems" have "(t, ev) \<in> set evs" by auto
      from "2.IH"(2) [OF drop(1,2) this _ "2.prems"(3)] times drop show ?thesis by simp
    qed
  next
    case pass
    have new: ?thesis if "event_key ev = event_key e" "now \<le> t" "t < now + window"
      using that pass(1) by (intro exI [of _ now] exI [of _ e]) auto
    show ?thesis
    proof (cases "(t, ev) = (now, e)")
      case True
      with new "2.prems"(3) show ?thesis by simp
    next
      case False
      with "2.prems" have mem: "(t, ev) \<in> set evs" by auto
      have "\<exists>t' ev'. event_key ev' = event_key ev \<and> t' \<le> t \<and> t < t' + window
        \<and> ((t', ev') \<in> set (debounce window ?seen evs) \<or> map_of ?seen (event_key ev) = Some t')"
        using "2.IH"(1,3) pass(2) mem times "2.prems"(3) by (cases "map_of seen (event_key e)") auto
      then obtain t' ev' where k: "event_key ev' = event_key ev" "t' \<le> t" "t < t' + window"
        and or: "(t', ev') \<in> set (debounce window ?seen evs) \<or> map_of ?seen (event_key ev) = Some t'"
        by blast
      from or show ?thesis
      proof
        assume "(t', ev') \<in> set (debounce window ?seen evs)"
        with k pass(1) show ?thesis by (intro exI [of _ t'] exI [of _ ev']) auto
      next
        assume "map_of ?seen (event_key ev) = Some t'"
        with k new show ?thesis by (cases "event_key ev = event_key e") (auto simp: AList.update_conv')
      qed
    qed
  qed
qed

text \<open>Equal events that are let through are a window apart.\<close>

definition spaced :: "nat \<Rightarrow> instant \<times> outbox_event \<Rightarrow> instant \<times> outbox_event \<Rightarrow> bool" where
  "spaced window x y \<longleftrightarrow> (event_key (snd x) = event_key (snd y) \<longrightarrow> fst x + window \<le> fst y)"

lemma debounce_spaced:
  assumes "in_time seen evs"
  shows "sorted_wrt (spaced window) (debounce window seen evs)
    \<and> (\<forall>x\<in>set (debounce window seen evs). \<forall>prev. map_of seen (event_key (snd x)) = Some prev \<longrightarrow> prev + window \<le> fst x)"
  using assms
proof (induction window seen evs rule: debounce.induct)
  case (1 window seen)
  then show ?case by simp
next
  case (2 window seen now e evs)
  let ?seen = "AList.update (event_key e) now seen"
  note times = in_time_step [OF "2.prems"]
  show ?case
  proof (cases "\<exists>prev. map_of seen (event_key e) = Some prev \<and> now - prev < window")
    case True
    then obtain prev where p: "map_of seen (event_key e) = Some prev" "now - prev < window" by blast
    with "2.IH"(2) [OF p] times show ?thesis by simp
  next
    case False
    then have out: "debounce window seen ((now, e) # evs) = (now, e) # debounce window ?seen evs"
      by (cases "map_of seen (event_key e)") auto
    have rest: "sorted_wrt (spaced window) (debounce window ?seen evs)"
      "\<And>x prev. x \<in> set (debounce window ?seen evs) \<Longrightarrow> map_of ?seen (event_key (snd x)) = Some prev \<Longrightarrow> prev + window \<le> fst x"
      using "2.IH"(1,3) False times by (cases "map_of seen (event_key e)"; fastforce)+
    have head: "prev + window \<le> now" if "map_of seen (event_key e) = Some prev" for prev
    proof -
      have "prev \<le> now" by (rule in_time_seen [OF "2.prems" that])
      with that False show ?thesis by auto
    qed
    have later: "prev + window \<le> fst x" if x: "x \<in> set (debounce window ?seen evs)"
      and prev: "map_of seen (event_key (snd x)) = Some prev" for x prev
    proof (cases "event_key (snd x) = event_key e")
      case True
      with rest(2) [OF x, of now] head [of prev] prev show ?thesis by (simp add: AList.update_conv')
    next
      case False
      with rest(2) [OF x, of prev] prev show ?thesis by (simp add: AList.update_conv')
    qed
    have "spaced window (now, e) x" if "x \<in> set (debounce window ?seen evs)" for x
      using rest(2) [OF that, of now] by (auto simp: spaced_def AList.update_conv')
    with out rest(1) head later show ?thesis by auto
  qed
qed

section \<open>A message without its sidecar\<close>

definition codec_faithful :: "codec \<Rightarrow> bool" where
  "codec_faithful cd \<longleftrightarrow> (\<forall>s. sidecar_parse cd (sidecar_print cd s) = Some s)"

lemma default_envelope:
  "submit_one srv ctx bytes (default_sidecar\<lparr>sd_in_flight := i\<rparr>)
    = (Permanent ''sidecar envelope missing `from`'', [])"
proof -
  have "trim [] = []" by (simp add: trim_empty_iff)
  then show ?thesis by (simp add: submit_one_def envelope_validation_error_def default_sidecar_def)
qed

definition sidecar_blank :: "codec \<Rightarrow> path \<Rightarrow> string \<Rightarrow> fs \<Rightarrow> bool" where
  "sidecar_blank cd dir b f \<longleftrightarrow>
     (\<forall>c. read_file f (sidecar_path dir b) = Some c \<longrightarrow> sidecar_parse cd c = Some default_sidecar)"

lemma blank_is_permanent:
  assumes "sidecar_blank cd dir b f"
  shows "submit_one srv ctx bytes (in_flight_sidecar v cd mo dir b f)
    = (Permanent ''sidecar envelope missing `from`'', [])"
proof -
  have "load_sidecar v cd dir b f = default_sidecar"
    using assms by (auto simp: load_sidecar_def sidecar_blank_def split: option.splits)
  then show ?thesis by (simp add: in_flight_sidecar_def default_envelope)
qed

lemma permanent_removes_sidecar:
  assumes "settle_attempt v cd mo cfg dir failed b q n p sc (Permanent reason) reqs w = (r, w')"
    and "\<not> fault v (RemoveFile (sidecar_path dir b))"
  shows "\<not> is_file (files w') (sidecar_path dir b)"
proof -
  obtain rm w2 where mv: "move_to_failed_atomic v (mo_iso_now mo) p failed b reason (mo_ulid mo) w = (rm, w2)"
    by fastforce
  have w': "w' = snd (sys_remove_file v (sidecar_path dir b) w2)"
    using assms(1) unfolding settle_attempt_def submit_outcome.case bindE_def swallow_def ignore_err_def mv
    by simp
  show ?thesis
  proof (cases "remove_file (files w2) (sidecar_path dir b)")
    case None
    with w' show ?thesis by (auto simp: sys_remove_file_def sys_def remove_file_def split: if_splits)
  next
    case (Some f)
    with w' assms(2) have "files w' = f" by (simp add: sys_remove_file_def sys_def)
    with map_of_remove_file [OF Some] show ?thesis by (simp add: is_file_def)
  qed
qed

lemma keeps_blank:
  "q \<noteq> sidecar_path dir b \<Longrightarrow> r \<noteq> sidecar_path dir b \<Longrightarrow>
   keeps (\<lambda>w. sidecar_blank cd dir b (files w)) (bindE (sys_write v q x) (\<lambda>_. sys_rename v q r))"
proof (rule keepsI)
  fix w :: world
  assume ne: "q \<noteq> sidecar_path dir b" "r \<noteq> sidecar_path dir b" and h: "sidecar_blank cd dir b (files w)"
  let ?m = "bindE (sys_write v q x) (\<lambda>_. sys_rename v q r)"
  obtain r1 w1 where w1: "sys_write v q x w = (r1, w1)" by fastforce
  show "sidecar_blank cd dir b (files (snd (?m w)))"
  proof (cases r1)
    case (Inl e)
    then show ?thesis using w1 h by (auto simp: bindE_def sys_write_def dest: sys_Inl)
  next
    case (Inr u)
    then obtain f where f: "write_file (files w) q x = Some f" "w1 = w\<lparr>files := f\<rparr>"
      using w1 by (auto simp: sys_write_def sys_Inr)
    have q: "map_of f q = Some (File x)" and same: "map_of f (sidecar_path dir b) = map_of (files w) (sidecar_path dir b)"
      using f(1) ne by (simp_all add: map_of_write_file)
    obtain r2 w2 where w2: "sys_rename v q r w1 = (r2, w2)" by fastforce
    have "map_of (files w2) (sidecar_path dir b) = map_of f (sidecar_path dir b)"
    proof (cases r2)
      case (Inl e)
      with w2 f(2) show ?thesis by (auto simp: sys_rename_def dest: sys_Inl)
    next
      case (Inr u2)
      then obtain g where "rename f q r = Some g" "w2 = w1\<lparr>files := g\<rparr>"
        using w2 f(2) by (auto simp: sys_rename_def sys_Inr)
      with map_of_rename_file [OF _ q] ne show ?thesis by simp
    qed
    with same h w1 w2 Inr show ?thesis by (simp add: bindE_def sidecar_blank_def read_file_def)
  qed
qed

lemma save_default_blank:
  assumes "sidecar_blank cd dir b (files w)" and "codec_faithful cd"
  shows "sidecar_blank cd dir b (files (snd (save_sidecar v cd dir b default_sidecar w)))"
proof -
  let ?tmp = "sidecar_tmp dir b" and ?sp = "sidecar_path dir b" and ?x = "sidecar_print cd default_sidecar"
  have ne: "?tmp \<noteq> ?sp"
  proof
    assume "?tmp = ?sp"
    then have "length (''.'' @ b @ ''.json.tmp'') = length (b @ ''.json'')"
      unfolding sidecar_tmp_def sidecar_path_def by (metis last_snoc)
    then show False by simp
  qed
  obtain r1 w1 where w1: "sys_write v ?tmp ?x w = (r1, w1)" by fastforce
  show ?thesis
  proof (cases r1)
    case (Inl e)
    then show ?thesis using w1 assms by (auto simp: save_sidecar_def bindE_def sys_write_def dest: sys_Inl)
  next
    case (Inr u)
    then obtain f where f: "write_file (files w) ?tmp ?x = Some f" "w1 = w\<lparr>files := f\<rparr>"
      using w1 by (auto simp: sys_write_def sys_Inr)
    have q: "map_of f ?tmp = Some (File ?x)" and same: "map_of f ?sp = map_of (files w) ?sp"
      using f(1) ne by (simp_all add: map_of_write_file)
    obtain r2 w2 where w2: "sys_rename v ?tmp ?sp w1 = (r2, w2)" by fastforce
    have "sidecar_blank cd dir b (files w2)"
    proof (cases r2)
      case (Inl e)
      with w2 f(2) same assms(1) show ?thesis
        by (auto simp: sys_rename_def sidecar_blank_def read_file_def dest: sys_Inl)
    next
      case (Inr u2)
      then obtain g where "rename f ?tmp ?sp = Some g" "w2 = w1\<lparr>files := g\<rparr>"
        using w2 f(2) by (auto simp: sys_rename_def sys_Inr)
      with map_of_rename_file [OF _ q] assms(2) show ?thesis
        by (simp add: sidecar_blank_def read_file_def codec_faithful_def)
    qed
    with w1 w2 Inr show ?thesis by (simp add: save_sidecar_def bindE_def)
  qed
qed

lemma drag_back_blank:
  assumes run: "handle_event v cd dir now ev s w = (Inr s', w')"
    and ev: "ev_side ev = OutboxSide" "ev_kind ev = CreateOrRenameTo" "ev_path ev = p @ [name]"
    and pend: "map_of (ls_pending s) (strip_flags name) = Some pr" "pr_side pr = FailedSide"
    and vis: "\<not> prefix ''.'' name" and apart: "p \<noteq> dir"
    and blank: "sidecar_blank cd dir (strip_flags name) (files w)" and cd: "codec_faithful cd"
  shows "sidecar_blank cd dir (strip_flags name) (files w')"
proof -
  let ?b = "strip_flags name"
  have ne: "ev_path ev \<noteq> sidecar_path dir ?b" "tmp_neighbour (ev_path ev) \<noteq> sidecar_path dir ?b"
    using apart by (auto simp: ev sidecar_path_def tmp_neighbour_def)
  let ?strip = "strip_family2_headers_in_place v (ev_path ev)"
  let ?w1 = "snd (?strip w)"
  have "keeps (\<lambda>w. sidecar_blank cd dir ?b (files w)) ?strip"
    unfolding strip_family2_headers_in_place_def Let_def
    using ne by (intro keeps_bindE keeps_read_file keeps_if keeps_ret keeps_blank)
  from keepsD [OF this blank] have b1: "sidecar_blank cd dir ?b (files ?w1)" .
  have load: "load_sidecar v cd dir ?b (files ?w1) = default_sidecar"
    using b1 by (auto simp: load_sidecar_def sidecar_blank_def split: option.splits)
  have "w' = snd (save_sidecar v cd dir ?b default_sidecar ?w1)"
    using run pend vis ev load
    by (auto simp: handle_event_def bindE_def ignore_err_def reset_sidecar_for_retry_def fs_query_def
        Let_def default_sidecar_def split: prod.splits)
  with save_default_blank [OF b1 cd] show ?thesis by simp
qed

end
