(* ===== verification/Samples.thy ===== *)
theory Samples
  imports Email_Files Outbox_Facts
begin

text \<open>
  Concrete surroundings in which the witnesses run: an operating system that refuses nothing,
  a hash map that iterates in insertion order, and simple text formats for the two maps that
  the code leaves to \<open>serde_json\<close>. The formats are not JSON; what the theorems ask of
  \<open>serde_json\<close>, that it parses what it prints, is proved of them.
\<close>

section \<open>A text format\<close>

text \<open>A reader takes what it reads from the front of a string.\<close>

type_synonym 'a reader = "string \<Rightarrow> ('a \<times> string) option"

definition reads :: "('a \<Rightarrow> string) \<Rightarrow> 'a reader \<Rightarrow> bool" where
  "reads put get \<longleftrightarrow> (\<forall>x r. get (put x @ r) = Some (x, r))"

named_theorems reads_rules \<open>each reader reads what its writer wrote\<close>

lemma readsD: "reads put get \<Longrightarrow> get (put x @ r) = Some (x, r)"
  by (simp add: reads_def)

definition then_read :: "'a reader \<Rightarrow> ('a \<Rightarrow> 'b reader) \<Rightarrow> 'b reader" where
  "then_read g h s = (case g s of None \<Rightarrow> None | Some (x, r) \<Rightarrow> h x r)"

lemma then_read_put [simp]: "reads put get \<Longrightarrow> then_read get h (put x @ r) = h x r"
  by (simp add: then_read_def readsD)

text \<open>A list is a comma before each element and a dot at the end.\<close>

definition put_list :: "('a \<Rightarrow> string) \<Rightarrow> 'a list \<Rightarrow> string" where
  "put_list put xs = concat (map (\<lambda>x. CHR '','' # put x) xs) @ ''.''"

fun get_items :: "nat \<Rightarrow> 'a reader \<Rightarrow> 'a list reader" where
  "get_items 0 get s = None"
| "get_items (Suc n) get [] = None"
| "get_items (Suc n) get (c # s) =
     (if c = CHR ''.'' then Some ([], s)
      else then_read get (\<lambda>x. then_read (get_items n get) (\<lambda>xs r. Some (x # xs, r))) s)"

definition get_list :: "'a reader \<Rightarrow> 'a list reader" where
  "get_list get s = get_items (length s) get s"

lemma get_items_put:
  assumes "reads put get" and "length xs < n"
  shows "get_items n get (put_list put xs @ r) = Some (xs, r)"
  using assms(2)
proof (induction xs arbitrary: n)
  case Nil
  then show ?case by (cases n) (auto simp: put_list_def)
next
  case (Cons x xs)
  from Cons.prems obtain m where n: "n = Suc m" "length xs < m" by (cases n) auto
  have "get_items m get (put_list put xs @ r) = Some (xs, r)" by (rule Cons.IH) (rule n)
  then show ?case using assms(1)
    by (simp add: put_list_def n(1)) (simp add: then_read_def)
qed

lemma put_list_longer: "length xs < length (put_list put xs)"
  by (induction xs) (auto simp: put_list_def)

lemma reads_list [reads_rules]: "reads put get \<Longrightarrow> reads (put_list put) (get_list get)"
  unfolding reads_def get_list_def
  using get_items_put [of put get] put_list_longer [of _ put]
  by (simp add: reads_def trans_less_add1)

definition put_char :: "char \<Rightarrow> string" where "put_char c = [c]"

fun get_char :: "char reader" where
  "get_char [] = None"
| "get_char (c # s) = Some (c, s)"

lemma reads_char [reads_rules]: "reads put_char get_char"
  by (simp add: reads_def put_char_def)

definition put_option :: "('a \<Rightarrow> string) \<Rightarrow> 'a option \<Rightarrow> string" where
  "put_option put x = put_list put (case x of None \<Rightarrow> [] | Some y \<Rightarrow> [y])"

definition get_option :: "'a reader \<Rightarrow> 'a option reader" where
  "get_option get = then_read (get_list get) (\<lambda>xs r. Some (if xs = [] then None else Some (hd xs), r))"

lemma reads_option [reads_rules]: "reads put get \<Longrightarrow> reads (put_option put) (get_option get)"
  using reads_list [of put get]
  by (auto simp: reads_def put_option_def get_option_def then_read_def split: option.splits)

definition put_nat :: "nat \<Rightarrow> string" where "put_nat n = put_list put_char (replicate n CHR ''i'')"

definition get_nat :: "nat reader" where
  "get_nat = then_read (get_list get_char) (\<lambda>s r. Some (length s, r))"

lemma reads_nat [reads_rules]: "reads put_nat get_nat"
  using reads_list [OF reads_char]
  by (auto simp: reads_def put_nat_def get_nat_def then_read_def)

definition put_bool :: "bool \<Rightarrow> string" where "put_bool b = put_nat (if b then 1 else 0)"

definition get_bool :: "bool reader" where
  "get_bool = then_read get_nat (\<lambda>n r. Some (n = 1, r))"

lemma reads_bool [reads_rules]: "reads put_bool get_bool"
  using reads_nat by (auto simp: reads_def put_bool_def get_bool_def then_read_def)

abbreviation put_str :: "string \<Rightarrow> string" where "put_str \<equiv> put_list put_char"

abbreviation get_str :: "string reader" where "get_str \<equiv> get_list get_char"

section \<open>Keyword maps\<close>

definition put_keyword :: "string \<times> bool \<Rightarrow> string" where
  "put_keyword kb = put_str (fst kb) @ put_bool (snd kb)"

definition get_keyword :: "(string \<times> bool) reader" where
  "get_keyword = then_read get_str (\<lambda>k. then_read get_bool (\<lambda>b r. Some ((k, b), r)))"

lemma reads_keyword: "reads put_keyword get_keyword"
  unfolding reads_def
  by (simp add: put_keyword_def get_keyword_def reads_rules)

definition print_keywords :: "(string \<times> bool) list \<Rightarrow> string" where
  "print_keywords = put_list put_keyword"

definition read_keywords :: "string \<Rightarrow> (string \<times> bool) list option" where
  "read_keywords s = map_option fst (get_list get_keyword s)"

lemma read_print_keywords: "read_keywords (print_keywords t) = Some t"
  using readsD [OF reads_list [OF reads_keyword], of t "[]"]
  by (simp add: read_keywords_def print_keywords_def)

section \<open>Sidecars\<close>

definition put_retry :: "retry_state \<Rightarrow> string" where
  "put_retry t = put_nat (rt_attempts t) @ put_option put_str (rt_next_at t)
     @ put_option put_str (rt_last_error t)"

definition get_retry :: "retry_state reader" where
  "get_retry = then_read get_nat (\<lambda>n. then_read (get_option get_str) (\<lambda>due.
     then_read (get_option get_str) (\<lambda>e r.
       Some (\<lparr>rt_attempts = n, rt_next_at = due, rt_last_error = e\<rparr>, r))))"

lemma reads_retry [reads_rules]: "reads put_retry get_retry"
  unfolding reads_def by (simp add: put_retry_def get_retry_def reads_rules)

definition print_sidecar :: "sidecar_state \<Rightarrow> string" where
  "print_sidecar s = put_str (env_from (sd_envelope s)) @ put_list put_str (env_to (sd_envelope s))
     @ put_option put_str (sd_send_at s) @ put_str (sd_submitted_at s) @ put_str (sd_account s)
     @ put_option put_retry (sd_retry s) @ put_option put_str (sd_in_flight s)"

definition get_sidecar :: "sidecar_state reader" where
  "get_sidecar = then_read get_str (\<lambda>from. then_read (get_list get_str) (\<lambda>to.
     then_read (get_option get_str) (\<lambda>due. then_read get_str (\<lambda>sub. then_read get_str (\<lambda>acct.
     then_read (get_option get_retry) (\<lambda>retry. then_read (get_option get_str) (\<lambda>fl r.
       Some (\<lparr>sd_envelope = \<lparr>env_from = from, env_to = to\<rparr>, sd_send_at = due, sd_submitted_at = sub,
              sd_account = acct, sd_retry = retry, sd_in_flight = fl\<rparr>, r))))))))"

definition read_sidecar :: "string \<Rightarrow> sidecar_state option" where
  "read_sidecar s = map_option fst (get_sidecar s)"

lemma reads_sidecar: "reads print_sidecar get_sidecar"
  unfolding reads_def by (simp add: print_sidecar_def get_sidecar_def reads_rules)

lemma read_print_sidecar: "read_sidecar (print_sidecar s) = Some s"
  using readsD [OF reads_sidecar, of s "[]"] by (simp add: read_sidecar_def)

definition plain_codec :: codec where
  "plain_codec = \<lparr>sidecar_parse = read_sidecar, sidecar_print = print_sidecar\<rparr>"

lemma plain_codec_faithful: "codec_faithful plain_codec"
  by (simp add: codec_faithful_def plain_codec_def read_print_sidecar)

section \<open>An environment\<close>

definition quiet_env :: env where
  "quiet_env =
     \<lparr>fault = (\<lambda>_. False), unix_now = 7, fresh_uuid = (\<lambda>n. ''u'' @ show_nat n),
      json_parse = read_keywords, json_print = print_keywords, hash_order = (\<lambda>_ ks. ks)\<rparr>"

lemma quiet_env_simps [simp]:
  "fault quiet_env = (\<lambda>_. False)" "unix_now quiet_env = 7"
  "fresh_uuid quiet_env = (\<lambda>n. ''u'' @ show_nat n)" "hash_order quiet_env = (\<lambda>_ ks. ks)"
  by (simp_all add: quiet_env_def)

lemma quiet_env_json: "json_faithful quiet_env"
  by (simp add: json_faithful_def quiet_env_def read_print_keywords)

lemma quiet_env_fair: "fair_order quiet_env"
  by (simp add: fair_order_def)

section \<open>Running a computation\<close>

text \<open>
  The calls on a given world, so that \<open>simp\<close> runs a computation from its first step on and
  leaves the rest of it alone.
\<close>

lemma calls_run:
  "sys v op f w = (if fault v op then (Inl (IoError op), w)
     else case f (files w) of None \<Rightarrow> (Inl (IoError op), w) | Some f' \<Rightarrow> (Inr (), w\<lparr>files := f'\<rparr>))"
  "sys_exists p w = (Inr (path_exists (files w) p), w)"
  "sys_read_file v p w = (if fault v (ReadFile p) then (Inl (IoError (ReadFile p)), w)
     else case read_file (files w) p of None \<Rightarrow> (Inl (IoError (ReadFile p)), w) | Some c \<Rightarrow> (Inr c, w))"
  "fs_query g w = (Inr (g (files w)), w)"
  "db_query h w = (Inr (h (db w)), w)"
  "db_exec k w = (case k (db w) of Inl e \<Rightarrow> (Inl e, w) | Inr d \<Rightarrow> (Inr (), w\<lparr>db := d\<rparr>))"
  "ignore_err m w = (Inr (), snd (m w))"
  "swallow n w = (Inr (), snd (n w))"
  "generate_id v w = (Inr (fresh_uuid v (uuids_drawn w)), w\<lparr>uuids_drawn := Suc (uuids_drawn w)\<rparr>)"
  "send_email_set cl req w = (cl_email_set cl req, w\<lparr>set_requests := set_requests w @ [req]\<rparr>)"
  by (simp_all add: sys_def sys_exists_def sys_read_file_def fs_query_def db_query_def db_exec_def
      ignore_err_def swallow_def generate_id_def send_email_set_def)

lemmas run_simps =
  bindE_run calls_run sys_create_dir_all_def sys_write_def sys_rename_def sys_remove_file_def
  sys_remove_dir_all_def create_dir_all_def write_file_def rename_def remove_file_def
  remove_dir_all_def path_exists_def is_dir_def is_file_def read_file_def prefix_def
  join_path_def move_entry_def

lemma iterate_quiet:
  assumes "hm_wf m"
  shows "iterate quiet_env n m = m"
proof -
  have g: "map_of m (fst e) = Some (snd e)" if "e \<in> set m" for e
    using that assms by (metis hm_wf_def map_of_is_SomeI prod.collapse)
  have "iterate quiet_env n m = List.map_filter (\<lambda>k. map_option (Pair k) (map_of m k)) (map fst m)"
    by (simp add: iterate_def hm_keys_def)
  also have "\<dots> = map (the \<circ> (\<lambda>k. map_option (Pair k) (map_of m k))) (map fst m)"
    unfolding map_filter_def using g by (subst filter_True) auto
  also have "\<dots> = m"
    unfolding map_map by (rule map_idI) (simp add: g)
  finally show ?thesis .
qed

lemma small_numbers: "show_nat 0 = ''0''" "show_nat (Suc 0) = ''1''"
  by code_simp+

end
