(* ===== verification/Database_Properties.thy ===== *)
theory Database_Properties
  imports Samples
begin

text \<open>
  The properties of the database: its integrity in every state that the statements can reach,
  the table of emails as a map, and what a change of the primary mailbox does.
\<close>

section \<open>Reachable databases\<close>

text \<open>One statement of \<open>Database\<close>, when it succeeds, and a change of the primary mailbox.\<close>

inductive db_step :: "database \<Rightarrow> database \<Rightarrow> bool" where
  step_insert_mailbox: "insert_mailbox d m = Inr d' \<Longrightarrow> db_step d d'"
| step_update_mailbox: "update_mailbox_row d m = Inr d' \<Longrightarrow> db_step d d'"
| step_delete_mailbox: "delete_mailbox_row d i = Inr d' \<Longrightarrow> db_step d d'"
| step_insert_email: "insert_email_row d e = Inr d' \<Longrightarrow> db_step d d'"
| step_update_email: "update_email_row d e = Inr d' \<Longrightarrow> db_step d d'"
| step_delete_email: "delete_email_row d i = Inr d' \<Longrightarrow> db_step d d'"
| step_insert_membership: "insert_email_mailbox d j = Inr d' \<Longrightarrow> db_step d d'"
| step_delete_membership: "delete_email_mailbox d i k = Inr d' \<Longrightarrow> db_step d d'"
| step_set_primary: "set_primary_mailbox fails d i k = (r, d', in_tx) \<Longrightarrow> db_step d d'"

inductive db_reachable :: "bool \<Rightarrow> database \<Rightarrow> bool" for fk where
  db_start: "db_reachable fk (empty_database fk)"
| db_next: "db_reachable fk d \<Longrightarrow> db_step d d' \<Longrightarrow> db_reachable fk d'"

section \<open>The primary mailbox of an email\<close>

lemma relabel_memberships_wf:
  assumes "db_wf d" and "\<And>j. ej_email_id (g j) = ej_email_id j \<and> ej_mailbox_id (g j) = ej_mailbox_id j"
  shows "db_wf (d\<lparr>email_mailboxes := map g (email_mailboxes d)\<rparr>)"
  using assms by (auto simp: db_wf_def parent_known_def primary_known_def comp_def)

lemma clear_primary_wf: "db_wf d \<Longrightarrow> db_wf (clear_primary d e)"
  unfolding clear_primary_def by (rule relabel_memberships_wf) auto

lemma mark_primary_wf: "db_wf d \<Longrightarrow> db_wf (mark_primary d e m)"
  unfolding mark_primary_def by (rule relabel_memberships_wf) auto

lemma set_primary_cases:
  assumes "set_primary_mailbox fails d e m = (r, d', in_tx)"
  shows "(r = Inr () \<and> \<not> in_tx \<and> d' = mark_primary (clear_primary d e) e m)
    \<or> (\<exists>x. r = Inl x \<and> d' = d \<and> \<not> in_tx)
    \<or> (\<exists>x. r = Inl x \<and> in_tx \<and> d' \<in> {d, clear_primary d e, mark_primary (clear_primary d e) e m})"
  using assms by (auto simp: set_primary_mailbox_def Let_def split: option.splits)

lemma set_primary_wf:
  assumes "set_primary_mailbox fails d e m = (r, d', in_tx)" and "db_wf d"
  shows "db_wf d'"
  using set_primary_cases [OF assms(1)] assms(2)
  by (auto intro: clear_primary_wf mark_primary_wf)

lemma db_step_wf: "db_step d d' \<Longrightarrow> db_wf d \<Longrightarrow> db_wf d'"
  by (induction rule: db_step.induct) (blast intro: db_wf_rules set_primary_wf)+

lemma db_step_foreign_keys: "db_step d d' \<Longrightarrow> foreign_keys d' = foreign_keys d"
  by (induction rule: db_step.induct)
     (auto simp: db_defs Let_def clear_primary_def mark_primary_def split: if_splits option.splits)

lemma db_reachable_wf: "db_reachable fk d \<Longrightarrow> db_wf d \<and> foreign_keys d = fk"
proof (induction rule: db_reachable.induct)
  case db_start
  show ?case by (simp only: db_wf_empty) (simp add: empty_database_def)
qed (auto simp: db_step_wf db_step_foreign_keys)

section \<open>Properties\<close>


definition inbox_row :: mailbox_row where
  "inbox_row = \<lparr>mb_id = ''m1'', mb_jmap_id = Some ''j1'', mb_name = ''Inbox'', mb_parent_id = None,
     mb_role = Some ''inbox'', mb_sort_order = Some 0, mb_path = ''Inbox'', mb_jmap_state = None\<rparr>"

definition greeting_row :: email_row where
  "greeting_row = \<lparr>em_id = ''e1'', em_jmap_id = Some ''M1'', em_message_id = None,
     em_file_path = ''Inbox/cur/5.a:2,S'', em_primary_mailbox = ''m1'', em_keywords = Some ''k'',
     em_jmap_state = None, em_size = Some 3, em_last_sync = Some 5, em_is_dirty = False\<rparr>"

definition inbox_db :: database where
  "inbox_db = \<lparr>mailboxes = [inbox_row], emails = [greeting_row],
     email_mailboxes = [\<lparr>ej_email_id = ''e1'', ej_mailbox_id = ''m1'', ej_is_primary = True\<rparr>],
     foreign_keys = True\<rparr>"

lemma inbox_db_reachable: "db_reachable True inbox_db"
proof -
  let ?d1 = "(empty_database True)\<lparr>mailboxes := [inbox_row]\<rparr>"
  let ?d2 = "?d1\<lparr>emails := [greeting_row]\<rparr>"
  have "db_reachable True ?d1"
    by (rule db_next [OF db_start step_insert_mailbox [of _ inbox_row]])
       (simp add: db_defs empty_database_def inbox_row_def parent_known_def)
  moreover have "db_step ?d1 ?d2"
    by (rule step_insert_email [of _ greeting_row])
       (simp add: db_defs empty_database_def inbox_row_def greeting_row_def primary_known_def)
  moreover have "db_step ?d2 inbox_db"
    by (rule step_insert_membership [of _ "\<lparr>ej_email_id = ''e1'', ej_mailbox_id = ''m1'', ej_is_primary = True\<rparr>"])
       (simp add: db_defs empty_database_def inbox_row_def greeting_row_def inbox_db_def)
  ultimately show ?thesis by (blast intro: db_next)
qed

lemma inbox_db_wf: "db_wf inbox_db"
  using db_reachable_wf [OF inbox_db_reachable] by simp


text \<open>
  The table of emails is a map from identifiers to rows: after an insert the row is found
  under its identifier, a second insert of it is refused, lookups under other identifiers are
  not affected, and deleting the row gives back every lookup of before.
\<close>

lemma email_table_insert_delete:
  assumes "insert_email_row d e = Inr d1" and "delete_email_row d1 (em_id e) = Inr d2"
  shows "get_email d1 (em_id e) = Some e \<and> (\<exists>x. insert_email_row d1 e = Inl x)
    \<and> (\<forall>k. k \<noteq> em_id e \<longrightarrow> get_email d1 k = get_email d k)
    \<and> (\<forall>k. get_email d2 k = get_email d k)"
  using email_table.lookup_inserted [OF assms(1)] email_table.no_second_insert [OF assms(1)]
    email_table.others_untouched(1) [OF _ assms(1)] email_table.delete_undoes_insert [OF assms]
  by blast

definition no_mail_db :: database where
  "no_mail_db = inbox_db\<lparr>emails := [], email_mailboxes := []\<rparr>"

lemma email_table_insert_delete_witness:
  "get_email (no_mail_db\<lparr>emails := [greeting_row]\<rparr>) ''e1'' = Some greeting_row"
  using email_table_insert_delete [of no_mail_db greeting_row
      "no_mail_db\<lparr>emails := [greeting_row]\<rparr>" no_mail_db]
  by (simp add: db_defs no_mail_db_def inbox_db_def greeting_row_def inbox_row_def primary_known_def)

text \<open>
  \<open>set_primary_mailbox\<close> is all or nothing. When it succeeds, an email's memberships are
  unchanged except that the chosen one, and no other, is primary, and the memberships of other
  emails are untouched. When a statement fails and the rollback works, nothing has changed.
  Only a failed rollback or a failed \<open>COMMIT\<close> leaves the connection inside the transaction.
\<close>

lemma set_primary_mailbox_atomic:
  assumes "set_primary_mailbox fails d e m = (r, d', in_tx)"
  shows "(r = Inr () \<and> \<not> in_tx \<and> mailboxes d' = mailboxes d \<and> emails d' = emails d
       \<and> email_mailboxes d' = map (\<lambda>j. if ej_email_id j = e
             then j\<lparr>ej_is_primary := (ej_mailbox_id j = m)\<rparr> else j) (email_mailboxes d))
    \<or> (\<exists>x. r = Inl x \<and> (d' = d \<and> \<not> in_tx
          \<or> in_tx \<and> (fails Rollback \<noteq> None \<or> fails Commit \<noteq> None)))"
  using assms
  by (auto simp: set_primary_mailbox_def Let_def clear_primary_def mark_primary_def
           split: option.splits)

definition commit_fails :: "tx_stmt \<Rightarrow> err option" where
  "commit_fails s = (if s = Commit then Some (Refused ''disk full'') else None)"

lemma set_primary_mailbox_atomic_witness:
  "fst (set_primary_mailbox (\<lambda>_. None) inbox_db ''e1'' ''m1'') = Inr ()
   \<and> snd (snd (set_primary_mailbox commit_fails inbox_db ''e1'' ''m1''))"
proof -
  have "set_primary_mailbox (\<lambda>_. None) inbox_db ''e1'' ''m1'' = (Inr (), inbox_db, False)"
    by (simp add: set_primary_mailbox_def clear_primary_def mark_primary_def inbox_db_def)
  from set_primary_mailbox_atomic [OF this] this
  show ?thesis by (simp add: set_primary_mailbox_def commit_fails_def Let_def)
qed

end
