(* ===== verification/Mailbox_Properties.thy ===== *)
theory Mailbox_Properties
  imports Database_Properties
begin

text \<open>
  The properties of the synchronisation of mailboxes: paths, the target set, the order of
  application, what a run leaves behind, and what two of its steps cost when they fail.
\<close>

section \<open>A small mailbox tree\<close>

definition tree_view :: "server_mailbox list" where
  "tree_view =
     [\<lparr>sm_id = Some ''j2'', sm_name = Some ''a/b'', sm_parent_id = Some ''j1'', sm_role = NoRole,
       sm_sort_order = 2, sm_is_subscribed = True\<rparr>,
      \<lparr>sm_id = Some ''j1'', sm_name = Some ''Inbox'', sm_parent_id = None, sm_role = Inbox,
       sm_sort_order = 1, sm_is_subscribed = True\<rparr>]"

definition tree_config :: mail_config where
  "tree_config =
     \<lparr>mail_path = ''/mail'', sync_mode = Mirror, subscribed_only = True, box_filter = None,
      tls = None, box_mapping = [\<lparr>remote = ''Inbox'', local_name = ''In''\<rparr>],
      post_sync_hook = None, watch_maildir = True, exclude_mailboxes = [''Outbox'']\<rparr>"

definition tree_account :: account where
  "tree_account =
     \<lparr>acct_name = ''a'', enabled = True, jmap_host = ''h'', jmap_user = ''u'', token = Inline ''t'',
      timeout_secs = 30, poll_interval_secs = 300, mail = Some tree_config, submit = None\<rparr>"

definition no_globs :: "string \<Rightarrow> err + (string \<Rightarrow> bool)" where
  "no_globs p = Inl (BadGlob p)"

definition in_box :: target_mailbox where
  "in_box = \<lparr>tm_jmap_id = ''j1'', tm_name = ''In'', tm_parent_jmap_id = None, tm_role = Some ''inbox'',
     tm_sort_order = Some 1, tm_path = ''In''\<rparr>"

definition sub_box :: target_mailbox where
  "sub_box = \<lparr>tm_jmap_id = ''j2'', tm_name = ''a/b'', tm_parent_jmap_id = Some ''j1'', tm_role = None,
     tm_sort_order = Some 2, tm_path = ''In/a_b''\<rparr>"

definition tree_target :: "(string, target_mailbox) hmap" where
  "tree_target = [(''j2'', sub_box), (''j1'', in_box)]"

lemma tree_target: "build_target_set no_globs tree_view tree_config = Inr tree_target"
  by code_simp

lemma tree_unique: "unique_some (map sm_id tree_view)"
  by code_simp

lemma tree_globs: "compiled_globs no_globs tree_config = Inr None"
  by (simp add: compiled_globs_def tree_config_def)

definition fresh_world :: world where
  "fresh_world = \<lparr>db = empty_database True, files = [([''mail''], Dir)], uuids_drawn = 0, set_requests = []\<rparr>"

definition tree_rows :: "mailbox_row list" where
  "tree_rows =
     [\<lparr>mb_id = ''u0'', mb_jmap_id = Some ''j1'', mb_name = ''In'', mb_parent_id = None,
       mb_role = Some ''inbox'', mb_sort_order = Some 1, mb_path = ''In'', mb_jmap_state = None\<rparr>,
      \<lparr>mb_id = ''u1'', mb_jmap_id = Some ''j2'', mb_name = ''a/b'', mb_parent_id = Some ''u0'',
       mb_role = None, mb_sort_order = Some 2, mb_path = ''In/a_b'', mb_jmap_state = None\<rparr>]"

lemma tree_topo: "topo_sort_creates_and_updates tree_target [] = [''j1'', ''j2'']"
  by code_simp

lemma tree_target_simps:
  "hm_wf tree_target" "hm_keys tree_target = [''j2'', ''j1'']"
  "map_of tree_target ''j1'' = Some in_box"
  "map_of tree_target ''j2'' = Some sub_box"
  by (simp_all add: hm_wf_def hm_keys_def tree_target_def)

lemma tree_config_simps:
  "mail_root_of tree_config = [''mail'']" "exclude_mailboxes tree_config = [''Outbox'']"
  by (simp_all add: mail_root_of_def tree_config_def join_path_def)

lemma no_local_mailboxes: "mailboxes d = [] \<Longrightarrow> local_mailboxes_by_jmap d = []"
  by (simp add: local_mailboxes_by_jmap_def get_all_mailboxes_def map_filter_def hm_collect_def)

lemma tree_run:
  obtains w' where
    "sync_mailboxes quiet_env no_globs (Inr tree_view) tree_account False fresh_world = (Inr tree_rows, w')"
proof -
  have "iterate quiet_env 0 tree_target = tree_target"
    by (rule iterate_quiet) (rule tree_target_simps)
  moreover have "iterate quiet_env (Suc 0) ([] :: (string, mailbox_row) hmap) = []"
    by (rule iterate_quiet) (simp add: hm_wf_def)
  ultimately have "\<exists>w'. sync_mailboxes quiet_env no_globs (Inr tree_view) tree_account False fresh_world
      = (Inr tree_rows, w')"
    by (simp add: sync_mailboxes_def tree_account_def tree_target apply_diff_def tree_topo
        run_simps no_local_mailboxes fresh_world_def tree_config_simps tree_target_simps
        mailboxes_to_delete_def empty_database_def create_or_update_def create_mailbox_def
        create_maildir_def cleanup_orphaned_emails_def parent_local_id_def Let_def tree_rows_def db_defs
        small_numbers parent_known_def orphaned_emails_def in_box_def sub_box_def)
  then show thesis using that by blast
qed

section \<open>Properties\<close>

text \<open>
  C26: \<open>resolve_path\<close> returns a path exactly when the chain of parents of the mailbox ends in a
  root, has no id twice and every mailbox on it has an id and a name. The path then consists of
  one component for each ancestor, root first: its configured local name, or its name, with each
  slash replaced. The walk always ends, also on a cycle, which is an error.
\<close>

theorem resolve_path_names_ancestors:
  "resolve_path m t nm = Inr p \<longleftrightarrow>
     (\<exists>ms. clean_lineage t {} m ms \<and> p = join_with ''/'' (rev (map (segment_of nm) ms))
       \<and> split_on CHR ''/'' p = rev (map (segment_of nm) ms))"
proof -
  have "split_on CHR ''/'' p = rev (map (segment_of nm) ms)"
    if "clean_lineage t {} m ms" "p = join_with ''/'' (rev (map (segment_of nm) ms))" for ms
    using that(1) lineage_not_Nil segment_no_slash unfolding that(2)
    by (intro split_on_join) (auto simp: clean_lineage_def)
  then show ?thesis unfolding resolve_path_iff by blast
qed

text \<open>
  The target set is the kept part of the server's view: a JMAP id is in it exactly when a
  mailbox of the view has this id, resolves to a path, and passes the filter (a glob of
  \<open>box_filter\<close> matches the path, or without a filter the mailbox is subscribed, unless
  unsubscribed ones are wanted as well), and the entry is that mailbox's.
\<close>

lemma target_set_is_kept_view:
  assumes "build_target_set glob view cfg = Inr target" and "unique_some (map sm_id view)"
    and "compiled_globs glob cfg = Inr globs"
  shows "map_of target j = Some t \<longleftrightarrow>
    (\<exists>m\<in>set view. \<exists>path. sm_id m = Some j
       \<and> resolve_path m (index_by_id view) (name_map_of cfg) = Inr path
       \<and> keep_mailbox globs cfg m path \<and> t = target_entry (name_map_of cfg) j m path)"
proof -
  have "sm_id m = Some j \<and> target_of (index_by_id view) (name_map_of cfg) globs cfg m = Some t \<longleftrightarrow>
      (\<exists>path. sm_id m = Some j \<and> resolve_path m (index_by_id view) (name_map_of cfg) = Inr path
        \<and> keep_mailbox globs cfg m path \<and> t = target_entry (name_map_of cfg) j m path)" for m
    by (cases "resolve_path m (index_by_id view) (name_map_of cfg)") (auto simp: target_of_def split: if_splits)
  then show ?thesis unfolding build_target_set_get [OF assms] by blast
qed

lemma target_set_is_kept_view_witness:
  "map_of tree_target ''j2'' \<noteq> None \<and> map_of tree_target ''j3'' = None"
  using target_set_is_kept_view [OF tree_target tree_unique tree_globs, of "''j3''"]
  by (auto simp: tree_view_def tree_target_def)

text \<open>
  Creates and updates are applied to every mailbox of the target set exactly once, and a
  mailbox whose parent is in the target set comes after the parent, unless the parent has a row
  already. So the parent's row exists when the child's is written.
\<close>

lemma parents_are_applied_first:
  assumes "build_target_set glob view cfg = Inr target" and "unique_some (map sm_id view)"
  shows "mset (topo_sort_creates_and_updates target locals) = mset (hm_keys target)
    \<and> parents_first target (set (hm_keys locals)) (topo_sort_creates_and_updates target locals)"
  using assms by (rule topo_sort_of_target_set)

lemma parents_are_applied_first_witness:
  "hm_keys tree_target = [''j2'', ''j1''] \<and> topo_sort_creates_and_updates tree_target [] = [''j1'', ''j2'']
   \<and> parents_first tree_target {} (topo_sort_creates_and_updates tree_target [])"
proof -
  have "hm_keys tree_target = [''j2'', ''j1'']" by (rule tree_target_simps)
  moreover have "topo_sort_creates_and_updates tree_target [] = [''j1'', ''j2'']" by (rule tree_topo)
  moreover have "parents_first tree_target {} (topo_sort_creates_and_updates tree_target [])"
    using parents_are_applied_first [OF tree_target tree_unique, of "[]"] by (simp add: hm_keys_def)
  ultimately show ?thesis by simp
qed

text \<open>
  C5: When a synchronisation of mailboxes returns, the table mirrors the target set: every
  target has a row with its name, role, sort order and path, and every row belongs to a target,
  or was there before and is local only or excluded from deletion. The returned list is the
  table. Whatever order the hash maps are iterated in, the outcome has this form.
\<close>

theorem mailbox_table_mirrors_target:
  assumes "sync_mailboxes v glob (Inr view) acct False w = (Inr rows, w')"
    and "mail acct = Some cfg" and "build_target_set glob view cfg = Inr target"
    and "unique_some (map sm_id view)" and "db_wf (db w)" and "fair_order v"
  shows "rows = mailboxes (db w')
    \<and> (\<forall>j t. map_of target j = Some t \<longrightarrow> (\<exists>r\<in>set rows. matches_target t r))
    \<and> (\<forall>r\<in>set rows. (\<exists>j\<in>set (hm_keys target). mb_jmap_id r = Some j)
         \<or> (r \<in> set (mailboxes (db w))
            \<and> (mb_jmap_id r = None \<or> mb_path r \<in> set (exclude_mailboxes cfg))))"
  using sync_mailboxes_mirror [OF assms] by blast

theorem mailbox_table_mirrors_target_witness:
  "\<exists>rows w'. sync_mailboxes quiet_env no_globs (Inr tree_view) tree_account False fresh_world = (Inr rows, w')
     \<and> map mb_path rows = [''In'', ''In/a_b''] \<and> rows = mailboxes (db w')"
proof -
  obtain w' where run:
    "sync_mailboxes quiet_env no_globs (Inr tree_view) tree_account False fresh_world = (Inr tree_rows, w')"
    by (rule tree_run)
  have acct: "mail tree_account = Some tree_config" by (simp add: tree_account_def)
  have wf: "db_wf (db fresh_world)" by (simp add: fresh_world_def)
  have "tree_rows = mailboxes (db w')"
    using mailbox_table_mirrors_target [OF run acct tree_target tree_unique wf quiet_env_fair] by (rule conjunct1)
  moreover have "map mb_path tree_rows = [''In'', ''In/a_b'']" by (simp add: tree_rows_def)
  ultimately show ?thesis by (intro exI conjI) (rule run)
qed

text \<open>
  A synchronisation of mailboxes that the server refuses, or whose view cannot be turned into
  a target set (a cycle, an unknown parent, a nameless mailbox, a bad glob), ends with that error
  before anything has been written; so does an account without a mail section.
\<close>

lemma refused_view_changes_nothing:
  "sync_mailboxes v glob (Inl e) acct dry w =
     (Inl (case mail acct of None \<Rightarrow> NoMailSection (acct_name acct) | Some _ \<Rightarrow> e), w)
   \<and> (case mail acct of None \<Rightarrow> True | Some cfg \<Rightarrow>
       (case build_target_set glob view cfg of Inr _ \<Rightarrow> True
        | Inl x \<Rightarrow> sync_mailboxes v glob (Inr view) acct dry w = (Inl x, w)))"
  by (auto simp: sync_mailboxes_def io_simps split: option.splits sum.splits)

section \<open>Steps that fail half-way\<close>

text \<open>
  C35: Deleting a mailbox removes its Maildir first and its row second. While the database holds
  an email whose primary mailbox this is (\<open>emails.primary_mailbox\<close> has no cascade), the row
  cannot go: the files are lost, the rows stay, the caller gets the foreign-key error, and every
  further attempt ends in the same error.
\<close>

theorem deleted_mailbox_with_mail_wedges:
  assumes "foreign_keys (db w)" and "row \<in> set (mailboxes (db w))"
    and "e \<in> set (emails (db w))" and "em_primary_mailbox e = mb_id row"
    and "\<And>m. m \<in> set (mailboxes (db w)) \<Longrightarrow> mb_id m \<noteq> mb_id row \<Longrightarrow> mb_parent_id m \<noteq> Some (mb_id row)"
    and "join_path mail_root (mb_path row) = dir" and "dir \<noteq> []" and "is_dir (files w) dir"
    and "\<not> fault v (RemoveDirAll dir)"
  shows "\<exists>w'. delete_mailbox v mail_root False row w
           = (Inl (SqlError (ForeignKey ''emails.primary_mailbox'')), w')
       \<and> db w' = db w \<and> (\<forall>p. prefix dir p \<longrightarrow> map_of (files w') p = None)
       \<and> delete_mailbox v mail_root False row w'
           = (Inl (SqlError (ForeignKey ''emails.primary_mailbox'')), w')"
  by (rule refused_delete_loses_files [OF assms])

definition inbox_world :: world where
  "inbox_world = \<lparr>db = inbox_db,
     files = [([''mail''], Dir), ([''mail'', ''Inbox''], Dir), ([''mail'', ''Inbox'', ''cur''], Dir),
       ([''mail'', ''Inbox'', ''cur'', ''5.a:2,S''], File ''hi'')],
     uuids_drawn = 0, set_requests = []\<rparr>"

theorem deleted_mailbox_with_mail_wedges_witness:
  "\<exists>w'. delete_mailbox quiet_env [''mail''] False inbox_row inbox_world
      = (Inl (SqlError (ForeignKey ''emails.primary_mailbox'')), w')
    \<and> read_file (files inbox_world) [''mail'', ''Inbox'', ''cur'', ''5.a:2,S''] = Some ''hi''
    \<and> read_file (files w') [''mail'', ''Inbox'', ''cur'', ''5.a:2,S''] = None \<and> db w' = inbox_db"
proof -
  have j: "join_path [''mail''] (mb_path inbox_row) = [''mail'', ''Inbox'']" by code_simp
  have dir: "is_dir (files inbox_world) [''mail'', ''Inbox'']" by code_simp
  have "read_file (files inbox_world) [''mail'', ''Inbox'', ''cur'', ''5.a:2,S''] = Some ''hi''" by code_simp
  moreover have "\<exists>w'. delete_mailbox quiet_env [''mail''] False inbox_row inbox_world
      = (Inl (SqlError (ForeignKey ''emails.primary_mailbox'')), w') \<and> db w' = db inbox_world
    \<and> (\<forall>p. prefix [''mail'', ''Inbox''] p \<longrightarrow> map_of (files w') p = None)
    \<and> delete_mailbox quiet_env [''mail''] False inbox_row w'
        = (Inl (SqlError (ForeignKey ''emails.primary_mailbox'')), w')"
    by (rule deleted_mailbox_with_mail_wedges [OF _ _ _ _ _ j _ dir, of greeting_row])
       (simp_all add: inbox_world_def inbox_db_def greeting_row_def inbox_row_def)
  ultimately show ?thesis by (auto simp: read_file_def inbox_world_def)
qed

text \<open>
  A mailbox named \<open>..\<close> at the top of the tree is not stopped by \<open>sanitize_segment\<close>: its path
  is \<open>..\<close>, which leads out of the Maildir root to the directory above it, and deleting the
  mailbox removes everything below that directory.
\<close>

lemma dotdot_mailbox_escapes_root:
  assumes "sm_id m = Some i" and "sm_name m = Some ''..''" and "sm_parent_id m = None"
    and "mb_path row = ''..''" and "is_dir (files w) (butlast mail_root)"
    and "\<not> fault v (RemoveDirAll (butlast mail_root))"
  shows "resolve_path m t [] = Inr ''..'' \<and> join_path mail_root ''..'' = butlast mail_root
    \<and> (\<forall>p. prefix (butlast mail_root) p \<longrightarrow>
         map_of (files (snd (delete_mailbox v mail_root False row w))) p = None)"
proof -
  have s: "split_on CHR ''/'' ''..'' = [''..'']" by code_simp
  have j: "join_path mail_root ''..'' = butlast mail_root"
    unfolding join_path_def s by (simp add: prefix_def)
  have r: "resolve_path m t [] = Inr ''..''"
    using assms(1-3)
    by (simp add: resolve_path_def resolve_loop.simps mapped_name_def sanitize_segment_def)
  have "path_exists (files w) (butlast mail_root)"
    using assms(5) by (auto simp: path_exists_def is_dir_def)
  with assms(4-6) have "map_of (files (snd (delete_mailbox v mail_root False row w))) p = None"
    if "prefix (butlast mail_root) p" for p
    using that
    by (auto simp: delete_mailbox_def j io_calls io_simps Let_def map_of_remove_dir_all
             split: option.splits sum.splits if_splits prod.splits)
       (auto simp: remove_dir_all_def)
  with j r show ?thesis by simp
qed

definition dotdot_mailbox :: server_mailbox where
  "dotdot_mailbox = \<lparr>sm_id = Some ''j9'', sm_name = Some ''..'', sm_parent_id = None, sm_role = NoRole,
     sm_sort_order = 0, sm_is_subscribed = True\<rparr>"

lemma dotdot_mailbox_escapes_root_witness:
  "read_file (files (snd (delete_mailbox quiet_env [''mail'', ''Inbox''] False
      (inbox_row\<lparr>mb_path := ''..''\<rparr>) inbox_world))) [''mail'', ''Inbox'', ''cur'', ''5.a:2,S''] = None"
  using dotdot_mailbox_escapes_root [of dotdot_mailbox "''j9''" "inbox_row\<lparr>mb_path := ''..''\<rparr>"
      inbox_world "[''mail'', ''Inbox'']" quiet_env]
  by (simp add: dotdot_mailbox_def inbox_world_def is_dir_def read_file_def)

end
