(* ===== verification/Flag_Properties.thy ===== *)
theory Flag_Properties
  imports Samples
begin

text \<open>
  The properties of file names and keywords: the flags of a file name, the keywords that the
  database stores, and the patch that tells the server of a local change of flags.
\<close>

section \<open>File names\<close>

lemma show_int_no_dot: "CHR ''.'' \<notin> set (show_int i)"
  using show_nat_digits [of "CHR ''.''"] by (auto simp: show_int_def)

lemma split_once_skip: "x \<noteq> c \<Longrightarrow> split_once (c # d) (x # s) = map_option (\<lambda>(a, b). (x # a, b)) (split_once (c # d) s)"
  by (simp add: prefix_def)

lemma split_once_over: "c \<notin> set a \<Longrightarrow>
   split_once (c # d) (a @ s) = map_option (\<lambda>(x, y). (a @ x, y)) (split_once (c # d) s)"
  by (induction a) (auto simp: split_once_skip option.map_comp comp_def split_def option.map_ident simp del: split_once.simps)

lemma split_once_None_tail: "split_once d (a @ b) = None \<Longrightarrow> split_once d b = None"
  by (induction a) (auto split: if_splits)

lemma split_once_None_head: "split_once '':2,'' s = Some (a, b) \<Longrightarrow> split_once '':2,'' a = None"
proof (induction s arbitrary: a)
  case Nil
  then show ?case by simp
next
  case (Cons x s)
  show ?case
  proof (cases "prefix '':2,'' (x # s)")
    case True
    with Cons.prems show ?thesis by simp
  next
    case False
    with Cons.prems obtain a' where a: "a = x # a'" and s: "split_once '':2,'' s = Some (a', b)" by auto
    from s have "s = a' @ '':2,'' @ b" by (rule split_once_Some)
    with False have "\<not> prefix '':2,'' a" by (auto simp: a prefix_def)
    with Cons.IH [OF s] show ?thesis by (simp add: a)
  qed
qed

lemma split_once_flags:
  "split_once '':2,'' a = None \<Longrightarrow> split_once '':2,'' (a @ '':2,'' @ b) = Some (a, b)"
proof (induction a)
  case Nil
  then show ?case by simp
next
  case (Cons x a)
  then have p: "\<not> prefix '':2,'' (x # a)" and n: "split_once '':2,'' a = None"
    by (auto split: if_splits)
  have "\<not> prefix '':2,'' (x # a @ '':2,'' @ b)"
  proof (cases a)
    case (Cons y ys)
    with p show ?thesis by (cases ys) (auto simp: prefix_def)
  qed (auto simp: prefix_def)
  with Cons.IH [OF n] show ?case by (simp del: Cons_prefix_Cons)
qed

text \<open>The identifier that a message keeps in its file name.\<close>

lemma extract_uuid_message:
  assumes "split_once '':2,'' u = None" and "CHR ''/'' \<notin> set u" and "CHR ''/'' \<notin> set flags"
  shows "extract_uuid (pp @ ''/cur/'' @ message_name ts u flags) = Some u"
proof -
  have ts: "CHR '':'' \<notin> set (show_int ts @ ''.'')" "CHR ''.'' \<notin> set (show_int ts)"
    using show_int_plain [of _ ts] show_int_no_dot [of ts] by auto
  have "CHR ''/'' \<notin> set (message_name ts u flags)"
    using message_name_plain [OF assms(2,3), of ts] by (simp add: plain_component_def)
  then have "last (split_on CHR ''/'' (pp @ ''/cur/'' @ message_name ts u flags)) = message_name ts u flags"
    using split_on_append_sep [of "CHR ''/''" "pp @ ''/cur''" "message_name ts u flags"]
    by (simp add: split_on_single)
  moreover have "split_once '':2,'' (show_int ts @ ''.'' @ u) = None"
    using split_once_over [OF ts(1), of "'':2,''" u] assms(1) split_once_over [OF ts(1), of "''2,''" u] by simp
  ultimately show ?thesis
    using split_once_flags [of "show_int ts @ ''.'' @ u" flags] split_once_over [OF ts(2), of "[]" "''.'' @ u"]
    by (simp add: extract_uuid_def message_name_def message_base_def)
qed

lemma extract_uuid_plain:
  assumes "extract_uuid p = Some u"
  shows "split_once '':2,'' u = None \<and> CHR ''/'' \<notin> set u"
proof -
  define f where "f = last (split_on CHR ''/'' p)"
  define b where "b = (case split_once '':2,'' f of Some (b, _) \<Rightarrow> b | None \<Rightarrow> f)"
  have slash: "CHR ''/'' \<notin> set f"
    unfolding f_def by (rule split_on_no_sep [of _ _ p]) simp
  have b: "split_once '':2,'' b = None" "set b \<subseteq> set f"
    by (auto simp: b_def split: option.splits dest: split_once_None_head split_once_Some)
  from assms obtain x where "split_once ''.'' b = Some (x, u)"
    unfolding extract_uuid_def Let_def f_def [symmetric] b_def [symmetric] by auto
  from split_once_Some [OF this] have x: "b = (x @ ''.'') @ u" by simp
  have "split_once '':2,'' u = None"
    by (rule split_once_None_tail [of _ "x @ ''.''"]) (use b(1) x in simp)
  moreover have "set u \<subseteq> set f" using b(2) x by auto
  ultimately show ?thesis using slash by auto
qed

section \<open>Properties\<close>

text \<open>
  The flags that a set of keywords gives are the letters of the table for the standard
  keywords among them, each once and in alphabetical order; other keywords give no letter.
\<close>

lemma flag_string_of_keywords:
  "sorted (keywords_to_flag_string ks) \<and> distinct (keywords_to_flag_string ks)
   \<and> set (keywords_to_flag_string ks) = {c. \<exists>k\<in>set ks. (k, c) \<in> set keyword_map}"
  using sorted_keywords_to_flag_string [of ks] set_keywords_to_flag_string [of _ ks] by blast

text \<open>
  A file name rebuilt with the flags of a set of keywords is read back as it was written: the
  flags are those flags, the base, by which the write-back finds the file again, is the base of
  the old name, and none of the flags is the trash flag.
\<close>

lemma rebuilt_name_reads_back:
  "filename_flags (rebuild_path_with_flags p (keywords_to_flag_string ks)) = keywords_to_flag_string ks
   \<and> filename_base (rebuild_path_with_flags p (keywords_to_flag_string ks)) = filename_base p
   \<and> CHR ''T'' \<notin> set (filename_flags (rebuild_path_with_flags p (keywords_to_flag_string ks)))"
  by (simp add: filename_flags_rebuild filename_base_rebuild keywords_to_flag_string_no_colon no_T_flag)

text \<open>
  Merging the flags on disk into the stored keywords makes the standard keywords exactly
  those of the disk and keeps every other keyword, so a label that has no Maildir flag survives
  a local change; and the standard flags read from the merged keywords are those of the disk.
  (\<open>serde_json\<close> parses what it prints.)
\<close>

lemma merge_keeps_custom_keywords:
  assumes "json_faithful v"
  shows "map_of (parse_keywords v (merge_keywords_json v s f)) k =
      (case map_of keyword_map k of
         Some c \<Rightarrow> if c \<in> set f then Some True else None
       | None \<Rightarrow> map_of (parse_keywords v s) k)
    \<and> extract_standard_flags v (merge_keywords_json v s f)
      = sort (filter (\<lambda>c. c \<in> set f) (map snd keyword_map))"
  using assms
  using extract_merge [of v s f]
  by (simp add: merge_keywords_json_def parse_print_keywords merged_keywords_get)

lemma merge_keeps_custom_keywords_witness:
  "map_of (parse_keywords quiet_env (merge_keywords_json quiet_env
      (print_keywords [(''$seen'', True), (''work'', True)]) ''F'')) ''work'' = Some True"
proof -
  have "parse_keywords quiet_env (print_keywords [(''$seen'', True), (''work'', True)])
      = [(''$seen'', True), (''work'', True)]"
    by (simp add: parse_keywords_def quiet_env_def read_print_keywords bt_collect_def)
  then show ?thesis
    using merge_keeps_custom_keywords [OF quiet_env_json, of
        "print_keywords [(''$seen'', True), (''work'', True)]" "''F''" "''work''"]
    by (simp add: keyword_map_def)
qed



end
