(* ===== verification/Sync_Account.thy ===== *)
theory Sync_Account
  imports Mailbox_Sync_Facts Email_Sync_Facts
begin

text \<open>
  \<open>sync_account\<close> of \<open>sync/mod.rs\<close>: mailboxes first, then the emails against the resulting
  tree, and the decision whether the post-sync hook runs.
\<close>

record sync_stats =
  ss_email :: email_sync_stats
  ss_elapsed_ms :: nat

definition changed_emails :: "email_sync_stats \<Rightarrow> nat" where
  "changed_emails s = est_created s + est_updated s + est_moved s + est_deleted s"

text \<open>
  The result carries the command line of the hook that is spawned, if one is. \<open>elapsed\<close> is
  what the clock says; \<open>None\<close> as a whole means that the paging never ends.
\<close>

definition sync_account ::
    "env \<Rightarrow> (string \<Rightarrow> err + (string \<Rightarrow> bool)) \<Rightarrow> client \<Rightarrow> account \<Rightarrow> nat \<Rightarrow> bool \<Rightarrow> world
     \<Rightarrow> ((err + sync_stats \<times> string option) \<times> world) option" where
  "sync_account v glob cl acct elapsed dry_run w =
     (case mail acct of
        None \<Rightarrow> Some (Inl (NoMailSection (acct_name acct)), w)
      | Some mail_cfg \<Rightarrow>
          (case sync_mailboxes v glob (cl_mailbox_get cl) acct dry_run w of
             (Inl e, w1) \<Rightarrow> Some (Inl e, w1)
           | (Inr ms, w1) \<Rightarrow>
               (case sync_emails v cl ms (mail_root_of mail_cfg) dry_run of
                  None \<Rightarrow> None
                | Some m \<Rightarrow>
                    (case m w1 of
                       (Inl e, w2) \<Rightarrow> Some (Inl e, w2)
                     | (Inr email, w2) \<Rightarrow>
                         Some (Inr (\<lparr>ss_email = email, ss_elapsed_ms = elapsed\<rparr>,
                           if \<not> dry_run \<and> changed_emails email > 0
                           then post_sync_hook mail_cfg else None), w2)))))"

lemma sync_account_keeps:
  assumes "\<And>view. keeps P (sync_mailboxes v glob view acct dry)"
    and "\<And>boxes root ids. keeps P (reconcile_emails v cl boxes root dry ids)"
    and "P w" and "sync_account v glob cl acct elapsed dry w = Some (r, w')"
  shows "P w'"
proof (cases "mail acct")
  case None
  with assms(3,4) show ?thesis by (simp add: sync_account_def)
next
  case (Some cfg)
  obtain r1 w1 where mb: "sync_mailboxes v glob (cl_mailbox_get cl) acct dry w = (r1, w1)"
    by fastforce
  have "P w1" using keepsD [OF assms(1) assms(3)] mb by (metis snd_conv)
  moreover have "keeps P m" if "sync_emails v cl ms (mail_root_of cfg) dry = Some m" for ms m
    by (rule sync_emails_keeps [OF assms(2) that])
  ultimately show ?thesis using assms(4) Some mb
    by (auto simp: sync_account_def keeps_def split: sum.splits option.splits prod.splits; force)
qed

text \<open>A dry run, whatever the server answers and wherever it ends.\<close>

lemma sync_account_dry:
  assumes "sync_account v glob cl acct elapsed True w = Some (r, w')"
  shows "db w' = db w \<and> files w' = files w \<and> set_requests w' = set_requests w"
proof -
  have "(\<lambda>w. (\<lambda>d f s. d = db w0 \<and> f = files w0 \<and> s = set_requests w0) (db w) (files w) (set_requests w)) w'"
    if "w0 = w" for w0
    by (rule sync_account_keeps [OF sync_mailboxes_dry reconcile_emails_dry _ assms]) (simp add: that)
  then show ?thesis by simp
qed

end
