(* ===== verification/Email_Properties.thy ===== *)
theory Email_Properties
  imports Mailbox_Properties Flag_Properties Sync_Account
begin

text \<open>
  The properties of the synchronisation of emails: the primary mailbox, the paging, what is
  pushed to the server, what a download leaves on the disk, what a move keeps, and what a pass
  as a whole leaves behind.
\<close>

section \<open>A small server\<close>

definition greeting :: server_email where
  "greeting = \<lparr>se_id = Some ''M2'', se_blob_id = Some ''B2'', se_mailbox_ids = [''j1''],
     se_keywords = [''$seen'', ''work''], se_size = 2, se_received_at = Some 5, se_message_id = None\<rparr>"

definition small_client :: client where
  "small_client =
     \<lparr>cl_mailbox_get = Inr [],
      cl_email_query = (\<lambda>mb p n. Inr (take n (drop (nat p) (if mb = ''j1'' then [''M2''] else [])))),
      cl_email_get = (\<lambda>ids. Inr (if ''M2'' \<in> set ids then [greeting] else [])),
      cl_email_set = (\<lambda>req. Inr (sr_destroy req, map fst (sr_updates req))),
      cl_download = (\<lambda>b. Inr ''hi'')\<rparr>"

lemma small_client_serves: "serves small_client mb (if mb = ''j1'' then [''M2''] else [])"
  by (simp add: serves_def small_client_def)

section \<open>Choosing and paging\<close>

text \<open>
  The primary mailbox of an email is one of its mailboxes that are synchronised, and none of
  those comes before it in the order by role priority, sort order and name; there is none
  exactly when no mailbox of the email is synchronised.
\<close>

lemma primary_mailbox_is_least:
  "(case pick_primary_mailbox ids boxes of
      None \<Rightarrow> \<forall>i\<in>set ids. map_of boxes i = None
    | Some m \<Rightarrow> (\<exists>i\<in>set ids. map_of boxes i = Some m)
        \<and> (\<forall>i\<in>set ids. \<forall>n. map_of boxes i = Some n \<longrightarrow> primary_key m \<le> primary_key n))"
  using pick_primary_None [of ids boxes] pick_primary_least [of ids boxes]
  by (auto split: option.splits)

lemma primary_mailbox_is_least_witness:
  "pick_primary_mailbox [''j2'', ''j1''] [(''j1'', inbox_row),
      (''j2'', inbox_row\<lparr>mb_role := None, mb_id := ''m2''\<rparr>)] = Some inbox_row"
proof -
  let ?boxes = "[(''j1'', inbox_row), (''j2'', inbox_row\<lparr>mb_role := None, mb_id := ''m2''\<rparr>)]"
  have "\<not> primary_key (inbox_row\<lparr>mb_role := None, mb_id := ''m2''\<rparr>) \<le> primary_key inbox_row"
    by (simp add: primary_key_def inbox_row_def role_rank_def role_priority_def less_eq_prod_def)
  then show ?thesis
    using primary_mailbox_is_least [of "[''j2'', ''j1'']" ?boxes]
    by (auto split: option.splits if_splits)
qed

text \<open>
  C25: On a server that serves the identifiers of each mailbox page by page, the paging ends, and
  its result holds exactly the identifiers of the mailboxes, each once, however the pages of 256
  fall (fewer than \<open>2 ^ 31\<close> in a mailbox, as the position is an \<open>i32\<close>).
\<close>

theorem paging_ends_with_every_id:
  assumes "\<And>m. m \<in> set ms \<Longrightarrow> serves cl m (ids_of m) \<and> length (ids_of m) < 2147483648"
  shows "\<exists>out. fetch_all_email_ids cl ms [] = Some (Inr out) \<and> distinct out
    \<and> set out = (\<Union>m\<in>set ms. set (ids_of m))"
proof -
  obtain out where out: "fetch_all_email_ids cl ms [] = Some (Inr out)"
    "set out = (\<Union>m\<in>set ms. set (ids_of m))"
    using fetch_all_email_ids_serves [of ms cl ids_of "[]"] assms by auto
  from fetch_all_email_ids_distinct [OF this(1)] out show ?thesis by auto
qed

theorem paging_ends_with_every_id_witness:
  "\<exists>out. fetch_all_email_ids small_client [''j1'', ''j2''] [] = Some (Inr out) \<and> set out = {''M2''}"
proof -
  let ?ids = "\<lambda>m. if m = ''j1'' then [''M2''] else []"
  have "\<exists>out. fetch_all_email_ids small_client [''j1'', ''j2''] [] = Some (Inr out) \<and> distinct out
      \<and> set out = (\<Union>m\<in>set [''j1'', ''j2'']. set (?ids m))"
    by (rule paging_ends_with_every_id) (simp only: small_client_serves, simp)
  then show ?thesis by (simp del: fetch_all_email_ids.simps) blast
qed

section \<open>Write-back\<close>


section \<open>Moving an email\<close>

lemma reconcile_memberships_result:
  assumes "reconcile_memberships e p ids boxes w = (Inr u, w')"
  shows "files w' = files w \<and> emails (db w') = emails (db w)
    \<and> email_mailboxes (db w') = filter (\<lambda>j. ej_email_id j \<noteq> e) (email_mailboxes (db w)) @
        List.map_filter (\<lambda>i. map_option (\<lambda>mb. \<lparr>ej_email_id = e, ej_mailbox_id = mb_id mb,
          ej_is_primary = (mb_id mb = p)\<rparr>) (map_of boxes i)) ids"
proof -
  let ?rows = "email_mailboxes (db w)" and ?old = "get_email_mailboxes_by_email (db w) e"
  obtain w1 where del: "foldE (\<lambda>r _. db_exec (\<lambda>d. delete_email_mailbox d (ej_email_id r) (ej_mailbox_id r)))
        ?old () w = (Inr (), w1)"
    and ins: "insert_memberships e p ids boxes w1 = (Inr u, w')"
    using assms by (auto simp: reconcile_memberships_def bindE_eq_Inr db_query_def)
  have old: "ej_email_id x = e" if "?old = pre @ x # post" for pre x post
  proof -
    from that have "x \<in> set ?old" by simp
    then show ?thesis by (simp add: get_email_mailboxes_by_email_def)
  qed
  have "files w1 = files w \<and> emails (db w1) = emails (db w) \<and> email_mailboxes (db w1) =
      filter (\<lambda>j. \<not> (ej_email_id j = e \<and> ej_mailbox_id j \<in> ej_mailbox_id ` set ?old)) ?rows"
    using del
    by (rule foldE_outcome [where I = "\<lambda>don _ x. files x = files w \<and> emails (db x) = emails (db w)
        \<and> email_mailboxes (db x) =
          filter (\<lambda>j. \<not> (ej_email_id j = e \<and> ej_mailbox_id j \<in> ej_mailbox_id ` set don)) ?rows"])
      (auto simp: db_exec_def delete_email_mailbox_def intro!: filter_cong dest!: old)
  moreover have "filter (\<lambda>j. \<not> (ej_email_id j = e \<and> ej_mailbox_id j \<in> ej_mailbox_id ` set ?old)) ?rows
      = filter (\<lambda>j. ej_email_id j \<noteq> e) ?rows"
    by (rule filter_cong) (auto simp: get_email_mailboxes_by_email_def)
  ultimately show ?thesis using insert_memberships_adds [OF ins] by simp
qed

lemma map_of_map_filter: "map f (List.map_filter g xs) = List.map_filter (\<lambda>x. map_option f (g x)) xs"
  by (induction xs) (auto simp: List.map_filter_simps split: option.splits)

lemma by_email_after_reconcile:
  assumes "reconcile_memberships e p ids boxes w = (Inr u, w')"
  shows "map ej_mailbox_id (get_email_mailboxes_by_email (db w') e)
    = List.map_filter (\<lambda>i. map_option mb_id (map_of boxes i)) ids"
proof -
  let ?new = "List.map_filter (\<lambda>i. map_option (\<lambda>mb. \<lparr>ej_email_id = e, ej_mailbox_id = mb_id mb,
          ej_is_primary = (mb_id mb = p)\<rparr>) (map_of boxes i)) ids"
  have "get_email_mailboxes_by_email (db w') e = filter (\<lambda>j. ej_email_id j = e) ?new"
    using reconcile_memberships_result [OF assms] by (simp add: get_email_mailboxes_by_email_def)
  also have "\<dots> = ?new" by (rule filter_True) (auto simp: in_map_filter)
  finally show ?thesis by (simp add: map_of_map_filter option.map_comp comp_def)
qed

text \<open>
  Moving an email, when it succeeds, leaves the row under the new primary mailbox and under a
  file name with the identifier of the old one and the server's flags, the file with its content
  under that name, and the email's memberships exactly those that the server lists.
\<close>

lemma move_email_keeps_message:
  assumes "move_email v mail_root boxes False existing p ids (keywords_to_flag_string ks) json ts w = (Inr u, w')"
    and "extract_uuid (em_file_path existing) = Some uuid"
    and "get_email (db w) (em_id existing) \<noteq> None"
    and "read_file (files w) (join_path mail_root (em_file_path existing)) = Some c"
  shows "\<exists>row. get_email (db w') (em_id existing) = Some row \<and> em_primary_mailbox row = mb_id p
    \<and> extract_uuid (em_file_path row) = Some uuid
    \<and> filename_flags (em_file_path row) = keywords_to_flag_string ks
    \<and> read_file (files w') (join_path mail_root (em_file_path row)) = Some c
    \<and> map ej_mailbox_id (get_email_mailboxes_by_email (db w') (em_id existing))
        = List.map_filter (\<lambda>i. map_option mb_id (map_of boxes i)) ids"
proof -
  let ?flags = "keywords_to_flag_string ks"
  define rel where "rel = mb_path p @ ''/cur/'' @ show_int ts @ ''.'' @ uuid @ '':2,'' @ ?flags"
  then have rel: "rel = mb_path p @ ''/cur/'' @ message_name ts uuid ?flags"
    by (simp add: message_name_def message_base_def)
  let ?old = "join_path mail_root (em_file_path existing)" and ?new = "join_path mail_root rel"
  let ?row = "existing\<lparr>em_file_path := rel, em_primary_mailbox := mb_id p,
      em_keywords := Some json, em_last_sync := Some (unix_now v)\<rparr>"
  have flags: "CHR ''/'' \<notin> set ?flags" "CHR '':'' \<notin> set ?flags"
    using keywords_to_flag_string_standard [of _ ks] by (auto simp: standard_flags)
  have uuid: "extract_uuid rel = Some uuid"
    using extract_uuid_plain [OF assms(2)] flags(1) unfolding rel by (intro extract_uuid_message) auto
  obtain w1 w2 w3 where mk: "(if ?new = [] then ret () else sys_create_dir_all v (butlast ?new)) w = (Inr (), w1)"
    and mv: "(if path_exists (files w1) ?old then sys_rename v ?old ?new else ret ()) w1 = (Inr (), w2)"
    and up: "db_exec (\<lambda>d. update_email_row d ?row) w2 = (Inr (), w3)"
    and rec: "reconcile_memberships (em_id existing) (mb_id p) ids boxes w3 = (Inr u, w')"
    using assms(1) unfolding move_email_def assms(2) option.case bindE_ret Let_def rel_def [symmetric] if_False
    by (auto simp: bindE_eq_Inr sys_exists_def)
  have f1: "map_of (files w1) ?old = Some (File c)" and d1: "db w1 = db w"
    using mk assms(4)
    by (auto simp: sys_create_dir_all_def sys_Inr map_of_create_dir_all read_file_def
             split: if_splits option.splits node.splits)
  then have "path_exists (files w1) ?old" by (simp add: path_exists_def)
  with mv f1 d1 have f2: "map_of (files w2) ?new = Some (File c)" and d2: "db w2 = db w"
    by (auto simp: sys_rename_def sys_Inr map_of_rename_file)
  from up obtain d where d: "update_email_row (db w) ?row = Inr d" and w3: "w3 = w2\<lparr>db := d\<rparr>"
    by (auto simp: db_exec_Inr d2)
  note r = reconcile_memberships_result [OF rec]
  have "get_email d (em_id existing) = Some ?row"
    using get_email_update [OF d, of "em_id existing"] assms(3) by simp
  then have "get_email (db w') (em_id existing) = Some ?row" using r by (simp add: get_email_def w3)
  moreover have "read_file (files w') ?new = Some c" using r f2 by (simp add: w3 read_file_def)
  moreover have "filename_flags rel = ?flags"
    unfolding rel using message_name_flags [OF flags(2), of "mb_path p @ ''/cur/''"] by simp
  ultimately show ?thesis using uuid by_email_after_reconcile [OF rec]
    by (intro exI [of _ ?row]) simp
qed

definition archive_row :: mailbox_row where
  "archive_row = \<lparr>mb_id = ''m2'', mb_jmap_id = Some ''j2'', mb_name = ''Ar'', mb_parent_id = None,
     mb_role = Some ''archive'', mb_sort_order = None, mb_path = ''Ar'', mb_jmap_state = None\<rparr>"

definition two_box_world :: world where
  "two_box_world = inbox_world\<lparr>db := inbox_db\<lparr>mailboxes := [inbox_row, archive_row]\<rparr>\<rparr>"

lemma two_box_move:
  obtains w' where "move_email quiet_env [''mail''] [(''j2'', archive_row)] False greeting_row archive_row
      [''j2''] (keywords_to_flag_string [''$seen'']) ''k'' 5 two_box_world = (Inr (), w')"
proof -
  have "keywords_to_flag_string [''$seen''] = ''S''" "show_int 5 = ''5''"
    "extract_uuid (em_file_path greeting_row) = Some ''a''" by code_simp+
  then have "\<exists>w'. move_email quiet_env [''mail''] [(''j2'', archive_row)] False greeting_row archive_row
      [''j2''] (keywords_to_flag_string [''$seen'']) ''k'' 5 two_box_world = (Inr (), w')"
    by (simp add: move_email_def run_simps Let_def two_box_world_def inbox_world_def inbox_db_def
        greeting_row_def archive_row_def inbox_row_def db_defs primary_known_def reconcile_memberships_def
        insert_memberships_def)
  then show thesis using that by blast
qed

lemma move_email_keeps_message_witness:
  "\<exists>w' row. move_email quiet_env [''mail''] [(''j2'', archive_row)] False greeting_row archive_row
      [''j2''] (keywords_to_flag_string [''$seen'']) ''k'' 5 two_box_world = (Inr (), w')
    \<and> get_email (db w') ''e1'' = Some row \<and> em_primary_mailbox row = ''m2''
    \<and> extract_uuid (em_file_path row) = Some ''a''"
proof -
  obtain w' where run: "move_email quiet_env [''mail''] [(''j2'', archive_row)] False greeting_row archive_row
      [''j2''] (keywords_to_flag_string [''$seen'']) ''k'' 5 two_box_world = (Inr (), w')"
    by (rule two_box_move)
  have u: "extract_uuid (em_file_path greeting_row) = Some ''a''" by code_simp
  have g: "get_email (db two_box_world) (em_id greeting_row) \<noteq> None"
    by (simp add: two_box_world_def inbox_db_def get_email_def)
  have r: "read_file (files two_box_world) (join_path [''mail''] (em_file_path greeting_row)) = Some ''hi''"
    by code_simp
  from move_email_keeps_message [OF run u g r] run show ?thesis
    by (auto simp: greeting_row_def archive_row_def)
qed

section \<open>Downloads\<close>




text \<open>
  C24: A message that has just been downloaded and inserted is settled: looking at the same disk,
  the write-back finds no local change of it, and applying the same server state again changes
  nothing. (The file name is new in the directory, and \<open>serde_json\<close> parses what it prints.)
\<close>

theorem inserted_email_is_settled:
  assumes "insert_email v cl mail_root boxes False j email p flags json ts w = (Inr n, w')"
    and "flags = keywords_to_flag_string (se_keywords email)"
    and "json = serialize_keywords v (se_keywords email)" and "json_faithful v"
    and "db_wf (db w)" and "foreign_keys (db w)"
    and "mb_path p \<noteq> []" and "join_path mail_root (mb_path p) = dir" and "prefix mail_root dir"
    and "uuid = fresh_uuid v (uuids_drawn w)" and "CHR ''/'' \<notin> set uuid"
    and "\<And>n. n \<in> set (dir_entries (files w) (dir @ [''cur''])) \<Longrightarrow> filename_base n \<noteq> message_base ts uuid"
    and "\<not> fault v (ReadDir (dir @ [''cur'']))"
    and "pick_primary_mailbox (se_mailbox_ids email) boxes = Some p" and "se_id email = Some j"
  shows "\<exists>row. get_email_by_jmap_id (db w') j = Some row
    \<and> local_change_of v (files w') mail_root j row = None
    \<and> (\<forall>locals stats. map_of locals j = Some row \<longrightarrow>
         apply_email v cl mail_root boxes locals False email stats w' = (Inr stats, w'))"
  using assms by (rule inserted_email_settles)

lemma greeting_insert:
  obtains n w' where "insert_email quiet_env small_client [''mail''] [(''j1'', inbox_row)] False ''M2'' greeting
      inbox_row ''S'' (serialize_keywords quiet_env (se_keywords greeting)) 5 inbox_world = (Inr n, w')"
proof -
  have "show_int 5 = ''5''" by code_simp
  then have "\<exists>n w'. insert_email quiet_env small_client [''mail''] [(''j1'', inbox_row)] False ''M2'' greeting
      inbox_row ''S'' (serialize_keywords quiet_env (se_keywords greeting)) 5 inbox_world = (Inr n, w')"
    by (simp add: insert_email_def download_and_write_def insert_memberships_def run_simps Let_def
        inbox_world_def small_client_def small_numbers greeting_def inbox_row_def inbox_db_def
        greeting_row_def db_defs primary_known_def)
  then show thesis using that by blast
qed

theorem inserted_email_is_settled_witness:
  "\<exists>n w' row. insert_email quiet_env small_client [''mail''] [(''j1'', inbox_row)] False ''M2'' greeting
      inbox_row ''S'' (serialize_keywords quiet_env (se_keywords greeting)) 5 inbox_world = (Inr n, w')
    \<and> get_email_by_jmap_id (db w') ''M2'' = Some row
    \<and> local_change_of quiet_env (files w') [''mail''] ''M2'' row = None"
proof -
  obtain n w' where run: "insert_email quiet_env small_client [''mail''] [(''j1'', inbox_row)] False ''M2'' greeting
      inbox_row ''S'' (serialize_keywords quiet_env (se_keywords greeting)) 5 inbox_world = (Inr n, w')"
    by (rule greeting_insert)
  have flags: "''S'' = keywords_to_flag_string (se_keywords greeting)" by code_simp
  have dir: "join_path [''mail''] (mb_path inbox_row) = [''mail'', ''Inbox'']" by code_simp
  have wf: "db_wf (db inbox_world)" "foreign_keys (db inbox_world)"
    using inbox_db_wf by (simp_all add: inbox_world_def inbox_db_def)
  have uuid: "''u0'' = fresh_uuid quiet_env (uuids_drawn inbox_world)"
    by (simp add: inbox_world_def small_numbers)
  have names: "message_base 5 ''u0'' = ''5.u0''" "filename_base ''5.a:2,S'' = ''5.a''" by code_simp+
  have fresh: "filename_base x \<noteq> message_base 5 ''u0''"
    if "x \<in> set (dir_entries (files inbox_world) ([''mail'', ''Inbox''] @ [''cur'']))" for x
    using that by (simp add: dir_entries_def inbox_world_def names)
  have pick: "pick_primary_mailbox (se_mailbox_ids greeting) [(''j1'', inbox_row)] = Some inbox_row"
    by (simp add: pick_primary_mailbox_def greeting_def List.map_filter_simps)
  have "\<exists>row. get_email_by_jmap_id (db w') ''M2'' = Some row
    \<and> local_change_of quiet_env (files w') [''mail''] ''M2'' row = None
    \<and> (\<forall>locals stats. map_of locals ''M2'' = Some row \<longrightarrow>
         apply_email quiet_env small_client [''mail''] [(''j1'', inbox_row)] locals False greeting stats w' = (Inr stats, w'))"
    by (rule inserted_email_is_settled [OF run flags refl quiet_env_json wf _ dir _ uuid _ fresh _ pick])
       (simp_all add: inbox_row_def greeting_def)
  with run show ?thesis by blast
qed

section \<open>A whole pass\<close>

text \<open>
  C6: When a pass over the emails succeeds against a server that serves the identifiers of every
  synchronised mailbox, each email row that is left names an email that one of these mailboxes
  holds on the server: nothing that the server has dropped stays in the database.
\<close>

theorem pass_leaves_no_stale_rows:
  assumes "sync_emails v cl ms mail_root False = Some m" and "m w = (Inr stats, w')" and "ms \<noteq> []"
    and "\<And>mb. serves cl mb (ids_of mb) \<and> length (ids_of mb) < 2147483648"
    and "db_wf (db w)" and "fair_order v" and "e \<in> set (emails (db w'))" and "em_jmap_id e = Some j"
  shows "\<exists>b\<in>set ms. \<exists>mb. mb_jmap_id b = Some mb \<and> j \<in> set (ids_of mb)"
proof -
  let ?boxes = "iterate v 2 (mailboxes_by_jmap ms)"
  obtain ids where ids: "fetch_all_email_ids cl (hm_keys ?boxes) [] = Some (Inr ids)"
    "set ids = (\<Union>m\<in>set (hm_keys ?boxes). set (ids_of m))"
    using fetch_all_email_ids_serves [of "hm_keys ?boxes" cl ids_of "[]"] assms(4) by auto
  with assms(1,3) have "m = reconcile_emails v cl ?boxes mail_root False ids"
    by (simp add: sync_emails_def Let_def)
  with assms(2) have "reconcile_emails v cl ?boxes mail_root False ids w = (Inr stats, w')" by simp
  from reconcile_no_stale_rows [OF this assms(5,6)] assms(7,8) have "j \<in> set ids"
    by (auto simp: jmap_ids_in_def)
  with ids(2) obtain k where k: "k \<in> set (hm_keys ?boxes)" "j \<in> set (ids_of k)" by auto
  have "set (hm_keys ?boxes) = set (hm_keys (mailboxes_by_jmap ms))"
    using iterate_keys [OF assms(6), of 2 "mailboxes_by_jmap ms"] by (metis set_mset_mset)
  with k(1) have "\<exists>b\<in>set ms. mb_jmap_id b = Some k"
    unfolding mailboxes_by_jmap_def hm_keys_def dom_hm_collect by (force simp: in_map_filter)
  with k(2) show ?thesis by blast
qed

definition empty_box_world :: world where
  "empty_box_world = inbox_world\<lparr>db := no_mail_db\<rparr>"

lemma first_pass:
  obtains m w' stats where "sync_emails quiet_env small_client [inbox_row] [''mail''] False = Some m"
    "m empty_box_world = (Inr stats, w')" "map em_jmap_id (emails (db w')) = [Some ''M2'']"
proof -
  let ?boxes = "[(''j1'', inbox_row)]"
  let ?m = "reconcile_emails quiet_env small_client ?boxes [''mail''] False [''M2'']"
  have "mailboxes_by_jmap [inbox_row] = ?boxes"
    by (simp add: mailboxes_by_jmap_def inbox_row_def List.map_filter_simps hm_collect_def)
  moreover have "iterate quiet_env 2 ?boxes = ?boxes" by (rule iterate_quiet) (simp add: hm_wf_def)
  moreover have "page_query_ids small_client ''j1'' = Some (Inr [''M2''])"
    using page_query_ids_serves [OF small_client_serves [of "''j1''"]] by simp
  ultimately have m: "sync_emails quiet_env small_client [inbox_row] [''mail''] False = Some ?m"
    by (simp add: sync_emails_def hm_keys_def)
  have i3: "iterate quiet_env 3 (local_emails_by_jmap (db empty_box_world)) = []"
    using iterate_quiet [of "[] :: (string, email_row) hmap" 3]
    by (simp add: local_emails_by_jmap_def empty_box_world_def no_mail_db_def get_all_emails_def
        List.map_filter_simps hm_collect_def hm_wf_def)
  have flags: "keywords_to_flag_string (se_keywords greeting) = ''S''" "show_int 5 = ''5''"
    "chunks EMAIL_GET_CHUNK_SIZE [''M2''] = [[''M2'']]" by code_simp+
  have pick: "pick_primary_mailbox [''j1''] ?boxes = Some inbox_row"
    by (simp add: pick_primary_mailbox_def List.map_filter_simps)
  have get: "cl_email_get small_client [''M2''] = Inr [greeting]" "se_id greeting = Some ''M2''"
    "se_blob_id greeting = Some ''B2''" "se_received_at greeting = Some 5" "se_mailbox_ids greeting = [''j1'']"
    "cl_download small_client ''B2'' = Inr ''hi''"
    by (simp_all add: small_client_def greeting_def)
  have "\<exists>stats w'. ?m empty_box_world = (Inr stats, w') \<and> map em_jmap_id (emails (db w')) = [Some ''M2'']"
    by (simp add: reconcile_emails_def run_simps i3 detect_local_writeback_def List.map_filter_simps
        apply_writeback_def delete_pass_def flags hydrate_chunk_def get apply_email_def pick Let_def
        insert_email_def download_and_write_def insert_memberships_def small_numbers)
       (simp add: empty_box_world_def run_simps Let_def flags
        inbox_world_def small_numbers inbox_row_def inbox_db_def no_mail_db_def db_defs primary_known_def)
  then show thesis by (elim exE conjE) (rule that [OF m])
qed

theorem pass_leaves_no_stale_rows_witness:
  "\<exists>m w' stats e. sync_emails quiet_env small_client [inbox_row] [''mail''] False = Some m
     \<and> m empty_box_world = (Inr stats, w') \<and> emails (db w') = [e] \<and> em_jmap_id e = Some ''M2''
     \<and> (\<exists>b\<in>set [inbox_row]. \<exists>mb. mb_jmap_id b = Some mb \<and> ''M2'' \<in> set (if mb = ''j1'' then [''M2''] else []))"
proof -
  obtain m w' stats where run: "sync_emails quiet_env small_client [inbox_row] [''mail''] False = Some m"
    "m empty_box_world = (Inr stats, w')" and e: "map em_jmap_id (emails (db w')) = [Some ''M2'']"
    by (rule first_pass)
  from e obtain r where r: "emails (db w') = [r]" "em_jmap_id r = Some ''M2''" by auto
  have wf: "db_wf (db empty_box_world)"
    by (simp add: empty_box_world_def no_mail_db_def inbox_db_def db_wf_def inbox_row_def parent_known_def)
  have "\<exists>b\<in>set [inbox_row]. \<exists>mb. mb_jmap_id b = Some mb
      \<and> ''M2'' \<in> set (if mb = ''j1'' then [''M2''] else [])"
    by (rule pass_leaves_no_stale_rows [OF run _ _ wf quiet_env_fair _ r(2)])
       (simp, simp only: small_client_serves, simp_all add: r)
  with run r show ?thesis by blast
qed

section \<open>What a renamed mailbox does to its messages\<close>

lemma keeps_sent [keeps_rules]:
  "keeps (\<lambda>w. R \<in> set (set_requests w)) (sys_create_dir_all v p)"
  "keeps (\<lambda>w. R \<in> set (set_requests w)) (sys_write v p c)"
  "keeps (\<lambda>w. R \<in> set (set_requests w)) (sys_rename v p q)"
  "keeps (\<lambda>w. R \<in> set (set_requests w)) (sys_remove_file v p)"
  "keeps (\<lambda>w. R \<in> set (set_requests w)) (db_exec f)"
  "keeps (\<lambda>w. R \<in> set (set_requests w)) (generate_id v)"
  by (auto simp: keeps_def sys_create_dir_all_def sys_write_def sys_rename_def sys_remove_file_def
      sys_def db_exec_def generate_id_def split: option.splits sum.splits)

lemma destroys_are_sent:
  assumes "j \<in> set (sr_destroy (writeback_request v (iterate v 3 (local_emails_by_jmap (db w)))
      (detect_local_writeback v mail_root (iterate v 3 (local_emails_by_jmap (db w))) (files w))))"
    and run: "reconcile_emails v cl boxes mail_root False ids w = (r, w')"
  shows "\<exists>req\<in>set (set_requests w'). j \<in> set (sr_destroy req)"
proof -
  let ?locals = "iterate v 3 (local_emails_by_jmap (db w))"
  let ?cs = "detect_local_writeback v mail_root ?locals (files w)"
  let ?req = "writeback_request v ?locals ?cs"
  let ?P = "\<lambda>w. ?req \<in> set (set_requests w)"
  let ?s = "\<lparr>st_server_ids = ids, st_local = ?locals, st_stats = no_email_stats\<rparr>"
  define rest where "rest = (\<lambda>s. bindE (delete_pass v mail_root False s)
      (foldE (hydrate_chunk v cl mail_root boxes (st_local s) False)
        (chunks EMAIL_GET_CHUNK_SIZE (sort (st_server_ids s)))))"
  have ne: "?cs \<noteq> []" using assms(1) by (auto simp: in_request_destroy)
  have "reconcile_emails v cl boxes mail_root False ids w
      = bindE (apply_writeback v cl mail_root False ?cs ?s) rest w"
    by (simp add: reconcile_emails_def bindE_run db_query_def fs_query_def rest_def)
  also have "\<dots> = bindE (send_email_set cl ?req)
      (\<lambda>x. bindE (case x of (ds, us) \<Rightarrow> foldE (settle_change v mail_root ds us) ?cs ?s) rest) w"
    using ne by (simp add: apply_writeback_def bindE_assoc)
  finally have eq: "(r, w') = bindE (send_email_set cl ?req)
      (\<lambda>x. bindE (case x of (ds, us) \<Rightarrow> foldE (settle_change v mail_root ds us) ?cs ?s) rest) w"
    using run by simp
  have k: "keeps ?P (bindE (case x of (ds, us) \<Rightarrow> foldE (settle_change v mail_root ds us) ?cs ?s) rest)" for x
    unfolding rest_def email_step_defs Let_def by (intro keeps_rules)
  have "?P w'"
  proof (cases "cl_email_set cl ?req")
    case (Inl e)
    with eq show ?thesis by (simp add: bindE_run send_email_set_def)
  next
    case (Inr x)
    let ?w1 = "w\<lparr>set_requests := set_requests w @ [?req]\<rparr>"
    have "?P ?w1" by simp
    from keepsD [OF k [of x] this] eq Inr show ?thesis
      by (simp add: bindE_run send_email_set_def) (metis snd_conv)
  qed
  with assms(1) show ?thesis by blast
qed

text \<open>
  C36: Renaming or moving a mailbox on the server loses its mail. \<open>update_mailbox\<close> renames the
  directory and updates the mailbox row, but the rows of the emails below keep their old
  \<open>file_path\<close>; the pass over the emails that follows in the same run finds no file there and
  asks the server to destroy every one of them.
\<close>

theorem renamed_mailbox_destroys_its_mail:
  assumes "update_mailbox v mail_root False old new w = (Inr (), w1)"
    and "join_path mail_root (mb_path old) = a" and "join_path mail_root (mb_path new) = b"
    and "mb_path old \<noteq> mb_path new" and "a \<noteq> b" and "\<not> prefix b a" and "\<not> prefix a b"
    and "a \<noteq> []" and "map_of (files w) a = Some Dir"
    and "e \<in> set (emails (db w))" and "em_jmap_id e = Some j"
    and "prefix a (butlast (join_path mail_root (em_file_path e)))"
    and "db_wf (db w)" and "fair_order v"
    and "reconcile_emails v cl boxes mail_root False ids w1 = (r, w2)"
  shows "\<exists>req\<in>set (set_requests w2). j \<in> set (sr_destroy req)"
proof -
  let ?locals = "iterate v 3 (local_emails_by_jmap (db w1))"
  let ?dir = "butlast (join_path mail_root (em_file_path e))"
  note rn = update_mailbox_renames [OF assms(1-7,9,12)]
  have wf: "db_wf (db w1)"
  proof -
    have "keeps (\<lambda>w. db_wf (db w)) (update_mailbox v mail_root False old new)"
      unfolding update_mailbox_def rename_mailbox_dir_def create_maildir_def by (intro keeps_rules)
    from keepsD [OF this assms(13)] assms(1) show ?thesis by simp
  qed
  from rn(1) assms(10) have e1: "e \<in> set (emails (db w1))" by simp
  then have in_l: "(j, e) \<in> set ?locals"
    unfolding in_iterate [OF assms(14)] local_emails_get [OF wf] using assms(11) by simp
  have "?dir \<noteq> []" using assms(8,12) by auto
  from unreadable_is_destroy [OF this rn(2), of v j]
  have "local_change_of v (files w1) mail_root j e = Some (Destroy j None)" .
  then have "\<exists>a. local_change_of v (files w1) mail_root j e = Some (Destroy j a)" by (rule exI)
  then have "case resolve_current_file v (files w1) mail_root (em_file_path e) of
      None \<Rightarrow> True | Some (_, flags) \<Rightarrow> CHR ''T'' \<in> set flags"
    by (simp only: local_change_destroy)
  with in_l have "j \<in> set (sr_destroy (writeback_request v ?locals
      (detect_local_writeback v mail_root ?locals (files w1))))"
    unfolding writeback_destroys by (intro exI conjI)
  from destroys_are_sent [OF this assms(15)] show ?thesis .
qed

lemma inbox_rename:
  obtains w' where "update_mailbox quiet_env [''mail''] False inbox_row (inbox_row\<lparr>mb_path := ''In''\<rparr>) inbox_world
    = (Inr (), w')"
proof -
  have "\<exists>w'. update_mailbox quiet_env [''mail''] False inbox_row (inbox_row\<lparr>mb_path := ''In''\<rparr>) inbox_world
    = (Inr (), w')"
    by (simp add: update_mailbox_def rename_mailbox_dir_def run_simps inbox_world_def inbox_row_def
        inbox_db_def db_defs parent_known_def dir_entries_def Let_def)
  then show thesis using that by blast
qed

theorem renamed_mailbox_destroys_its_mail_witness:
  "\<exists>w1 r w2. update_mailbox quiet_env [''mail''] False inbox_row (inbox_row\<lparr>mb_path := ''In''\<rparr>) inbox_world
      = (Inr (), w1)
    \<and> reconcile_emails quiet_env small_client [] [''mail''] False [] w1 = (r, w2)
    \<and> (\<exists>req\<in>set (set_requests w2). ''M1'' \<in> set (sr_destroy req))"
proof -
  obtain w1 where run: "update_mailbox quiet_env [''mail''] False inbox_row (inbox_row\<lparr>mb_path := ''In''\<rparr>) inbox_world
    = (Inr (), w1)" by (rule inbox_rename)
  obtain r w2 where next_run: "reconcile_emails quiet_env small_client [] [''mail''] False [] w1 = (r, w2)"
    by (rule prod.exhaust)
  have paths: "join_path [''mail''] (mb_path inbox_row) = [''mail'', ''Inbox'']"
    "join_path [''mail''] (mb_path (inbox_row\<lparr>mb_path := ''In''\<rparr>)) = [''mail'', ''In'']"
    "join_path [''mail''] (em_file_path greeting_row) = [''mail'', ''Inbox'', ''cur'', ''5.a:2,S'']"
    by code_simp+
  have wf: "db_wf (db inbox_world)" using inbox_db_wf by (simp add: inbox_world_def)
  have "\<exists>req\<in>set (set_requests w2). ''M1'' \<in> set (sr_destroy req)"
    by (rule renamed_mailbox_destroys_its_mail [OF run paths(1,2) _ _ _ _ _ _ _ _ _ wf quiet_env_fair next_run,
          of greeting_row])
       (simp_all add: inbox_row_def inbox_world_def inbox_db_def greeting_row_def
          paths(3) [unfolded greeting_row_def, simplified] prefix_def)
  with run next_run show ?thesis by blast
qed

end
