(* ===== verification/Sync_Properties.thy ===== *)
theory Sync_Properties
  imports Email_Properties Mailbox_Properties
begin

text \<open>
  The properties of a whole synchronisation of one account: what a dry run leaves alone, and what
  every run keeps, whether it succeeds or fails.
\<close>

text \<open>
  C8: A dry run changes nothing: whatever the server answers and wherever the run ends, the
  database, the files and the server are as they were, and no hook is run.
\<close>

theorem dry_run_changes_nothing:
  assumes "sync_account v glob cl acct elapsed True w = Some (r, w')"
  shows "db w' = db w \<and> files w' = files w \<and> set_requests w' = set_requests w
    \<and> (\<forall>stats hook. r = Inr (stats, hook) \<longrightarrow> hook = None)"
proof -
  note sync_account_dry [OF assms]
  moreover have "hook = None" if "r = Inr (stats, hook)" for stats hook
    using assms that by (auto simp: sync_account_def split: option.splits prod.splits sum.splits)
  ultimately show ?thesis by blast
qed

lemma iterate_quiet_Nil: "iterate quiet_env n [] = []"
  by (rule iterate_quiet) (simp add: hm_wf_def)

lemma quiet_pass:
  assumes "mail a = Some cfg" and "box_filter cfg = None" and "db w = empty_database True"
  shows "\<exists>s. sync_account quiet_env no_globs small_client a 5 dry w = Some (Inr s, w)"
proof -
  have "build_target_set no_globs [] cfg = Inr []"
    using assms(2) by (simp add: build_target_set_def)
  moreover have "topo_sort_creates_and_updates [] [] = []" by code_simp
  ultimately show ?thesis using assms(1,3)
    by (simp add: sync_account_def sync_mailboxes_def run_simps small_client_def
        iterate_quiet_Nil empty_database_def no_local_mailboxes apply_diff_def mailboxes_to_delete_def
        cleanup_orphaned_emails_def orphaned_emails_def get_all_mailboxes_def sync_emails_def)
qed

lemma quiet_run:
  "db w = empty_database True \<Longrightarrow>
   \<exists>s. sync_account quiet_env no_globs small_client tree_account 5 dry w = Some (Inr s, w)"
  by (rule quiet_pass [of _ tree_config]) (simp_all add: tree_account_def tree_config_def)

lemma empty_view_run:
  "\<exists>r. sync_account quiet_env no_globs small_client tree_account 5 dry fresh_world = Some (r, fresh_world)"
  using quiet_run [of fresh_world dry] by (auto simp: fresh_world_def)

theorem dry_run_changes_nothing_witness:
  "\<exists>r. sync_account quiet_env no_globs small_client tree_account 5 True fresh_world = Some (r, fresh_world)
    \<and> (case r of Inl _ \<Rightarrow> True | Inr (_, hook) \<Rightarrow> hook = None)"
proof -
  obtain r where run: "sync_account quiet_env no_globs small_client tree_account 5 True fresh_world
      = Some (r, fresh_world)" using empty_view_run by blast
  from dry_run_changes_nothing [OF run] run show ?thesis by (cases r) auto
qed



end
