(* ===== verification/Retry_Properties.thy ===== *)
theory Retry_Properties
  imports Retry_Schedule
begin

text \<open>
  The properties of the daemon's timing: the backoff of the connection loop, the notifications,
  the retry queue of the submit loop and the delay before a retry.
\<close>

text \<open>
  The delays after failures in a row double from the current one up to the cap, and a reset
  goes back to the base: the \<open>k\<close>-th delay is the smaller of \<open>next * 2 ^ k\<close> and the cap, so no
  delay exceeds the cap, and the saturation of \<open>Duration\<close> never shows.
\<close>

lemma backoff_doubles_up_to_cap:
  assumes "rb_next b \<le> rb_cap b" and "rb_cap b \<le> duration_max"
  shows "fst (take_delays n b) = map (\<lambda>k. min (rb_next b * 2 ^ k) (rb_cap b)) [0..<n]
    \<and> fst (take_delay (reset_backoff (snd (take_delays n b)))) = rb_base b"
  using take_delays_next [OF assms, of n] by (simp add: reset_backoff_def take_delay_def)

lemma backoff_doubles_up_to_cap_witness:
  "fst (take_delays 4 (new_backoff (secs 5) (secs 30))) = [secs 5, secs 10, secs 20, secs 30]"
proof -
  have "[0..<4] = [0, 1, 2, 3 :: nat]" by code_simp
  then show ?thesis
    using backoff_doubles_up_to_cap [of "new_backoff (secs 5) (secs 30)" 4]
    by (simp add: new_backoff_def secs_def duration_max_def)
qed

text \<open>
  The notifier reports each change of the outcome once and nothing else: over a history of
  attempts it sends exactly one notice for each edge, so "Down" and "Up" alternate, beginning
  with "Down" on a notifier that has reported no failure.
\<close>

lemma notices_alternate:
  "map fst (fst (report hs n)) = edges (fn_failed n) hs
   \<and> alternating (if fn_failed n then Up else Down) (map fst (fst (report hs n)))"
  using report_edges [of hs n] edges_alternate [of "fn_failed n" hs] by simp

text \<open>
  C12: The retry queue, a tree of due times with sets of names and an index from names to due
  times, implements a map from names to due times: scheduling sets one entry, moving it if there
  was one, removal drops it, and draining at a time returns each name that is due by then, once,
  and keeps the rest.
\<close>

theorem retry_queue_implements_map:
  assumes "sched_ok q"
  shows "due_of (schedule_at b w q) = (due_of q)(b \<mapsto> w) \<and> sched_ok (schedule_at b w q)
    \<and> due_of (remove_scheduled b q) = (due_of q)(b := None) \<and> sched_ok (remove_scheduled b q)
    \<and> distinct (fst (drain_due now q))
    \<and> set (fst (drain_due now q)) = {b. \<exists>w\<le>now. due_of q b = Some w}
    \<and> due_of (snd (drain_due now q))
        = (\<lambda>b. case due_of q b of Some w \<Rightarrow> if w \<le> now then None else Some w | None \<Rightarrow> None)
    \<and> sched_ok (snd (drain_due now q))"
  using assms retry_queue.put_due retry_queue.put_ok retry_queue.cancel_due retry_queue.cancel_ok
    retry_queue.drained retry_queue.drained_once retry_queue.drain_due retry_queue.drain_ok
  by (simp add: set_eq_iff fun_eq_iff)

definition two_timers :: retry_schedule where
  "two_timers = schedule_at ''b'' 9 (schedule_at ''a'' 3 (schedule_at ''a'' 5 new_schedule))"

lemma two_timers_ok: "sched_ok two_timers"
  unfolding two_timers_def by (intro retry_queue.put_ok new_schedule_ok)

lemma two_timers_due: "due_of two_timers = [''a'' \<mapsto> 3, ''b'' \<mapsto> 9]"
  unfolding two_timers_def
  by (simp add: retry_queue.put_due retry_queue.put_ok)
     (simp add: due_of_def new_schedule_def fun_eq_iff)

theorem retry_queue_implements_map_witness:
  "set (fst (drain_due 4 two_timers)) = {''a''}"
  using retry_queue_implements_map [OF two_timers_ok, of "''c''" 1 4]
  by (auto simp: two_timers_due split: if_splits)

text \<open>
  The wait of the submit loop neither oversleeps nor spins: it resolves exactly when a name
  is scheduled, not before the current time and not after the first due time, and draining at
  the time it resolves returns at least one name.
\<close>

lemma wait_wakes_for_due_name:
  assumes "sched_ok q"
  shows "(case wait_next now q of
      None \<Rightarrow> \<forall>b. due_of q b = None
    | Some t \<Rightarrow> now \<le> t \<and> fst (drain_due t q) \<noteq> []
        \<and> (\<forall>b w. due_of q b = Some w \<longrightarrow> t \<le> max w now))"
proof (cases "wait_next now q")
  case None
  with retry_queue.asleep_iff_empty [OF assms] show ?thesis by simp
next
  case (Some t)
  have "t \<le> max w now" if "due_of q b = Some w" for b w
    using retry_queue.wake_first [OF assms that, of now] Some by auto
  with Some retry_queue.wake_drains [OF assms Some] retry_queue.wake_due [OF assms Some]
  show ?thesis by auto
qed

lemma wait_wakes_for_due_name_witness:
  "wait_next 1 two_timers = Some 3 \<and> fst (drain_due 3 two_timers) \<noteq> []"
proof -
  have "wait_next 1 two_timers = Some 3" by code_simp
  with wait_wakes_for_due_name [OF two_timers_ok, of 1] show ?thesis by simp
qed




end
