(* ===== verification/Jmapqueue.thy ===== *)
theory Jmapqueue
  imports Outbox_Facts
begin

text \<open>
  \<open>bin/jmapqueue.rs\<close>, the sendmail replacement: it routes a message to an account, takes the
  scheduling header out, spools the message into the Outbox and writes its sidecar.
  \<open>mailparse\<close> is the parameter \<open>parse_headers\<close>, which gives the names and values of the headers.
\<close>

section \<open>Headers\<close>

definition find_char :: "char \<Rightarrow> string \<Rightarrow> nat option" where
  "find_char c s = (if c \<in> set s then Some (length (takeWhile (\<lambda>x. x \<noteq> c) s)) else None)"

definition rfind_char :: "char \<Rightarrow> string \<Rightarrow> nat option" where
  "rfind_char c s =
     (if c \<in> set s then Some (length s - 1 - length (takeWhile (\<lambda>x. x \<noteq> c) (rev s))) else None)"

definition bare_address :: "string \<Rightarrow> string" where
  "bare_address header_value =
     (case (find_char CHR ''<'' header_value, rfind_char CHR ''>'' header_value) of
        (Some lt, Some gt) \<Rightarrow>
          if lt < gt then trim (take (gt - (lt + 1)) (drop (lt + 1) header_value))
          else trim header_value
      | _ \<Rightarrow> trim header_value)"

definition extract_headers ::
    "(string \<Rightarrow> err + (string \<times> string) list) \<Rightarrow> string \<Rightarrow> err + string option \<times> string option" where
  "extract_headers parse_headers raw =
     rbind (parse_headers raw) (\<lambda>headers.
       Inr (map_option (\<lambda>h. bare_address (snd h))
              (find (\<lambda>h. eq_ignore_ascii_case (fst h) ''from'') headers),
            map_option (\<lambda>h. trim (snd h))
              (find (\<lambda>h. eq_ignore_ascii_case (fst h) ''x-jmap-send-at'') headers)))"

definition split_at_blank_line :: "string \<Rightarrow> string \<times> string" where
  "split_at_blank_line raw =
     (case find_subseq raw (CRLF @ CRLF) of
        Some pos \<Rightarrow> (take pos raw, drop pos raw)
      | None \<Rightarrow> (case find_subseq raw [LF, LF] of
          Some pos \<Rightarrow> (take pos raw, drop pos raw)
        | None \<Rightarrow> (raw, [])))"

definition line_starts_with_header :: "string \<Rightarrow> string \<Rightarrow> bool" where
  "line_starts_with_header line name_lc =
     (case find_char CHR '':'' line of
        None \<Rightarrow> False
      | Some colon \<Rightarrow> map ascii_lower (take colon line) = name_lc)"

fun strip_header_lines :: "string \<Rightarrow> bool \<Rightarrow> string list \<Rightarrow> string" where
  "strip_header_lines name_lc skip [] = []"
| "strip_header_lines name_lc skip (line # lines) =
     (if starts_with_folded_continuation line
      then (if skip then [] else line) @ strip_header_lines name_lc skip lines
      else if line_starts_with_header line name_lc then strip_header_lines name_lc True lines
      else line @ strip_header_lines name_lc False lines)"

definition strip_header_case_insensitive :: "string \<Rightarrow> string \<Rightarrow> string" where
  "strip_header_case_insensitive raw name_lc =
     (let (headers, body) = split_at_blank_line raw
      in strip_header_lines name_lc False (physical_lines headers) @ body)"

section \<open>Routing and scheduling\<close>

definition pick_account :: "config \<Rightarrow> string option \<Rightarrow> string \<Rightarrow> err + account" where
  "pick_account cfg explicit_name sender =
     (case explicit_name of
        Some name \<Rightarrow> need ''account not found in config'' (find (\<lambda>a. acct_name a = name) (accounts cfg))
      | None \<Rightarrow> need ''no account whose from_address matches''
          (find (\<lambda>a. case submit a of
              Some s \<Rightarrow> eq_ignore_ascii_case (from_address s) sender | None \<Rightarrow> False) (accounts cfg)))"

definition normalize_send_at :: "(string \<Rightarrow> string + int) \<Rightarrow> string \<Rightarrow> err + string option" where
  "normalize_send_at parse v =
     (let trimmed = trim v in
      if trimmed = [] \<or> eq_ignore_ascii_case trimmed ''send-now'' then Inr None
      else (case parse trimmed of
              Inl e \<Rightarrow> Inl (Refused ''invalid send-at value'')
            | Inr _ \<Rightarrow> Inr (Some trimmed)))"

text \<open>The flag of the command line comes before the header.\<close>

definition choose_send_at ::
    "(string \<Rightarrow> string + int) \<Rightarrow> string option \<Rightarrow> string option \<Rightarrow> err + string option" where
  "choose_send_at parse flag header =
     (case flag of
        Some cli \<Rightarrow> normalize_send_at parse cli
      | None \<Rightarrow> (case header of Some hdr \<Rightarrow> normalize_send_at parse hdr | None \<Rightarrow> Inr None))"

section \<open>Spooling\<close>

record queue_args =
  qa_from :: "string option"
  qa_send_at :: "string option"
  qa_account :: "string option"
  qa_recipients :: "string list"

record queue_env =
  qe_parse_headers :: "string \<Rightarrow> err + (string \<times> string) list"
  qe_parse_rfc3339 :: "string \<Rightarrow> string + int"
  qe_print :: "sidecar_state \<Rightarrow> string"
  qe_state_dir :: "path option"
  qe_epoch :: nat
  qe_pid :: nat
  qe_ulid :: string
  qe_host :: string
  qe_iso_now :: string

definition maildir_filename :: "queue_env \<Rightarrow> string" where
  "maildir_filename qe =
     show_nat (qe_epoch qe) @ ''.jmq'' @ show_nat (qe_pid qe) @ ''_'' @ qe_ulid qe @ ''.'' @ qe_host qe"

definition create_outbox :: "env \<Rightarrow> path \<Rightarrow> (world, unit) io" where
  "create_outbox v dir = foldE (\<lambda>sub _. sys_create_dir_all v (dir @ [sub])) [''tmp'', ''new'', ''cur''] ()"

definition atomic_write_new :: "env \<Rightarrow> path \<Rightarrow> string \<Rightarrow> string \<Rightarrow> (world, unit) io" where
  "atomic_write_new v outbox filename bytes =
     bindE (sys_write v (outbox @ [''tmp'', filename]) bytes) (\<lambda>_.
       sys_rename v (outbox @ [''tmp'', filename]) (outbox @ [''new'', filename]))"

definition state_dir_for :: "queue_env \<Rightarrow> string \<Rightarrow> err + path" where
  "state_dir_for qe acct =
     (case qe_state_dir qe of
        None \<Rightarrow> Inl (NoPlatformDir ''state'')
      | Some base \<Rightarrow> Inr (join_path (base @ [''jmapsyncd'']) acct @ [''outbox-meta'']))"

text \<open>What the arguments, the message and the configuration determine before anything is written.\<close>

record queue_job =
  qj_outbox :: path
  qj_account :: string
  qj_outbound :: string
  qj_sidecar :: sidecar_state

definition plan_job :: "queue_env \<Rightarrow> queue_args \<Rightarrow> string \<Rightarrow> err + config \<Rightarrow> err + queue_job" where
  "plan_job qe args raw loaded =
     (if qa_recipients args = [] then Inl (Refused ''no recipient(s) on the command line'')
      else if raw = [] then Inl (Refused ''empty message on stdin'')
      else rbind loaded (\<lambda>cfg.
           rbind (extract_headers (qe_parse_headers qe) raw) (\<lambda>(header_from, send_at_header).
           rbind (need ''no From: header'' (case qa_from args of Some f \<Rightarrow> Some f | None \<Rightarrow> header_from)) (\<lambda>sender.
           rbind (pick_account cfg (qa_account args) sender) (\<lambda>acct.
           rbind (need ''no [accounts.submit] block'' (submit acct)) (\<lambda>_.
           rbind (need ''no [accounts.mail] block'' (mail acct)) (\<lambda>mail_cfg.
           rbind (choose_send_at (qe_parse_rfc3339 qe) (qa_send_at args) send_at_header) (\<lambda>send_at.
             Inr \<lparr>qj_outbox = join_path [] (mail_path mail_cfg) @ [''Outbox''],
                  qj_account = acct_name acct,
                  qj_outbound = strip_header_case_insensitive raw ''x-jmap-send-at'',
                  qj_sidecar = \<lparr>sd_envelope = \<lparr>env_from = sender, env_to = qa_recipients args\<rparr>,
                    sd_send_at = send_at, sd_submitted_at = qe_iso_now qe, sd_account = acct_name acct,
                    sd_retry = Some \<lparr>rt_attempts = 0, rt_next_at = None, rt_last_error = None\<rparr>,
                    sd_in_flight = None\<rparr>\<rparr>))))))))"

definition spool_message :: "env \<Rightarrow> queue_env \<Rightarrow> queue_job \<Rightarrow> (world, unit) io" where
  "spool_message v qe job =
     bindE (create_outbox v (qj_outbox job)) (\<lambda>_.
       atomic_write_new v (qj_outbox job) (maildir_filename qe) (qj_outbound job))"

definition write_sidecar :: "env \<Rightarrow> queue_env \<Rightarrow> queue_job \<Rightarrow> (world, unit) io" where
  "write_sidecar v qe job =
     bindE (liftE (state_dir_for qe (qj_account job))) (\<lambda>dir.
     bindE (sys_create_dir_all v dir) (\<lambda>_.
       sys_write v (sidecar_path dir (maildir_filename qe)) (qe_print qe (qj_sidecar job))))"

definition run_jmapqueue ::
    "env \<Rightarrow> queue_env \<Rightarrow> queue_args \<Rightarrow> string \<Rightarrow> err + config \<Rightarrow> (world, unit) io" where
  "run_jmapqueue v qe args raw loaded =
     bindE (liftE (plan_job qe args raw loaded)) (\<lambda>job.
     bindE (spool_message v qe job) (\<lambda>_. write_sidecar v qe job))"

text \<open>The exit code; the error goes to the standard error stream.\<close>

definition jmapqueue_main ::
    "env \<Rightarrow> queue_env \<Rightarrow> queue_args \<Rightarrow> string \<Rightarrow> err + config \<Rightarrow> world \<Rightarrow> nat \<times> world" where
  "jmapqueue_main v qe args raw loaded w =
     (case run_jmapqueue v qe args raw loaded w of (r, w') \<Rightarrow> (case r of Inr _ \<Rightarrow> 0 | Inl _ \<Rightarrow> 1, w'))"

section \<open>What is spooled\<close>

lemma normalize_send_at_valid:
  "normalize_send_at parse v = Inr (Some s) \<Longrightarrow> \<exists>t. parse s = Inr t"
  by (auto simp: normalize_send_at_def Let_def split: if_splits sum.splits)

lemma choose_send_at_valid: "choose_send_at parse flag header = Inr (Some s) \<Longrightarrow> \<exists>t. parse s = Inr t"
  by (auto simp: choose_send_at_def normalize_send_at_valid split: option.splits)

lemma plan_job_sidecar:
  assumes "plan_job qe args raw loaded = Inr job"
  shows "qj_outbound job = strip_header_case_insensitive raw ''x-jmap-send-at''"
    and "env_to (sd_envelope (qj_sidecar job)) = qa_recipients args" "qa_recipients args \<noteq> []"
    and "sd_send_at (qj_sidecar job) = Some s \<Longrightarrow> \<exists>t. qe_parse_rfc3339 qe s = Inr t"
  using assms
  by (auto simp: plan_job_def rbind_eq_Inr split: if_splits intro: choose_send_at_valid)

lemma atomic_write_holds:
  assumes "atomic_write_new v outbox name bytes w = (Inr u, w')"
  shows "holds (outbox @ [''new'', name]) bytes (files w')"
proof -
  from assms obtain f g where f: "write_file (files w) (outbox @ [''tmp'', name]) bytes = Some f"
    and g: "rename f (outbox @ [''tmp'', name]) (outbox @ [''new'', name]) = Some g" "files w' = g"
    by (auto simp: atomic_write_new_def bindE_eq_Inr sys_write_def sys_rename_def sys_Inr)
  have "map_of f (outbox @ [''tmp'', name]) = Some (File bytes)" by (simp add: map_of_write_file [OF f])
  from map_of_rename_file [OF g(1) this] g(2) show ?thesis by (simp add: holds_def)
qed

lemma run_jmapqueue_spools:
  assumes run: "run_jmapqueue v qe args raw loaded w = (Inr u, w')"
    and dir: "state_dir_for qe acct = Inr dir" and job: "plan_job qe args raw loaded = Inr job"
      "qj_account job = acct" and apart: "\<not> prefix dir (qj_outbox job @ [''new'', maildir_filename qe])"
  shows "holds (qj_outbox job @ [''new'', maildir_filename qe])
      (strip_header_case_insensitive raw ''x-jmap-send-at'') (files w')
    \<and> holds (sidecar_path dir (maildir_filename qe)) (qe_print qe (qj_sidecar job)) (files w')"
proof -
  let ?msg = "qj_outbox job @ [''new'', maildir_filename qe]" and ?sp = "sidecar_path dir (maildir_filename qe)"
  from run job obtain u1 w1 where sp: "spool_message v qe job w = (Inr u1, w1)"
    and sc: "write_sidecar v qe job w1 = (Inr u, w')"
    by (auto simp: run_jmapqueue_def bindE_eq_Inr)
  from sp have m1: "holds ?msg (qj_outbound job) (files w1)"
    by (auto simp: spool_message_def bindE_eq_Inr intro: atomic_write_holds)
  from sc dir job(2) obtain w2 where mk: "sys_create_dir_all v dir w1 = (Inr (), w2)"
    and wr: "sys_write v ?sp (qe_print qe (qj_sidecar job)) w2 = (Inr u, w')"
    by (auto simp: write_sidecar_def bindE_eq_Inr)
  have m2: "holds ?msg (qj_outbound job) (files w2)"
    using keepsD [OF keeps_holds(1) m1] mk by (metis snd_conv)
  have "?sp \<noteq> ?msg" using apart sidecar_under(1) by metis
  from keepsD [OF keeps_holds(2) [OF this] m2] wr have "holds ?msg (qj_outbound job) (files w')" by (metis snd_conv)
  moreover from wr obtain g where "write_file (files w2) ?sp (qe_print qe (qj_sidecar job)) = Some g" "files w' = g"
    by (auto simp: sys_write_def sys_Inr)
  ultimately show ?thesis using plan_job_sidecar(1) [OF job(1)] by (simp add: holds_def map_of_write_file)
qed

lemma spool_leaves_sidecar:
  assumes "spool_message v qe job w = (Inr u, w')"
    and "sidecar_blank cd dir (maildir_filename qe) (files w)"
    and "\<not> prefix (qj_outbox job) (sidecar_path dir (maildir_filename qe))"
  shows "sidecar_blank cd dir (maildir_filename qe) (files w')"
proof -
  let ?sp = "sidecar_path dir (maildir_filename qe)"
  have mk: "keeps (\<lambda>w. sidecar_blank cd dir (maildir_filename qe) (files w)) (sys_create_dir_all v d)" for d
    unfolding sys_create_dir_all_def
    by (rule keeps_sys_files) (auto simp: sidecar_blank_def read_file_def map_of_create_dir_all split: option.splits)
  have "keeps (\<lambda>w. sidecar_blank cd dir (maildir_filename qe) (files w)) (create_outbox v (qj_outbox job))"
    unfolding create_outbox_def by (intro keeps_foldE mk)
  moreover have "keeps (\<lambda>w. sidecar_blank cd dir (maildir_filename qe) (files w))
      (atomic_write_new v (qj_outbox job) (maildir_filename qe) (qj_outbound job))"
    unfolding atomic_write_new_def
    by (rule keeps_blank) (use assms(3) in \<open>metis prefixI\<close>)+
  ultimately have "keeps (\<lambda>w. sidecar_blank cd dir (maildir_filename qe) (files w)) (spool_message v qe job)"
    unfolding spool_message_def by (intro keeps_bindE)
  from keepsD [OF this assms(2)] assms(1) show ?thesis by simp
qed

end
