(* ===== verification/Delivery_Properties.thy ===== *)
theory Delivery_Properties
  imports Samples Jmapqueue
begin

text \<open>
  The properties of delivery: the diagnostic headers, the classification of failures, what is
  sent and what a success means, and what happens to a message in the Outbox.
\<close>

section \<open>A small submission server\<close>

fun small_answers :: "jmap_request \<Rightarrow> jmap_error + method_response list" where
  "small_answers (ImportSubmit a b d s) = Inr [MrImportEmail [] [''i0''], MrSetEmailSubmission None True]"
| "small_answers (ReconcileFetch a e) = Inr [MrGetEmail [[''drafts'']], MrQueryEmailSubmission []]"
| "small_answers (ReconcileSet ds s) = Inr [MrSetEmailSubmission None True]"
| "small_answers (Upload a m) = Inr []"

definition small_server :: submit_server where
  "small_server = \<lparr>srv_upload = (\<lambda>_ _. Inr ''blob''), srv_send = small_answers,
     parse_rfc3339 = (\<lambda>s. if s = ''later'' then Inr 9 else Inl ''bad''),
     print_rfc3339 = (\<lambda>_. ''9''), dbg = (\<lambda>s. s), show_err = (\<lambda>_. ''error'')\<rparr>"

definition small_context :: submit_context where
  "small_context = \<lparr>sc_account_id = ''A'', sc_identity_id = ''I'', sc_drafts_id = ''drafts'',
     sc_sent_id = ''sent'', sc_scheduled = None\<rparr>"

definition small_sidecar :: sidecar_state where
  "small_sidecar = default_sidecar\<lparr>sd_envelope := \<lparr>env_from = ''me@x'', env_to = [''you@y'']\<rparr>\<rparr>"

definition small_log :: "jmap_request list" where
  "small_log = [Upload ''A'' ''hi'', ImportSubmit ''A'' ''blob'' ''drafts''
     \<lparr>sub_email_id = ''#i0'', sub_identity_id = ''I'', sub_mail_from = (''me@x'', None),
      sub_rcpt_to = [''you@y''], sub_send_at = None, sub_unfile = ''drafts'', sub_file = ''sent''\<rparr>]"

lemma small_envelope: "envelope_validation_error (sd_envelope small_sidecar) = None"
proof -
  have "trim ''me@x'' \<noteq> []" "trim ''you@y'' \<noteq> []"
    by (simp_all add: trim_empty_iff is_whitespace_def)
  then show ?thesis
    by (simp add: envelope_validation_error_def small_sidecar_def default_sidecar_def)
qed

lemma small_submit: "submit_one small_server small_context ''hi'' small_sidecar = (Success, small_log)"
proof -
  have "parse_send_at small_server small_sidecar = Inr None"
    by (simp add: parse_send_at_def small_sidecar_def default_sidecar_def)
  moreover have "check_submitted small_server None [MrImportEmail [] [''i0''], MrSetEmailSubmission None True]
      = Inr None" by simp
  moreover have "build_submission small_server small_context small_sidecar ''#i0'' None =
     \<lparr>sub_email_id = ''#i0'', sub_identity_id = ''I'', sub_mail_from = (''me@x'', None),
      sub_rcpt_to = [''you@y''], sub_send_at = None, sub_unfile = ''drafts'', sub_file = ''sent''\<rparr>"
    by (simp add: build_submission_def build_mail_from_def file_target_id_def small_context_def
        small_sidecar_def default_sidecar_def)
  moreover have "srv_upload small_server = (\<lambda>_ _. Inr ''blob'')" "srv_send small_server = small_answers"
    "sc_account_id small_context = ''A''" "sc_drafts_id small_context = ''drafts''"
    by (simp_all add: small_server_def small_context_def)
  ultimately show ?thesis
    using small_envelope by (simp add: submit_one_def small_log_def Let_def)
qed

lemma reconcile_facts_not_success: "reconcile_facts mb pend rs \<noteq> Inl Success"
  by (induction mb pend rs rule: reconcile_facts.induct) (auto simp: method_not_success)

lemma check_submitted_not_success: "check_submitted srv ex rs \<noteq> Inl Success"
  by (induction srv ex rs rule: check_submitted.induct)
     (auto simp: method_not_success split: option.splits)

section \<open>Headers\<close>

text \<open>
  C27: Taking out the diagnostic headers undoes putting them in: a message that failed and is
  dragged back is stripped to what it was, up to such headers that it had before, and a message
  without them is left alone, body and other headers byte for byte. (The time stamp and the
  identifier hold no line break, and the message begins with a header line.)
\<close>

theorem strip_undoes_inject:
  assumes "plain_line now" and "plain_line ulid"
    and "opens_line b" and "\<not> starts_with_folded_continuation b"
  shows "strip_family2_headers (inject_family2_headers now b reason ulid) = strip_family2_headers b
    \<and> ((\<forall>l\<in>set (physical_lines (fst (split_header_body b))). \<not> is_family2_header_line l) \<longrightarrow>
        strip_family2_headers (inject_family2_headers now b reason ulid) = b)"
  using strip_inject [OF assms] strip_other_headers [of b] by auto

theorem strip_undoes_inject_witness:
  "strip_family2_headers (inject_family2_headers ''now'' (''To: x'' @ CRLF @ CRLF @ ''hi'') ''a'' ''u'')
    = ''To: x'' @ CRLF @ CRLF @ ''hi''"
proof -
  let ?b = "''To: x'' @ CRLF @ CRLF @ ''hi''"
  have p: "plain_line ''now''" "plain_line ''u''" "opens_line ?b" "\<not> starts_with_folded_continuation ?b"
    by (simp_all add: plain_line_def opens_line_def starts_with_folded_continuation_def)
  have "list_all (\<lambda>l. \<not> is_family2_header_line l) (physical_lines (fst (split_header_body ?b)))"
    by code_simp
  with strip_undoes_inject [OF p, of "''a''"] show ?thesis unfolding list_all_iff by blast
qed

section \<open>One attempt\<close>

text \<open>
  No failure is taken for a success, and a failure is retried exactly when it is a transport
  error that is not an HTTP client error other than 429, a problem report with status 408, 429 or
  at least 500, a method error of an unavailable or failing server, or an error in the
  conversation itself; a set error and a problem report without status are final.
\<close>

lemma failures_are_classified:
  "from_jmap_error d e \<noteq> Success
   \<and> (retried (from_jmap_error d e) \<longleftrightarrow>
       (case e of
          Transport st _ \<Rightarrow> (case st of None \<Rightarrow> True | Some s \<Rightarrow> s = 429 \<or> s < 400 \<or> 500 \<le> s)
        | Problem st _ \<Rightarrow> (case st of None \<Rightarrow> False | Some s \<Rightarrow> s \<in> {408, 429} \<or> 500 \<le> s)
        | Method me \<Rightarrow> me_type me \<in> {ServerUnavailable, ServerFail, ServerPartialFail}
        | SetFailed _ \<Rightarrow> False
        | _ \<Rightarrow> True))"
  using jmap_error_not_success [of d e]
  by (cases e) (auto simp: retried_method Let_def split: option.splits)

text \<open>
  C28: Every submission that an attempt puts on the wire is the sidecar's envelope: its sender, all
  its recipients in order, the configured identity, and a send time exactly when the sidecar has
  one. Nothing is sent for an envelope without sender or without any recipient.
\<close>

theorem submissions_carry_envelope:
  assumes "submit_one srv ctx msg sidecar = (out, sent)" and "s \<in> set (submissions sent)"
  shows "sub_rcpt_to s = env_to (sd_envelope sidecar)
    \<and> fst (sub_mail_from s) = env_from (sd_envelope sidecar) \<and> sub_identity_id s = sc_identity_id ctx
    \<and> (sub_send_at s = None \<longleftrightarrow> sd_send_at sidecar = None)
    \<and> trim (env_from (sd_envelope sidecar)) \<noteq> []
    \<and> (\<exists>r\<in>set (env_to (sd_envelope sidecar)). trim r \<noteq> [])"
proof -
  obtain email_id send_at where s: "s = build_submission srv ctx sidecar email_id send_at"
    and at: "parse_send_at srv sidecar = Inr send_at"
    and ok: "envelope_validation_error (sd_envelope sidecar) = None"
    by (rule submissions_built [OF assms])
  from ok have "trim (env_from (sd_envelope sidecar)) \<noteq> []"
    "\<exists>r\<in>set (env_to (sd_envelope sidecar)). trim r \<noteq> []"
    by (auto simp: envelope_validation_error_def list_all_iff split: if_splits)
  with parse_send_at_None [OF at] show ?thesis
    by (simp add: s build_submission_def build_mail_from_def)
qed

theorem submissions_carry_envelope_witness:
  "\<exists>s. submissions small_log = [s] \<and> sub_rcpt_to s = [''you@y'']"
proof -
  have log: "\<exists>s. submissions small_log = [s]"
    by (simp add: small_log_def List.map_filter_simps)
  then obtain s where s: "submissions small_log = [s]" ..
  have to: "env_to (sd_envelope small_sidecar) = [''you@y'']"
    by (simp add: small_sidecar_def default_sidecar_def)
  from submissions_carry_envelope [OF small_submit, of s] s show ?thesis
    unfolding to by simp
qed

text \<open>
  C10: A success is confirmed by the server. Either every answer to the import-and-submit request
  confirms it, or the server reported the message as existing, and the reconciliation found it in
  the Sent mailbox or got a confirmed submission of its own. (An empty list of answers counts as
  confirming.)
\<close>

theorem success_is_confirmed:
  assumes "submit_one srv ctx msg sidecar = (Success, sent)"
  shows "\<exists>blob send_at rs. srv_send srv (ImportSubmit (sc_account_id ctx) blob (sc_drafts_id ctx)
        (build_submission srv ctx sidecar ''#i0'' send_at)) = Inr rs
    \<and> (list_all confirming rs \<or> (\<exists>existing answers mb pend.
          check_submitted srv None rs = Inr (Some existing)
          \<and> srv_send srv (ReconcileFetch (sc_account_id ctx) existing) = Inr answers
          \<and> reconcile_facts [] [] answers = Inr (mb, pend)
          \<and> (sc_sent_id ctx \<in> set mb \<or> (\<exists>ds rs'.
                srv_send srv (ReconcileSet ds (build_submission srv ctx sidecar existing send_at)) = Inr rs'
                \<and> list_all reconciled_ok rs'))))"
proof -
  have rec: "\<exists>answers mb pend. srv_send srv (ReconcileFetch (sc_account_id ctx) existing) = Inr answers
      \<and> reconcile_facts [] [] answers = Inr (mb, pend)
      \<and> (sc_sent_id ctx \<in> set mb \<or> (\<exists>ds rs'.
            srv_send srv (ReconcileSet ds (build_submission srv ctx sidecar existing send_at)) = Inr rs'
            \<and> list_all reconciled_ok rs'))"
    if "reconcile_after_import srv ctx sidecar existing send_at = (Success, l)" for existing send_at l
    using that
    by (auto simp: reconcile_after_import_def execute_reconciled_submission_def reconcile_action_def Let_def
        jmap_error_not_success check_reconciled_success reconcile_facts_not_success
        split: sum.splits prod.splits if_splits reconcile_action.splits)
  from assms show ?thesis
    by (auto simp: submit_one_def parse_send_at_def Let_def jmap_error_not_success
          check_submitted_confirms check_submitted_not_success
        split: option.splits sum.splits prod.splits dest!: rec) blast+
qed

theorem success_is_confirmed_witness:
  "\<exists>blob send_at. srv_send small_server (ImportSubmit ''A'' blob ''drafts''
      (build_submission small_server small_context small_sidecar ''#i0'' send_at))
    = Inr [MrImportEmail [] [''i0''], MrSetEmailSubmission None True]
    \<and> list_all confirming [MrImportEmail [] [''i0''], MrSetEmailSubmission None True]"
proof -
  have "srv_send small_server (ImportSubmit a b d x) = Inr [MrImportEmail [] [''i0''], MrSetEmailSubmission None True]"
    for a b d x by (simp add: small_server_def)
  then show ?thesis
    using success_is_confirmed [OF small_submit] by (auto simp: small_context_def)
qed






section \<open>The Outbox\<close>

definition spool_world :: world where
  "spool_world = \<lparr>db = empty_database True,
     files = [([''m''], Dir), ([''m'', ''Outbox''], Dir), ([''m'', ''Outbox'', ''new''], Dir),
       ([''m'', ''Outbox'', ''new'', ''a''], File ''hi''), ([''m'', ''Failed''], Dir), ([''s''], Dir)],
     uuids_drawn = 0, set_requests = []\<rparr>"

definition small_submit_config :: submit_config where
  "small_submit_config = \<lparr>from_address = ''me@x'', identity_id = None, scheduled_folder = Auto,
     retry_base_secs = 30, retry_cap_secs = 7200\<rparr>"

definition small_moment :: moment where
  "small_moment = \<lparr>mo_iso_now = ''now'', mo_epoch = 0, mo_nanos = 0, mo_rnd = (\<lambda>x. x),
     mo_iso_of = (\<lambda>_. ''then''), mo_ulid = ''u'', mo_net = Online, mo_waited = 0,
     mo_cancelled = False, mo_after = 1\<rparr>"

text \<open>
  C3: An attempt that does not end in success never loses the message: afterwards it is where it
  was, byte for byte, or, after a permanent failure, in \<open>Failed/new\<close> with the diagnostic headers
  before it; whichever call of the attempt the operating system refuses. (The sidecar directory,
  the Failed folder and the message lie apart.)
\<close>

theorem attempt_never_loses_message:
  assumes "locate_and_read_outbox_message v outbox b (files w) = Inr (p, bytes)"
    and "handle_submit_attempt v cd srv mo ctx cfg sidecar_dir outbox failed b q n w = (r, w')"
    and "submit_one srv ctx bytes (in_flight_sidecar v cd mo sidecar_dir b (files w)) = (out, reqs)"
    and "out \<noteq> Success" and "\<not> prefix sidecar_dir p" and "\<not> prefix failed p"
    and "\<not> prefix sidecar_dir failed" and "\<not> prefix failed sidecar_dir"
  shows "read_file (files w') p = Some bytes
    \<or> (\<exists>reason. out = Permanent reason \<and> read_file (files w') (failed @ [''new'', b])
        = Some (inject_family2_headers (mo_iso_now mo) bytes reason (mo_ulid mo)))"
  using attempt_keeps_message [OF assms] by (simp add: holds_read)

lemma spool_located:
  "locate_and_read_outbox_message quiet_env [''m'', ''Outbox''] ''a'' (files spool_world)
    = Inr ([''m'', ''Outbox'', ''new'', ''a''], ''hi'')"
  by (simp add: locate_and_read_outbox_message_def locate_in_def read_message_def spool_world_def
      is_file_def read_file_def)

lemma spool_blank: "sidecar_blank cd [''s''] b (files spool_world)"
  by (simp add: sidecar_blank_def sidecar_path_def spool_world_def read_file_def)

theorem attempt_never_loses_message_witness:
  "\<exists>r w'. handle_submit_attempt quiet_env plain_codec small_server small_moment small_context
      small_submit_config [''s''] [''m'', ''Outbox''] [''m'', ''Failed''] ''a'' new_schedule
      (new_notifier (\<lambda>c. [c]) ''a'' ''h'') spool_world = (r, w')
    \<and> (read_file (files w') [''m'', ''Outbox'', ''new'', ''a''] = Some ''hi''
      \<or> read_file (files w') ([''m'', ''Failed''] @ [''new'', ''a'']) = Some (inject_family2_headers
          (mo_iso_now small_moment) ''hi'' ''sidecar envelope missing `from`'' (mo_ulid small_moment)))"
proof -
  obtain r w' where run: "handle_submit_attempt quiet_env plain_codec small_server small_moment small_context
      small_submit_config [''s''] [''m'', ''Outbox''] [''m'', ''Failed''] ''a'' new_schedule
      (new_notifier (\<lambda>c. [c]) ''a'' ''h'') spool_world = (r, w')" by (rule prod.exhaust)
  note one = blank_is_permanent [OF spool_blank, of small_server small_context "''hi''" quiet_env plain_codec
      small_moment "''a''"]
  from attempt_never_loses_message [OF spool_located run one] run show ?thesis by simp
qed

text \<open>
  At startup every message in the Outbox is queued and nothing else is: a name has a due time
  exactly when it is the base name of a visible file in \<open>new\<close> or \<open>cur\<close>. The queue is
  consistent.
\<close>

lemma startup_queues_every_message:
  "sched_ok (startup_queue v cd srv sidecar_dir outbox epoch now f)
   \<and> (due_of (startup_queue v cd srv sidecar_dir outbox epoch now f) b \<noteq> None \<longleftrightarrow>
      (\<exists>sub\<in>{''new'', ''cur''}. \<exists>n. n \<in> set (list_dir v f (outbox @ [sub]))
         \<and> \<not> prefix ''.'' n \<and> is_file f (outbox @ [sub, n]) \<and> b = strip_flags n))"
proof -
  note q = startup_queue_names [of v cd srv sidecar_dir outbox epoch now f]
  have "b \<in> (\<lambda>p. strip_flags (last p)) ` set (scan_maildir_files v outbox f) \<longleftrightarrow>
      (\<exists>sub\<in>{''new'', ''cur''}. \<exists>n. n \<in> set (list_dir v f (outbox @ [sub]))
         \<and> \<not> prefix ''.'' n \<and> is_file f (outbox @ [sub, n]) \<and> b = strip_flags n)"
    by (simp add: scan_maildir_files_def image_Un image_image image_iff)
  with q show ?thesis by blast
qed

text \<open>
  C40: Dragging a failed message back into the Outbox cannot deliver it. The permanent failure
  removed its sidecar; on the rename back the daemon writes a default sidecar, whose envelope is
  empty, so the next attempt fails for good before it talks to any server.
\<close>

theorem dragged_back_message_fails_again:
  assumes "settle_attempt v cd mo cfg dir failed b q n p sc (Permanent reason) reqs w = (r, w1)"
    and "\<not> fault v (RemoveFile (sidecar_path dir b))"
    and "is_file (files w2) (sidecar_path dir b) = is_file (files w1) (sidecar_path dir b)"
    and "handle_event v cd dir now ev s w2 = (Inr s', w3)"
    and "ev_side ev = OutboxSide" and "ev_kind ev = CreateOrRenameTo" and "ev_path ev = d @ [name]"
    and "map_of (ls_pending s) (strip_flags name) = Some pr" and "pr_side pr = FailedSide"
    and "\<not> prefix ''.'' name" and "d \<noteq> dir" and "codec_faithful cd" and "strip_flags name = b"
  shows "submit_one srv ctx bytes (in_flight_sidecar v' cd mo' dir b (files w3))
    = (Permanent ''sidecar envelope missing `from`'', [])"
proof -
  from permanent_removes_sidecar [OF assms(1,2)] assms(3)
  have "\<not> is_file (files w2) (sidecar_path dir b)" by simp
  then have "sidecar_blank cd dir (strip_flags name) (files w2)"
    by (auto simp: sidecar_blank_def is_file_def read_file_def assms(13) split: option.splits node.splits)
  from drag_back_blank [OF assms(4-11) this assms(12)] show ?thesis
    unfolding assms(13) by (rule blank_is_permanent)
qed

definition drag_back_event :: outbox_event where
  "drag_back_event = \<lparr>ev_side = OutboxSide, ev_path = [''m'', ''Outbox'', ''new''] @ [''a''],
     ev_subdir = ''new'', ev_kind = CreateOrRenameTo\<rparr>"

definition drag_back_state :: loop_state where
  "drag_back_state = \<lparr>ls_known_failures = [''a''],
     ls_pending = [(''a'', \<lparr>pr_side = FailedSide, pr_seen_at = 0\<rparr>)], ls_queue = new_schedule\<rparr>"

theorem dragged_back_message_fails_again_witness:
  "\<exists>r w1 s' w3. settle_attempt quiet_env plain_codec small_moment small_submit_config [''s''] [''m'', ''Failed'']
      ''a'' new_schedule (new_notifier (\<lambda>c. [c]) ''a'' ''h'') [''m'', ''Outbox'', ''new'', ''a'']
      small_sidecar (Permanent ''no'') [] spool_world = (r, w1)
    \<and> handle_event quiet_env plain_codec [''s''] 1 drag_back_event drag_back_state w1 = (Inr s', w3)
    \<and> submit_one small_server small_context ''hi''
        (in_flight_sidecar quiet_env plain_codec small_moment [''s''] ''a'' (files w3))
      = (Permanent ''sidecar envelope missing `from`'', [])"
proof -
  obtain r w1 where settle: "settle_attempt quiet_env plain_codec small_moment small_submit_config [''s'']
      [''m'', ''Failed''] ''a'' new_schedule (new_notifier (\<lambda>c. [c]) ''a'' ''h'')
      [''m'', ''Outbox'', ''new'', ''a''] small_sidecar (Permanent ''no'') [] spool_world = (r, w1)"
    by (rule prod.exhaust)
  have name: "strip_flags ''a'' = ''a''" by code_simp
  have "\<exists>s' w3. handle_event quiet_env plain_codec [''s''] 1 drag_back_event drag_back_state w1 = (Inr s', w3)"
    by (simp add: handle_event_def drag_back_event_def drag_back_state_def name bindE_run calls_run
        reset_sidecar_for_retry_def Let_def)
  then obtain s' w3 where ev: "handle_event quiet_env plain_codec [''s''] 1 drag_back_event drag_back_state w1
      = (Inr s', w3)" by blast
  have "submit_one small_server small_context ''hi''
        (in_flight_sidecar quiet_env plain_codec small_moment [''s''] ''a'' (files w3))
      = (Permanent ''sidecar envelope missing `from`'', [])"
    by (rule dragged_back_message_fails_again [OF settle _ refl ev _ _ _ _ _ _ _ plain_codec_faithful name,
          where pr = "\<lparr>pr_side = FailedSide, pr_seen_at = 0\<rparr>" and d = "[''m'', ''Outbox'', ''new'']"])
       (simp_all add: drag_back_event_def drag_back_state_def name)
  with settle ev show ?thesis by blast
qed

section \<open>The sendmail replacement\<close>


definition small_queue_env :: queue_env where
  "small_queue_env = \<lparr>qe_parse_headers = (\<lambda>_. Inr [(''From'', ''me@x'')]),
     qe_parse_rfc3339 = (\<lambda>_. Inl ''bad''), qe_print = print_sidecar, qe_state_dir = Some [''s''],
     qe_epoch = 5, qe_pid = 6, qe_ulid = ''U'', qe_host = ''h'', qe_iso_now = ''now''\<rparr>"

definition small_job :: queue_job where
  "small_job = \<lparr>qj_outbox = [''m'', ''Outbox''], qj_account = ''a'', qj_outbound = ''x'', qj_sidecar = small_sidecar\<rparr>"

definition bare_world :: world where
  "bare_world = \<lparr>db = empty_database True, files = [], uuids_drawn = 0, set_requests = []\<rparr>"

lemma small_filename: "maildir_filename small_queue_env = ''5.jmq6_U.h''"
  by code_simp

lemma small_spool:
  "\<exists>w1. spool_message quiet_env small_queue_env (small_job\<lparr>qj_outbound := x\<rparr>) bare_world = (Inr (), w1)
     \<and> is_dir (files w1) [''m'']"
  by (simp add: spool_message_def create_outbox_def atomic_write_new_def run_simps small_filename
      small_job_def bare_world_def)





text \<open>
  \<open>jmapqueue\<close> publishes the message before it writes the sidecar. A daemon that picks the
  message up in between finds no envelope: the attempt is a permanent failure, whatever the
  server, and the message goes to Failed although everything about it was in order.
\<close>

lemma spooled_message_without_sidecar_fails:
  assumes "spool_message v qe job w = (Inr u, w1)"
    and "\<not> is_file (files w) (sidecar_path dir (maildir_filename qe))"
    and "\<not> prefix (qj_outbox job) (sidecar_path dir (maildir_filename qe))"
  shows "read_file (files w1) (qj_outbox job @ [''new'', maildir_filename qe]) = Some (qj_outbound job)
    \<and> submit_one srv ctx bytes (in_flight_sidecar v' cd mo dir (maildir_filename qe) (files w1))
        = (Permanent ''sidecar envelope missing `from`'', [])"
proof -
  have "sidecar_blank cd dir (maildir_filename qe) (files w)"
    using assms(2) by (auto simp: sidecar_blank_def is_file_def read_file_def split: option.splits node.splits)
  from spool_leaves_sidecar [OF assms(1) this assms(3)]
  have "sidecar_blank cd dir (maildir_filename qe) (files w1)" .
  moreover have "holds (qj_outbox job @ [''new'', maildir_filename qe]) (qj_outbound job) (files w1)"
    using assms(1) by (auto simp: spool_message_def bindE_eq_Inr intro: atomic_write_holds)
  ultimately show ?thesis using blank_is_permanent by (simp add: holds_read)
qed

lemma spooled_message_without_sidecar_fails_witness:
  "\<exists>w1. spool_message quiet_env small_queue_env small_job bare_world = (Inr (), w1)
    \<and> submit_one small_server small_context ''x''
        (in_flight_sidecar quiet_env plain_codec small_moment [''s''] (maildir_filename small_queue_env) (files w1))
      = (Permanent ''sidecar envelope missing `from`'', [])"
proof -
  have "small_job\<lparr>qj_outbound := ''x''\<rparr> = small_job" by (simp add: small_job_def)
  with small_spool [of "''x''"] obtain w1 where
    run: "spool_message quiet_env small_queue_env small_job bare_world = (Inr (), w1)" by auto
  have "\<not> is_file (files bare_world) (sidecar_path [''s''] (maildir_filename small_queue_env))"
    "\<not> prefix (qj_outbox small_job) (sidecar_path [''s''] (maildir_filename small_queue_env))"
    by (simp_all add: bare_world_def is_file_def sidecar_path_def small_job_def)
  from spooled_message_without_sidecar_fails [OF run this] run show ?thesis by blast
qed

end
