(* ===== verification/Jmap_Conn.thy ===== *)
theory Jmap_Conn
  imports Config
begin

text \<open>
  \<open>jmap/mod.rs\<close>: the capability restriction of every request, the host that redirects may
  go to, the token, and the client that is built from an account. Reading the token file,
  running the token command and connecting are parameters.
\<close>

datatype uri =
    Core | Mail | Submission | VacationResponse | Contacts | Calendars | WebSocket | Sieve
  | Blob | Quota | Principals | OtherUri string

definition apply_using_restriction :: "uri list \<Rightarrow> uri list" where
  "apply_using_restriction using_list = [Core, Mail, Submission]"

definition extract_host :: "string \<Rightarrow> err + string" where
  "extract_host url =
     (let after_scheme = (case split_once ''://'' url of Some (_, rest) \<Rightarrow> rest | None \<Rightarrow> url);
          host = takeWhile (\<lambda>c. c \<noteq> CHR ''/'' \<and> c \<noteq> CHR '':'') after_scheme
      in if host = [] then Inl (ParseFailure ''could not extract host'') else Inr host)"

definition trim_end_newlines :: "string \<Rightarrow> string" where
  "trim_end_newlines s =
     rev (dropWhile (\<lambda>c. c = CHR 0x0A \<or> c = CHR 0x0D) (rev s))"

record cmd_output =
  succeeded :: bool
  stdout :: string
  stdout_is_utf8 :: bool

record token_env =
  token_file :: "string \<Rightarrow> err + string"
  token_cmd :: "string \<Rightarrow> err + cmd_output"

definition resolve_token :: "token_env \<Rightarrow> token_source \<Rightarrow> err + string" where
  "resolve_token e src =
     (case src of
        Inline t \<Rightarrow> Inr t
      | TokenFile f \<Rightarrow> rbind (token_file e f) (\<lambda>raw. Inr (trim_end_newlines raw))
      | TokenCmd c \<Rightarrow>
          rbind (token_cmd e c) (\<lambda>out.
            if \<not> succeeded out then Inl (Refused ''jmap_token_cmd exited'')
            else if \<not> stdout_is_utf8 out then Inl (ParseFailure ''stdout was not UTF-8'')
            else Inr (trim_end_newlines (stdout out))))"

record client_request =
  bearer :: string
  trusted_host :: string
  request_timeout :: nat
  endpoint :: string

definition endpoint_url :: "string \<Rightarrow> string" where
  "endpoint_url host =
     (if prefix ''http://'' host \<or> prefix ''https://'' host then host
      else ''https://'' @ host)"

definition client_from_account ::
    "token_env \<Rightarrow> (client_request \<Rightarrow> err + 'client) \<Rightarrow> account \<Rightarrow> err + 'client" where
  "client_from_account e connect a =
     rbind (resolve_token e (token a)) (\<lambda>t.
       let url = endpoint_url (jmap_host a) in
       rbind (extract_host url) (\<lambda>host.
         connect \<lparr>bearer = t, trusted_host = host, request_timeout = timeout_secs a, endpoint = url\<rparr>))"

section \<open>Properties\<close>

lemma split_once_https: "split_once ''://'' (''https://'' @ s) = Some (''https'', s)"
  by (simp add: prefix_def)

lemma extract_host_https:
  assumes "h \<noteq> []" and "\<forall>c\<in>set h. c \<noteq> CHR ''/'' \<and> c \<noteq> CHR '':''"
    and "rest = [] \<or> hd rest = CHR ''/'' \<or> hd rest = CHR '':''"
  shows "extract_host (''https://'' @ h @ rest) = Inr h"
proof -
  have "takeWhile (\<lambda>c. c \<noteq> CHR ''/'' \<and> c \<noteq> CHR '':'') (h @ rest) = h"
    using assms(2,3) by (cases rest) (auto simp: takeWhile_append)
  with assms(1) show ?thesis
    unfolding extract_host_def by (simp only: split_once_https) simp
qed

lemma trim_end_newlines_last:
  "trim_end_newlines s \<noteq> [] \<Longrightarrow>
   last (trim_end_newlines s) \<noteq> CHR 0x0A \<and> last (trim_end_newlines s) \<noteq> CHR 0x0D"
proof -
  let ?nl = "\<lambda>c. c = CHR 0x0A \<or> c = CHR 0x0D"
  assume "trim_end_newlines s \<noteq> []"
  then have ne: "dropWhile ?nl (rev s) \<noteq> []" by (simp add: trim_end_newlines_def)
  then have "\<not> ?nl (hd (dropWhile ?nl (rev s)))" by (rule hd_dropWhile)
  then show ?thesis using ne by (simp add: trim_end_newlines_def last_rev)
qed

end
