(* ===== verification/Config_Properties.thy ===== *)
theory Config_Properties
  imports Jmap_Conn
begin

text \<open>
  The properties of the configuration and of the connection built from it.
\<close>





text \<open>
  The client is built for the configured server and no other: the endpoint is the configured
  host, under \<open>https\<close> when no scheme is given, redirects are trusted to that host alone, without
  scheme, port and path, and the bearer token that is read from a file or a command does not end
  in a line break.
\<close>

lemma client_trusts_configured_host:
  assumes "resolve_token e (token a) = Inr t"
    and "jmap_host a = scheme @ host @ rest" and "scheme = [] \<and> rest = [] \<or> scheme = ''https://''"
    and "host \<noteq> []" and "\<forall>c\<in>set host. c \<noteq> CHR ''/'' \<and> c \<noteq> CHR '':''"
    and "rest = [] \<or> hd rest = CHR ''/'' \<or> hd rest = CHR '':''"
  shows "client_from_account e connect a = connect
      \<lparr>bearer = t, trusted_host = host, request_timeout = timeout_secs a,
       endpoint = ''https://'' @ host @ rest\<rparr>
    \<and> (t \<noteq> [] \<longrightarrow> (\<forall>s. token a \<noteq> Inline s) \<longrightarrow> last t \<noteq> CHR 0x0A \<and> last t \<noteq> CHR 0x0D)"
proof -
  have no_slash: "CHR ''/'' \<notin> set host" using assms(5) by blast
  then have np: "\<not> prefix ''http://'' host" "\<not> prefix ''https://'' host"
    by (auto simp: prefix_def)
  have url: "endpoint_url (jmap_host a) = ''https://'' @ host @ rest"
    using assms(3)
  proof
    assume "scheme = [] \<and> rest = []"
    then show ?thesis unfolding endpoint_url_def assms(2) using np by simp
  next
    assume "scheme = ''https://''"
    then show ?thesis unfolding endpoint_url_def assms(2) by simp
  qed
  have "extract_host (''https://'' @ host @ rest) = Inr host"
    using assms(4-6) by (rule extract_host_https)
  then have "client_from_account e connect a = connect
      \<lparr>bearer = t, trusted_host = host, request_timeout = timeout_secs a,
       endpoint = ''https://'' @ host @ rest\<rparr>"
    unfolding client_from_account_def assms(1) url rbind_Inr Let_def by simp
  moreover have "last t \<noteq> CHR 0x0A \<and> last t \<noteq> CHR 0x0D" if "t \<noteq> []" "\<forall>s. token a \<noteq> Inline s"
  proof -
    from assms(1) that(2) obtain raw where "t = trim_end_newlines raw"
      by (cases "token a") (auto simp: resolve_token_def rbind_eq_Inr split: if_splits)
    with that(1) trim_end_newlines_last show ?thesis by simp
  qed
  ultimately show ?thesis by blast
qed

definition token_env_sample :: token_env where
  "token_env_sample = \<lparr>token_file = (\<lambda>_. Inr [CHR ''t'', CHR 0x0A]),
     token_cmd = (\<lambda>_. Inr \<lparr>succeeded = True, stdout = ''t'', stdout_is_utf8 = True\<rparr>)\<rparr>"

definition account_sample :: account where
  "account_sample = \<lparr>acct_name = ''a'', enabled = True, jmap_host = ''h.x'', jmap_user = ''u'',
     token = TokenFile ''f'', timeout_secs = 30, poll_interval_secs = 300, mail = None, submit = None\<rparr>"

lemma client_trusts_configured_host_witness:
  "client_from_account token_env_sample Inr account_sample =
     Inr \<lparr>bearer = ''t'', trusted_host = ''h.x'', request_timeout = 30, endpoint = ''https://h.x''\<rparr>"
proof -
  have "resolve_token token_env_sample (token account_sample) = Inr ''t''"
    by (simp add: resolve_token_def token_env_sample_def account_sample_def trim_end_newlines_def)
  from client_trusts_configured_host [OF this, of "[]" "''h.x''" "[]" Inr]
  show ?thesis by (simp add: account_sample_def)
qed

end
