(* ===== verification/Single_Instance.thy ===== *)
theory Single_Instance
  imports World
begin

text \<open>
  \<open>daemon/single_instance.rs\<close>: the guard that keeps a second daemon from starting. The kernel's
  \<open>flock\<close> table is the list of the locked paths with the process that holds each; closing the
  file, also by the death of the process, removes the entry.
\<close>

record lock_host =
  lk_world :: world
  lk_held :: "(path \<times> nat) list"

text \<open>\<open>str::parse::<u32>\<close>: an optional plus sign and decimal digits.\<close>

fun digits_value :: "nat \<Rightarrow> string \<Rightarrow> nat option" where
  "digits_value n [] = Some n"
| "digits_value n (c # s) =
     (let d = (of_char c :: nat) in
      if 48 \<le> d \<and> d \<le> 57 then digits_value (10 * n + (d - 48)) s else None)"

definition parse_u32 :: "string \<Rightarrow> nat option" where
  "parse_u32 s =
     (let digits = (case s of [] \<Rightarrow> [] | c # r \<Rightarrow> if c = CHR ''+'' then r else s) in
      if digits = [] then None
      else (case digits_value 0 digits of
              None \<Rightarrow> None
            | Some n \<Rightarrow> if n < 2 ^ 32 then Some n else None))"

text \<open>What the file says about the holder, for the error message.\<close>

definition holder_of :: "env \<Rightarrow> path \<Rightarrow> fs \<Rightarrow> string" where
  "holder_of v p f =
     (case (if fault v (ReadFile p) then None else read_file f p) of
        None \<Rightarrow> ''unknown''
      | Some s \<Rightarrow> (case parse_u32 (trim s) of Some n \<Rightarrow> show_nat n | None \<Rightarrow> ''unknown''))"

definition already_running :: "string \<Rightarrow> string" where
  "already_running holder =
     ''jmapsyncd daemon already running (pid='' @ holder @ ''); refusing to start a second instance''"

text \<open>\<open>create(true).truncate(false)\<close>: an existing file keeps its content.\<close>

definition sys_open_lockfile :: "env \<Rightarrow> path \<Rightarrow> (world, unit) io" where
  "sys_open_lockfile v p = sys v (OpenFile p) (\<lambda>f.
     if p = [] \<or> is_dir f p \<or> \<not> is_dir f (butlast p) then None
     else Some (if is_file f p then f else (p, File []) # f))"

definition sys_truncate :: "env \<Rightarrow> path \<Rightarrow> (world, unit) io" where
  "sys_truncate v p = sys v (TruncateFile p) (\<lambda>f. write_file f p [])"

text \<open>
  \<open>flock_error\<close> is the error of a \<open>flock\<close> call that fails for another reason than a holder. A
  failure after the lock was taken drops the file and so the lock.
\<close>

definition acquire_at :: "env \<Rightarrow> nat \<Rightarrow> err option \<Rightarrow> path \<Rightarrow> lock_host \<Rightarrow> (err + unit) \<times> lock_host" where
  "acquire_at v pid flock_error p h =
     (case bindE (if p = [] then ret () else sys_create_dir_all v (butlast p))
             (\<lambda>_. sys_open_lockfile v p) (lk_world h) of
        (Inl e, w) \<Rightarrow> (Inl e, h\<lparr>lk_world := w\<rparr>)
      | (Inr _, w) \<Rightarrow>
          if p \<in> fst ` set (lk_held h)
          then (Inl (Refused (already_running (holder_of v p (files w)))), h\<lparr>lk_world := w\<rparr>)
          else (case flock_error of
                  Some e \<Rightarrow> (Inl e, h\<lparr>lk_world := w\<rparr>)
                | None \<Rightarrow>
                    (case bindE (sys_truncate v p)
                            (\<lambda>_. sys_write v p (show_nat pid @ [CHR 0x0A])) w of
                       (Inl e, w') \<Rightarrow> (Inl e, h\<lparr>lk_world := w'\<rparr>)
                     | (Inr _, w') \<Rightarrow>
                         (Inr (), h\<lparr>lk_world := w', lk_held := (p, pid) # lk_held h\<rparr>))))"

definition default_lock_path :: "path option \<Rightarrow> err + path" where
  "default_lock_path state_dir =
     (case state_dir of
        None \<Rightarrow> Inl (NoPlatformDir ''state'')
      | Some base \<Rightarrow> Inr (base @ [''jmapsyncd'', ''jmapsyncd.lock'']))"

definition acquire :: "env \<Rightarrow> nat \<Rightarrow> err option \<Rightarrow> path option \<Rightarrow> lock_host \<Rightarrow> (err + unit) \<times> lock_host" where
  "acquire v pid flock_error state_dir h =
     (case default_lock_path state_dir of
        Inl e \<Rightarrow> (Inl e, h)
      | Inr p \<Rightarrow> acquire_at v pid flock_error p h)"

section \<open>Reading a number back\<close>

lemma digits_value_append:
  "digits_value n (s @ t) = Option.bind (digits_value n s) (\<lambda>m. digits_value m t)"
  by (induction s arbitrary: n) (auto simp: Let_def)

lemma digit_char: "d < 10 \<Longrightarrow> (of_char (char_of (48 + d) :: char) :: nat) = 48 + d"
  by (simp add: of_char_of)

lemma show_nat_char: "c \<in> set (show_nat n) \<Longrightarrow> 48 \<le> (of_char c :: nat) \<and> (of_char c :: nat) \<le> 57"
proof (induction n rule: show_nat.induct)
  case (1 n)
  show ?case
  proof (cases "n < 10")
    case True
    with 1 show ?thesis by (subst (asm) (2) show_nat.simps) (auto simp: digit_char)
  next
    case False
    with 1 show ?thesis
      by (subst (asm) (2) show_nat.simps) (auto simp: digit_char [of "n mod 10"])
  qed
qed

lemma digits_value_show: "digits_value 0 (show_nat n) = Some n"
proof (induction n rule: show_nat.induct)
  case (1 n)
  show ?case
  proof (cases "n < 10")
    case True
    then show ?thesis by (subst show_nat.simps) (simp add: digit_char)
  next
    case False
    with 1 show ?thesis
      by (subst show_nat.simps) (simp add: digits_value_append digit_char)
  qed
qed

lemma show_nat_not_Nil [simp]: "show_nat n \<noteq> []"
  by (subst show_nat.simps) simp

lemma parse_u32_show: "n < 2 ^ 32 \<Longrightarrow> parse_u32 (show_nat n) = Some n"
proof -
  assume n: "n < 2 ^ 32"
  obtain c r where s: "show_nat n = c # r" by (cases "show_nat n") auto
  with show_nat_char [of c n] have "c \<noteq> CHR ''+''" by auto
  with s n digits_value_show [of n] show ?thesis by (simp add: parse_u32_def)
qed

lemma utf8_decode_small:
  "(\<And>c. c \<in> set s \<Longrightarrow> (of_char c :: nat) < 128) \<Longrightarrow> utf8_decode s = map of_char s"
proof (induction s)
  case (Cons a s)
  from Cons.prems [of a] have "(of_char a :: nat) < 192" by simp
  with Cons show ?case by (simp add: utf8_decode_ascii)
qed simp

lemma utf8_encode_small:
  "(\<And>c. c \<in> set s \<Longrightarrow> (of_char c :: nat) < 128) \<Longrightarrow> utf8_encode (map of_char s) = s"
  by (induction s) (auto simp: utf8_encode_def utf8_char_def byte_def)

lemma trim_pid_line: "trim (show_nat n @ [CHR 0x0A]) = show_nat n"
proof -
  let ?s = "show_nat n"
  have digit: "48 \<le> (of_char c :: nat)" "(of_char c :: nat) \<le> 57" if "c \<in> set ?s" for c
    using show_nat_char [OF that] by auto
  have small: "(of_char c :: nat) < 128" if "c \<in> set (?s @ [CHR 0x0A])" for c
    using that digit(2) [of c] by auto
  have "dropWhile is_whitespace (map of_char ?s @ ns) = map of_char ?s @ ns" for ns
    using digit [of "hd ?s"] by (cases ?s) (auto simp: is_whitespace_def)
  moreover have "dropWhile is_whitespace (rev (map of_char ?s)) = rev (map of_char ?s)"
    using digit [of "last ?s"]
    by (cases ?s rule: rev_cases) (auto simp: is_whitespace_def rev_map)
  ultimately have "trim_scalars (map of_char (?s @ [CHR 0x0A])) = map of_char ?s"
    by (simp add: trim_scalars_def is_whitespace_def)
  moreover have "utf8_decode (?s @ [CHR 0x0A]) = map of_char (?s @ [CHR 0x0A])"
    by (rule utf8_decode_small) (rule small)
  moreover have "utf8_encode (map of_char ?s) = ?s"
    by (rule utf8_encode_small) (rule small, simp)
  ultimately show ?thesis by (simp add: trim_def)
qed

lemma holder_of_pid_file:
  "read_file f p = Some (show_nat n @ [CHR 0x0A]) \<Longrightarrow> n < 2 ^ 32 \<Longrightarrow> \<not> fault v (ReadFile p) \<Longrightarrow>
   holder_of v p f = show_nat n"
  by (simp add: holder_of_def trim_pid_line parse_u32_show)

section \<open>What acquiring keeps\<close>

text \<open>
  The table of locks is consistent: no path is locked twice, and the file of a lock names its
  holder.
\<close>

definition locks_ok :: "lock_host \<Rightarrow> bool" where
  "locks_ok h \<longleftrightarrow> distinct (map fst (lk_held h))
     \<and> (\<forall>(p, pid)\<in>set (lk_held h). read_file (files (lk_world h)) p = Some (show_nat pid @ [CHR 0x0A]))"

lemma read_file_create_dir_all:
  "create_dir_all f q = Some f' \<Longrightarrow> read_file f p = Some c \<Longrightarrow> read_file f' p = Some c"
  by (auto simp: read_file_def map_of_create_dir_all split: option.splits)

lemma prepare_keeps_file:
  assumes "bindE (if p = [] then ret () else sys_create_dir_all v (butlast p))
      (\<lambda>_. sys_open_lockfile v p) w = (r, w')"
    and "read_file (files w) q = Some c"
  shows "read_file (files w') q = Some c"
proof -
  have 1: "read_file (files w1) q = Some c"
    if "(if p = [] then ret () else sys_create_dir_all v (butlast p)) w = (x, w1)" for x w1
    using that assms(2) read_file_create_dir_all
    by (auto simp: sys_create_dir_all_def sys_def split: if_splits option.splits)
  have 2: "read_file (files w2) q = Some c"
    if "sys_open_lockfile v p w1 = (x, w2)" "read_file (files w1) q = Some c" for x w1 w2
    using that by (auto simp: sys_open_lockfile_def sys_def read_file_def is_file_def
        split: if_splits option.splits node.splits)
  from assms(1) show ?thesis
    by (auto simp: bindE_run split: prod.splits sum.splits dest: 1 2)
qed

lemma write_pid_keeps_other:
  assumes "bindE (sys_truncate v p) (\<lambda>_. sys_write v p c) w = (r, w')" and "q \<noteq> p"
  shows "read_file (files w') q = read_file (files w) q"
proof -
  have "read_file f' q = read_file f q" if "write_file f p d = Some f'" for f f' d
    using that assms(2) by (simp add: read_file_def map_of_write_file)
  with assms(1) show ?thesis
    by (auto simp: bindE_run sys_truncate_def sys_write_def sys_def split: if_splits option.splits)
qed

lemma write_pid_content:
  assumes "bindE (sys_truncate v p) (\<lambda>_. sys_write v p c) w = (Inr u, w')"
  shows "read_file (files w') p = Some c"
  using assms by (auto simp: bindE_eq_Inr sys_write_def sys_Inr read_file_def map_of_write_file)

lemma acquire_at_locks_ok:
  assumes "acquire_at v pid fl p h = (r, h')" and "locks_ok h"
  shows "locks_ok h'"
proof -
  obtain x w1 where prep: "bindE (if p = [] then ret () else sys_create_dir_all v (butlast p))
      (\<lambda>_. sys_open_lockfile v p) (lk_world h) = (x, w1)" by fastforce
  have keep1: "read_file (files w1) q = Some (show_nat n @ [CHR 0x0A])" if "(q, n) \<in> set (lk_held h)" for q n
    using prepare_keeps_file [OF prep] assms(2) that by (auto simp: locks_ok_def)
  obtain y w2 where wr: "bindE (sys_truncate v p) (\<lambda>_. sys_write v p (show_nat pid @ [CHR 0x0A])) w1 = (y, w2)"
    by fastforce
  have keep2: "read_file (files w2) q = Some (show_nat n @ [CHR 0x0A])"
    if "(q, n) \<in> set (lk_held h)" "p \<notin> fst ` set (lk_held h)" for q n
    using write_pid_keeps_other [OF wr, of q] keep1 that by force
  show ?thesis
  proof (cases "p \<in> fst ` set (lk_held h)")
    case True
    then show ?thesis
      using assms prep keep1 by (auto simp: acquire_at_def locks_ok_def split: sum.splits)
  next
    case False
    have "read_file (files w2) p = Some (show_nat pid @ [CHR 0x0A])" if "y = Inr ()"
      using write_pid_content wr that by blast
    with False show ?thesis
      using assms prep wr keep1 keep2
      by (auto simp: acquire_at_def locks_ok_def split: sum.splits option.splits)
  qed
qed

text \<open>
  The tables that can arise: processes acquire locks, the death of a holder releases its locks,
  and nothing else writes the files of the locks.
\<close>

inductive lock_reachable :: "lock_host \<Rightarrow> bool" where
  lock_start: "lk_held h = [] \<Longrightarrow> lock_reachable h"
| lock_acquire: "lock_reachable h \<Longrightarrow> acquire_at v pid fl p h = (r, h') \<Longrightarrow> lock_reachable h'"
| lock_release: "lock_reachable h \<Longrightarrow> lock_reachable (h\<lparr>lk_held := filter (\<lambda>(p, pid). pid \<noteq> dead) (lk_held h)\<rparr>)"
| lock_other: "lock_reachable h \<Longrightarrow>
    (\<And>p pid. (p, pid) \<in> set (lk_held h) \<Longrightarrow> read_file (files w) p = read_file (files (lk_world h)) p) \<Longrightarrow>
    lock_reachable (h\<lparr>lk_world := w\<rparr>)"

lemma lock_reachable_ok: "lock_reachable h \<Longrightarrow> locks_ok h"
proof (induction rule: lock_reachable.induct)
  case (lock_acquire h v pid fl p r h')
  then show ?case by (blast intro: acquire_at_locks_ok)
next
  case (lock_release h dead)
  then show ?case by (auto simp: locks_ok_def distinct_map_filter)
qed (auto simp: locks_ok_def)

text \<open>A path that is held is refused, with the number of its holder.\<close>

lemma held_is_refused:
  assumes "locks_ok h" and "(p, pid) \<in> set (lk_held h)" and "pid < 2 ^ 32" and "\<not> fault v (ReadFile p)"
    and "acquire_at v pid' fl p h = (r, h')"
  shows "(r = Inl (Refused (already_running (show_nat pid)))
      \<or> r = Inl (IoError (MkdirAll (butlast p))) \<or> r = Inl (IoError (OpenFile p)))
    \<and> lk_held h' = lk_held h \<and> read_file (files (lk_world h')) p = read_file (files (lk_world h)) p"
proof -
  obtain x w where prep: "bindE (if p = [] then ret () else sys_create_dir_all v (butlast p))
      (\<lambda>_. sys_open_lockfile v p) (lk_world h) = (x, w)" by fastforce
  have content: "read_file (files (lk_world h)) p = Some (show_nat pid @ [CHR 0x0A])"
    using assms(1,2) by (auto simp: locks_ok_def)
  note kept = prepare_keeps_file [OF prep content]
  have "x = Inr () \<or> x = Inl (IoError (MkdirAll (butlast p))) \<or> x = Inl (IoError (OpenFile p))"
    using prep by (auto simp: bindE_run sys_create_dir_all_def sys_open_lockfile_def sys_def
        split: if_splits option.splits)
  moreover have "p \<in> fst ` set (lk_held h)" using assms(2) by force
  ultimately show ?thesis
    using assms(5) prep kept content holder_of_pid_file [OF kept assms(3,4)]
    by (auto simp: acquire_at_def split: sum.splits)
qed

end
