(* ===== verification/Machine.thy ===== *)
theory Machine
  imports Prelude
begin

text \<open>
  The tasks of the daemon are loops that wait for one of several things to happen. Such a loop
  is a machine: what happens is an input, what the loop does about it is a list of actions and
  a new state. An input that cannot arrive in a state, and an action that never ends, have no
  step. A run is the machine on a list of inputs, in the order in which they arrive.
\<close>

fun run_machine :: "('i \<Rightarrow> 's \<Rightarrow> ('o list \<times> 's) option) \<Rightarrow> 'i list \<Rightarrow> 's \<Rightarrow> ('o list \<times> 's) option" where
  "run_machine f [] s = Some ([], s)"
| "run_machine f (i # js) s =
     (case f i s of
        None \<Rightarrow> None
      | Some (os, s1) \<Rightarrow> map_option (\<lambda>(ps, s2). (os @ ps, s2)) (run_machine f js s1))"

lemma run_machine_Cons:
  "run_machine f (i # js) s = Some (os, s') \<longleftrightarrow>
     (\<exists>os1 s1 os2. f i s = Some (os1, s1) \<and> run_machine f js s1 = Some (os2, s') \<and> os = os1 @ os2)"
  by (auto split: option.splits)

lemma run_machine_append:
  "run_machine f (is @ js) s = Some (os, s') \<longleftrightarrow>
     (\<exists>os1 s1 os2. run_machine f is s = Some (os1, s1) \<and> run_machine f js s1 = Some (os2, s')
        \<and> os = os1 @ os2)"
proof (induction "is" arbitrary: s os)
  case Nil
  then show ?case by simp
next
  case (Cons i xs)
  show ?case by (simp only: append_Cons run_machine_Cons Cons.IH) (auto simp del: run_machine.simps)
qed

lemma run_machine_snoc:
  "run_machine f (is @ [i]) s = Some (os, s') \<longleftrightarrow>
     (\<exists>os1 s1 os2. run_machine f is s = Some (os1, s1) \<and> f i s1 = Some (os2, s') \<and> os = os1 @ os2)"
  unfolding run_machine_append run_machine_Cons by simp

text \<open>
  The contract of a machine whose actions keep an order: \<open>track\<close> reads a list of actions from
  a mode and gives the mode after it, or refuses it. When every step is accepted from the mode
  of its state, every run is.
\<close>

locale ordered_machine =
  fixes f :: "'i \<Rightarrow> 's \<Rightarrow> ('o list \<times> 's) option"
    and ok :: "'s \<Rightarrow> bool"
    and mode :: "'s \<Rightarrow> 'm"
    and track :: "'m \<Rightarrow> 'o list \<Rightarrow> 'm option"
  assumes step_ok: "ok s \<Longrightarrow> f i s = Some (os, s') \<Longrightarrow> ok s'"
    and step_tracked: "ok s \<Longrightarrow> f i s = Some (os, s') \<Longrightarrow> track (mode s) os = Some (mode s')"
    and track_Nil: "track m [] = Some m"
    and track_append: "track m (os @ ps) = Option.bind (track m os) (\<lambda>m'. track m' ps)"
begin

lemma run_ok: "ok s \<Longrightarrow> run_machine f is s = Some (os, s') \<Longrightarrow> ok s'"
proof (induction "is" arbitrary: s os)
  case Nil
  then show ?case by simp
next
  case (Cons i xs)
  then show ?case by (auto simp only: run_machine_Cons intro: step_ok)
qed

lemma run_tracked:
  "ok s \<Longrightarrow> run_machine f is s = Some (os, s') \<Longrightarrow> track (mode s) os = Some (mode s')"
proof (induction "is" arbitrary: s os)
  case Nil
  then show ?case by (simp add: track_Nil)
next
  case (Cons i xs)
  then obtain os1 s1 os2 where "f i s = Some (os1, s1)" "run_machine f xs s1 = Some (os2, s')"
    "os = os1 @ os2" by (auto simp only: run_machine_Cons)
  with Cons show ?case by (simp add: track_append step_tracked step_ok)
qed

end

text \<open>A run keeps what every step keeps.\<close>

lemma run_keeps:
  assumes "\<And>i s os s'. P s \<Longrightarrow> f i s = Some (os, s') \<Longrightarrow> P s'"
    and "run_machine f is s = Some (os, s')" and "P s"
  shows "P s'"
  using assms(2,3)
proof (induction "is" arbitrary: s os)
  case Nil
  then show ?case by simp
next
  case (Cons i xs)
  then show ?case using assms(1) by (auto simp only: run_machine_Cons)
qed

end
