(* ===== verification/Daemon.thy ===== *)
theory Daemon
  imports Sync_Account Jmap_Conn Single_Instance Resilience Machine
begin

text \<open>
  \<open>daemon/mod.rs\<close>: bringing the accounts up, the one-shot \<open>sync\<close> command, and the tasks of the
  daemon. The host is one machine with its file system, its locks, and one database for each
  account. A task is a machine in the sense of \<open>Machine\<close>; what a pass of the synchronisation
  meets (server, clock, refused calls) comes with the input that starts it.
\<close>

section \<open>The host\<close>

record host = lock_host +
  hs_dbs :: "(path \<times> database) list"

definition on_lock :: "(lock_host \<Rightarrow> (err + 'a) \<times> lock_host) \<Rightarrow> (host, 'a) io" where
  "on_lock f h =
     (case f (lock_host.truncate h) of
        (r, l) \<Rightarrow> (r, h\<lparr>lk_world := lk_world l, lk_held := lk_held l\<rparr>))"

definition on_world :: "(world, 'a) io \<Rightarrow> (host, 'a) io" where
  "on_world m h = (case m (lk_world h) of (r, w) \<Rightarrow> (r, h\<lparr>lk_world := w\<rparr>))"

text \<open>The world in which one account is synchronised, and the host after it.\<close>

definition account_world :: "path \<Rightarrow> host \<Rightarrow> world" where
  "account_world p h = (lk_world h)\<lparr>db := the (map_of (hs_dbs h) p)\<rparr>"

definition put_account_world :: "path \<Rightarrow> world \<Rightarrow> host \<Rightarrow> host" where
  "put_account_world p w h = h\<lparr>lk_world := w, hs_dbs := AList.update p (db w) (hs_dbs h)\<rparr>"

section \<open>Opening the database of an account\<close>

text \<open>
  What SQLite answers on a path: the batch of PRAGMAs, the integrity check, the batch of
  \<open>migrate\<close>, and whether it enforces foreign keys. \<open>CREATE TABLE IF NOT EXISTS\<close> keeps the
  tables that are there.
\<close>

record sqlite =
  sq_configure :: "path \<Rightarrow> err option"
  sq_integrity :: "path \<Rightarrow> err + string"
  sq_migrate :: "path \<Rightarrow> err option"
  sq_foreign_keys :: bool

definition configure :: "sqlite \<Rightarrow> path \<Rightarrow> err + unit" where
  "configure sq p = (case sq_configure sq p of Some e \<Rightarrow> Inl e | None \<Rightarrow> Inr ())"

definition integrity_check :: "sqlite \<Rightarrow> path \<Rightarrow> err + unit" where
  "integrity_check sq p =
     (case sq_integrity sq p of
        Inl e \<Rightarrow> Inl e
      | Inr result \<Rightarrow>
          if result \<noteq> ''ok'' then Inl (Refused (''database integrity check failed: '' @ result)) else Inr ())"

definition open_database :: "env \<Rightarrow> sqlite \<Rightarrow> path \<Rightarrow> (host, unit) io" where
  "open_database v sq p h =
     (if fault v (OpenFile p) \<or> p = [] \<or> \<not> is_dir (files (lk_world h)) (butlast p)
      then (Inl (IoError (OpenFile p)), h)
      else case rbind (configure sq p) (\<lambda>_. integrity_check sq p) of
             Inl e \<Rightarrow> (Inl e, h)
           | Inr _ \<Rightarrow>
               (case sq_migrate sq p of
                  Some e \<Rightarrow> (Inl e, h)
                | None \<Rightarrow>
                    (Inr (), if map_of (hs_dbs h) p = None
                             then h\<lparr>hs_dbs := (p, empty_database (sq_foreign_keys sq)) # hs_dbs h\<rparr> else h)))"

definition db_path_of :: "config \<Rightarrow> account \<Rightarrow> path" where
  "db_path_of cfg a = join_path (join_path [] (db_dir cfg)) (acct_name a @ ''.sqlite'')"

definition open_account_db :: "env \<Rightarrow> sqlite \<Rightarrow> config \<Rightarrow> account \<Rightarrow> (host, unit) io" where
  "open_account_db v sq cfg a =
     (let p = db_path_of cfg a in
      bindE (if p = [] then ret () else on_world (sys_create_dir_all v (butlast p)))
        (\<lambda>_. open_database v sq p))"

section \<open>Starting the daemon\<close>

text \<open>The accounts for which a task is spawned; an account that cannot be brought up is skipped.\<close>

fun spawn_accounts :: "env \<Rightarrow> sqlite \<Rightarrow> config \<Rightarrow> account list \<Rightarrow> (host, account list) io" where
  "spawn_accounts v sq cfg [] h = (Inr [], h)"
| "spawn_accounts v sq cfg (a # as) h =
     (if \<not> enabled a \<or> mail a = None then spawn_accounts v sq cfg as h
      else case open_account_db v sq cfg a h of
             (Inl _, h1) \<Rightarrow> spawn_accounts v sq cfg as h1
           | (Inr _, h1) \<Rightarrow> bindE (spawn_accounts v sq cfg as) (\<lambda>r. ret (a # r)) h1)"

definition start_daemon :: "env \<Rightarrow> sqlite \<Rightarrow> config \<Rightarrow> (host, account list) io" where
  "start_daemon v sq cfg =
     bindE (spawn_accounts v sq cfg (accounts cfg)) (\<lambda>spawned.
       if spawned = [] then throw (Refused ''no accounts to run'') else ret spawned)"

definition run_daemon ::
    "env \<Rightarrow> sqlite \<Rightarrow> nat \<Rightarrow> err option \<Rightarrow> path option \<Rightarrow> config \<Rightarrow> (host, account list) io" where
  "run_daemon v sq pid flock_error state_dir cfg =
     bindE (on_lock (acquire v pid flock_error state_dir)) (\<lambda>_. start_daemon v sq cfg)"

section \<open>The one-shot command\<close>

text \<open>
  \<open>matched\<close> and \<open>errors\<close> are the counters of \<open>run_sync_once_inner\<close>; \<open>None\<close> means that the
  paging of one of the passes never ends. \<open>connect\<close> is the connection of \<open>client_from_account\<close>.
\<close>

record one_shot =
  os_env :: env
  os_sqlite :: sqlite
  os_tokens :: token_env
  os_connect :: "client_request \<Rightarrow> err + client"
  os_glob :: "string \<Rightarrow> err + (string \<Rightarrow> bool)"
  os_elapsed :: nat

definition selected :: "string option \<Rightarrow> account \<Rightarrow> bool" where
  "selected account_filter a \<longleftrightarrow>
     enabled a \<and> (case account_filter of None \<Rightarrow> True | Some name \<Rightarrow> acct_name a = name)"

fun sync_accounts ::
    "one_shot \<Rightarrow> config \<Rightarrow> string option \<Rightarrow> bool \<Rightarrow> account list \<Rightarrow> nat \<Rightarrow> nat \<Rightarrow> host
     \<Rightarrow> ((nat \<times> nat) \<times> host) option" where
  "sync_accounts sh cfg flt dry [] matched errors h = Some ((matched, errors), h)"
| "sync_accounts sh cfg flt dry (a # as) matched errors h =
     (if \<not> selected flt a then sync_accounts sh cfg flt dry as matched errors h
      else if mail a = None then sync_accounts sh cfg flt dry as (matched + 1) errors h
      else case open_account_db (os_env sh) (os_sqlite sh) cfg a h of
             (Inl _, h1) \<Rightarrow> sync_accounts sh cfg flt dry as (matched + 1) errors h1
           | (Inr _, h1) \<Rightarrow>
               (case client_from_account (os_tokens sh) (os_connect sh) a of
                  Inl _ \<Rightarrow> sync_accounts sh cfg flt dry as (matched + 1) errors h1
                | Inr cl \<Rightarrow>
                    (case sync_account (os_env sh) (os_glob sh) cl a (os_elapsed sh) dry
                            (account_world (db_path_of cfg a) h1) of
                       None \<Rightarrow> None
                     | Some (r, w) \<Rightarrow>
                         sync_accounts sh cfg flt dry as (matched + 1)
                           (case r of Inl _ \<Rightarrow> errors + 1 | Inr _ \<Rightarrow> errors)
                           (put_account_world (db_path_of cfg a) w h1))))"

definition run_sync_once ::
    "one_shot \<Rightarrow> config \<Rightarrow> string option \<Rightarrow> bool \<Rightarrow> host \<Rightarrow> ((err + unit) \<times> host) option" where
  "run_sync_once sh cfg flt dry h =
     (case sync_accounts sh cfg flt dry (accounts cfg) 0 0 h of
        None \<Rightarrow> None
      | Some ((matched, errors), h') \<Rightarrow>
          Some (if matched = 0
                then Inl (Refused (if flt = None then ''no enabled accounts to sync''
                                   else ''no enabled account of this name''))
                else if errors > 0 then Inl (Refused (show_nat errors @ '' account sync(s) failed''))
                else Inr (), h'))"

section \<open>The loop over server events\<close>

definition ACCOUNT_RETRY_BASE :: nat where "ACCOUNT_RETRY_BASE = secs 5"

definition ACCOUNT_RETRY_CAP :: nat where "ACCOUNT_RETRY_CAP = secs 300"

definition SSE_STREAM_DROP_BACKOFF :: nat where "SSE_STREAM_DROP_BACKOFF = secs 1"

text \<open>What one pass meets.\<close>

record tick =
  tk_env :: env
  tk_glob :: "string \<Rightarrow> err + (string \<Rightarrow> bool)"
  tk_client :: client
  tk_elapsed :: nat

text \<open>The error of a pass is logged and otherwise dropped.\<close>

definition sync_tick :: "account \<Rightarrow> tick \<Rightarrow> world \<Rightarrow> world option" where
  "sync_tick a t w =
     map_option snd (sync_account (tk_env t) (tk_glob t) (tk_client t) a (tk_elapsed t) False w)"

text \<open>
  \<open>Connecting\<close> is the head of the loop, \<open>Backoff\<close> the wait after a failure with the delay that
  was taken, \<open>Dropped\<close> the short sleep after a stream that ended cleanly.
\<close>

datatype sse_phase = Connecting | Backoff nat | Streaming | Dropped | Exited

record sse_state =
  ss_phase :: sse_phase
  ss_last :: "string option"
  ss_backoff :: retry_backoff
  ss_notifier :: failure_notifier
  ss_world :: world

datatype sse_input =
    Shutdown
  | Attempt tick bool
  | Waited network_wait nat
  | Slept
  | PollTick tick
  | WatchTick tick
  | StateChange "string option" tick
  | CalendarAlert
  | StreamError
  | StreamEnd

datatype sse_action = SyncPass | Connect "string option" | Notice notification | Pause nat | Stop

definition sse_start :: "(nat \<Rightarrow> nat list) \<Rightarrow> account \<Rightarrow> world \<Rightarrow> sse_state" where
  "sse_start upper a w =
     \<lparr>ss_phase = Connecting, ss_last = None,
      ss_backoff = new_backoff ACCOUNT_RETRY_BASE ACCOUNT_RETRY_CAP,
      ss_notifier = new_notifier upper (acct_name a) (jmap_host a), ss_world = w\<rparr>"

text \<open>The watcher is set up where it is wanted; without it its branch never fires.\<close>

definition maildir_watched :: "account \<Rightarrow> bool \<Rightarrow> bool" where
  "maildir_watched a setup_ok \<longleftrightarrow>
     (case mail a of None \<Rightarrow> False | Some m \<Rightarrow> watch_maildir m \<and> setup_ok)"

definition stream_sync :: "account \<Rightarrow> tick \<Rightarrow> sse_state \<Rightarrow> (sse_action list \<times> sse_state) option" where
  "stream_sync a t s = map_option (\<lambda>w. ([SyncPass], s\<lparr>ss_world := w\<rparr>)) (sync_tick a t (ss_world s))"

definition back_off :: "sse_action list \<Rightarrow> sse_state \<Rightarrow> sse_action list \<times> sse_state" where
  "back_off acts s =
     (let (ns, n) = notify_failed (ss_notifier s);
          (delay, b) = take_delay (ss_backoff s)
      in (acts @ map Notice ns, s\<lparr>ss_phase := Backoff delay, ss_backoff := b, ss_notifier := n\<rparr>))"

definition attempt_connect ::
    "account \<Rightarrow> tick \<Rightarrow> bool \<Rightarrow> sse_state \<Rightarrow> (sse_action list \<times> sse_state) option" where
  "attempt_connect a t connected s =
     map_option (\<lambda>w.
         let s1 = s\<lparr>ss_world := w\<rparr>; acts = [SyncPass, Connect (ss_last s)] in
         if connected
         then let (ns, n) = notify_recovered (ss_notifier s) in
              (acts @ map Notice ns,
               s1\<lparr>ss_phase := Streaming, ss_backoff := reset_backoff (ss_backoff s), ss_notifier := n\<rparr>)
         else back_off acts s1)
       (sync_tick a t (ss_world s))"

fun sse_step ::
    "account \<Rightarrow> bool \<Rightarrow> sse_input \<Rightarrow> sse_state \<Rightarrow> (sse_action list \<times> sse_state) option" where
  "sse_step a watched Shutdown s =
     (if ss_phase s = Exited then None else Some ([Stop], s\<lparr>ss_phase := Exited\<rparr>))"
| "sse_step a watched (Attempt t connected) s =
     (if ss_phase s = Connecting then attempt_connect a t connected s else None)"
| "sse_step a watched (Waited net waited) s =
     (case ss_phase s of
        Backoff delay \<Rightarrow>
          (case wait_for_connectivity_or_delay net delay waited False of
             (remaining, go_on) \<Rightarrow>
               if go_on then Some ([Pause (waited + remaining)], s\<lparr>ss_phase := Connecting\<rparr>)
               else Some ([Stop], s\<lparr>ss_phase := Exited\<rparr>))
      | _ \<Rightarrow> None)"
| "sse_step a watched Slept s =
     (if ss_phase s = Dropped
      then Some ([Pause SSE_STREAM_DROP_BACKOFF], s\<lparr>ss_phase := Connecting\<rparr>) else None)"
| "sse_step a watched (PollTick t) s =
     (if ss_phase s = Streaming \<and> poll_interval_secs a > 0 then stream_sync a t s else None)"
| "sse_step a watched (WatchTick t) s =
     (if ss_phase s = Streaming \<and> watched then stream_sync a t s else None)"
| "sse_step a watched (StateChange event_id t) s =
     (if ss_phase s = Streaming
      then stream_sync a t (case event_id of None \<Rightarrow> s | Some i \<Rightarrow> s\<lparr>ss_last := Some i\<rparr>)
      else None)"
| "sse_step a watched CalendarAlert s = (if ss_phase s = Streaming then Some ([], s) else None)"
| "sse_step a watched StreamError s =
     (if ss_phase s = Streaming then Some (back_off [] s) else None)"
| "sse_step a watched StreamEnd s =
     (if ss_phase s = Streaming then Some ([], s\<lparr>ss_phase := Dropped\<rparr>) else None)"

section \<open>The supervisor of an account\<close>

datatype supervisor =
    SettingUp retry_backoff failure_notifier world
  | SetupBackoff nat retry_backoff failure_notifier world
  | Supervising sse_state
  | Finished

datatype supervisor_input = ClientFailed | ClientReady | SetupWaited network_wait nat | Task sse_input | Terminate

datatype supervisor_action = SetupNotice notification | SetupPause nat | SpawnSubmit | TaskAction sse_action

definition supervisor_start :: "(nat \<Rightarrow> nat list) \<Rightarrow> account \<Rightarrow> world \<Rightarrow> supervisor" where
  "supervisor_start upper a w =
     SettingUp (new_backoff ACCOUNT_RETRY_BASE ACCOUNT_RETRY_CAP)
       (new_notifier upper (acct_name a) (jmap_host a)) w"

fun supervisor_step ::
    "(nat \<Rightarrow> nat list) \<Rightarrow> account \<Rightarrow> bool \<Rightarrow> supervisor_input \<Rightarrow> supervisor
     \<Rightarrow> (supervisor_action list \<times> supervisor) option" where
  "supervisor_step upper a watched ClientFailed (SettingUp b n w) =
     (let (delay, b') = take_delay b; (ns, n') = notify_failed n
      in Some (map SetupNotice ns, SetupBackoff delay b' n' w))"
| "supervisor_step upper a watched ClientReady (SettingUp b n w) =
     (let (ns, n') = notify_recovered n
      in Some (map SetupNotice ns @ (if submit a = None then [] else [SpawnSubmit]),
               Supervising (sse_start upper a w)))"
| "supervisor_step upper a watched (SetupWaited net waited) (SetupBackoff delay b n w) =
     (case wait_for_connectivity_or_delay net delay waited False of
        (remaining, go_on) \<Rightarrow>
          if go_on then Some ([SetupPause (waited + remaining)], SettingUp b n w)
          else Some ([], Finished))"
| "supervisor_step upper a watched (Task i) (Supervising s) =
     map_option (\<lambda>(acts, s'). (map TaskAction acts,
         if ss_phase s' = Exited then Finished else Supervising s'))
       (sse_step a watched i s)"
| "supervisor_step upper a watched Terminate (SettingUp b n w) = Some ([], Finished)"
| "supervisor_step upper a watched Terminate (SetupBackoff delay b n w) = Some ([], Finished)"
| "supervisor_step upper a watched _ _ = None"

end
