(* ===== verification/Daemon_Facts.thy ===== *)
theory Daemon_Facts
  imports Daemon Email_Outcome
begin

text \<open>
  What the tasks of \<open>daemon/mod.rs\<close> keep: the integrity of the databases, the order of the
  actions of the event loop as a protocol automaton, the alternation of its notifications, and
  the bounds of its backoff. The interpretations of \<open>ordered_machine\<close> carry them over runs.
\<close>

section \<open>The databases\<close>

lemma sync_account_db_wf:
  "sync_account v glob cl acct elapsed dry w = Some (r, w') \<Longrightarrow> db_wf (db w) \<Longrightarrow> db_wf (db w')"
  by (rule sync_account_keeps [OF sync_mailboxes_db_wf reconcile_emails_db_wf])

definition dbs_ok :: "host \<Rightarrow> bool" where
  "dbs_ok h \<longleftrightarrow> (\<forall>p d. map_of (hs_dbs h) p = Some d \<longrightarrow> db_wf d)"

lemma on_world_dbs [simp]: "on_world m h = (r, h') \<Longrightarrow> hs_dbs h' = hs_dbs h"
  by (auto simp: on_world_def split: prod.splits)

text \<open>Opening adds an empty database where there was none and changes no other.\<close>

lemma open_database_dbs:
  assumes "open_database v sq p h = (r, h')"
  shows "map_of (hs_dbs h') = map_of (hs_dbs h)
    \<or> r = Inr () \<and> map_of (hs_dbs h) p = None
       \<and> map_of (hs_dbs h') = (map_of (hs_dbs h))(p \<mapsto> empty_database (sq_foreign_keys sq))"
  using assms by (auto simp: open_database_def split: if_splits option.splits sum.splits)

lemma open_database_there:
  "open_database v sq p h = (Inr u, h') \<Longrightarrow> map_of (hs_dbs h') p \<noteq> None"
  by (auto simp: open_database_def split: if_splits option.splits sum.splits)

lemma open_account_db_dbs:
  assumes "open_account_db v sq cfg a h = (r, h')"
  shows "map_of (hs_dbs h') = map_of (hs_dbs h)
    \<or> r = Inr () \<and> map_of (hs_dbs h) (db_path_of cfg a) = None
       \<and> map_of (hs_dbs h') = (map_of (hs_dbs h))(db_path_of cfg a \<mapsto> empty_database (sq_foreign_keys sq))"
proof (cases "(if db_path_of cfg a = [] then ret () else on_world (sys_create_dir_all v (butlast (db_path_of cfg a)))) h")
  case (Pair x h1)
  have "hs_dbs h1 = hs_dbs h"
    using Pair by (auto split: if_splits)
  with assms Pair open_database_dbs [of v sq "db_path_of cfg a" h1 r h'] show ?thesis
    by (auto simp: open_account_db_def bindE_run Let_def split: sum.splits)
qed

lemma open_account_db_there:
  "open_account_db v sq cfg a h = (Inr u, h') \<Longrightarrow> map_of (hs_dbs h') (db_path_of cfg a) \<noteq> None"
  by (auto simp: open_account_db_def bindE_run Let_def dest: open_database_there
      split: sum.splits prod.splits)

lemma open_account_db_ok:
  "open_account_db v sq cfg a h = (r, h') \<Longrightarrow> dbs_ok h \<Longrightarrow> dbs_ok h'"
  using open_account_db_dbs [of v sq cfg a h r h'] by (auto simp: dbs_ok_def split: if_splits)

lemma put_account_world_get:
  "map_of (hs_dbs (put_account_world p w h)) = (map_of (hs_dbs h))(p \<mapsto> db w)"
  by (simp add: put_account_world_def update_conv')

lemma account_world_wf:
  "dbs_ok h \<Longrightarrow> map_of (hs_dbs h) p \<noteq> None \<Longrightarrow> db_wf (db (account_world p h))"
  by (auto simp: account_world_def dbs_ok_def)

text \<open>One account of the one-shot command.\<close>

lemma synced_account:
  assumes "open_account_db (os_env sh) (os_sqlite sh) cfg a h = (Inr u, h1)"
    and "sync_account v glob cl a elapsed dry (account_world (db_path_of cfg a) h1) = Some (r, w)"
    and "dbs_ok h"
  shows "dbs_ok (put_account_world (db_path_of cfg a) w h1)
    \<and> (\<forall>p. p \<noteq> db_path_of cfg a \<longrightarrow>
         map_of (hs_dbs (put_account_world (db_path_of cfg a) w h1)) p = map_of (hs_dbs h) p)"
proof -
  have ok: "dbs_ok h1" and there: "map_of (hs_dbs h1) (db_path_of cfg a) \<noteq> None"
    using open_account_db_ok [OF assms(1,3)] open_account_db_there [OF assms(1)] by auto
  have "db_wf (db w)"
    by (rule sync_account_db_wf [OF assms(2)]) (rule account_world_wf [OF ok there])
  with ok open_account_db_dbs [OF assms(1)] show ?thesis
    by (auto simp: dbs_ok_def put_account_world_get)
qed

text \<open>What holds of each account of a run, opened or synchronised, holds of the run.\<close>

lemma sync_accounts_steps:
  assumes "sync_accounts sh cfg flt dry as m e h = Some (me, h')"
    and refl: "\<And>h. R h h" and trans: "\<And>h1 h2 h3. R h1 h2 \<Longrightarrow> R h2 h3 \<Longrightarrow> R h1 h3"
    and opened: "\<And>a h x h1. a \<in> set as \<Longrightarrow> selected flt a \<Longrightarrow>
        open_account_db (os_env sh) (os_sqlite sh) cfg a h = (x, h1) \<Longrightarrow> R h h1"
    and synced: "\<And>a h h1 cl r w. a \<in> set as \<Longrightarrow> selected flt a \<Longrightarrow>
        open_account_db (os_env sh) (os_sqlite sh) cfg a h = (Inr (), h1) \<Longrightarrow>
        sync_account (os_env sh) (os_glob sh) cl a (os_elapsed sh) dry (account_world (db_path_of cfg a) h1)
          = Some (r, w) \<Longrightarrow> R h (put_account_world (db_path_of cfg a) w h1)"
  shows "R h h'"
  using assms(1) opened synced
proof (induction "as" arbitrary: m e h)
  case Nil
  then show ?case using refl by simp
next
  case (Cons a as)
  have rest: "R h2 h'" if "sync_accounts sh cfg flt dry as m' e' h2 = Some (me, h')" for m' e' h2
    by (rule Cons.IH [OF that]) (use Cons.prems(2,3) in auto)
  show ?case
  proof (cases "\<not> selected flt a \<or> mail a = None")
    case True
    with Cons.prems(1) rest show ?thesis by (auto split: if_splits)
  next
    case False
    obtain x h1 where op: "open_account_db (os_env sh) (os_sqlite sh) cfg a h = (x, h1)" by fastforce
    consider (skip) m' e' where "sync_accounts sh cfg flt dry as m' e' h1 = Some (me, h')"
      | (sync) cl r w m' e' where "x = Inr ()"
        "sync_account (os_env sh) (os_glob sh) cl a (os_elapsed sh) dry
           (account_world (db_path_of cfg a) h1) = Some (r, w)"
        "sync_accounts sh cfg flt dry as m' e' (put_account_world (db_path_of cfg a) w h1) = Some (me, h')"
      using Cons.prems(1) False op by (auto split: sum.splits option.splits prod.splits)
    then show ?thesis
    proof cases
      case skip
      show ?thesis by (rule trans [OF Cons.prems(2) rest [OF skip]]) (use op False in auto)
    next
      case sync
      show ?thesis by (rule trans [OF Cons.prems(3) rest [OF sync(3)]]) (use op sync(1,2) False in auto)
    qed
  qed
qed

lemma sync_accounts_dbs:
  assumes "sync_accounts sh cfg flt dry as m e h = Some (me, h')" and "dbs_ok h"
  shows "dbs_ok h' \<and> (\<forall>p. p \<notin> db_path_of cfg ` set (filter (selected flt) as) \<longrightarrow>
      map_of (hs_dbs h') p = map_of (hs_dbs h) p)"
proof -
  let ?D = "db_path_of cfg ` set (filter (selected flt) as)"
  let ?R = "\<lambda>h h'. dbs_ok h \<longrightarrow> dbs_ok h' \<and> (\<forall>p. p \<notin> ?D \<longrightarrow> map_of (hs_dbs h') p = map_of (hs_dbs h) p)"
  have "?R h h'"
  proof (rule sync_accounts_steps [OF assms(1), where R = ?R], goal_cases)
    case (3 a h x h1)
    with open_account_db_ok [OF 3(3)] open_account_db_dbs [OF 3(3)] show ?case by auto
  next
    case (4 a h h1 cl r w)
    with synced_account [OF 4(3,4)] show ?case by auto
  qed auto
  with assms(2) show ?thesis by blast
qed

text \<open>The counters: a matched account for each selected one, and no error without a failed pass.\<close>

lemma sync_accounts_counts:
  "sync_accounts sh cfg flt dry as m e h = Some ((m', e'), h') \<Longrightarrow>
   m' = m + length (filter (selected flt) as) \<and> e \<le> e' \<and> e' - e \<le> m' - m"
  by (induction "as" arbitrary: m e h)
     (fastforce split: if_splits sum.splits option.splits prod.splits)+

lemma sync_accounts_none:
  "filter (selected flt) as = [] \<Longrightarrow> sync_accounts sh cfg flt dry as m e h = Some ((m, e), h)"
  by (induction "as") (auto split: if_splits)

section \<open>A dry one-shot run\<close>

text \<open>
  What a host may gain when accounts are only opened: directories, and empty databases where
  there was none.
\<close>

definition only_opened :: "bool \<Rightarrow> host \<Rightarrow> host \<Rightarrow> bool" where
  "only_opened fk h h' \<longleftrightarrow>
     (\<forall>p. map_of (hs_dbs h') p = map_of (hs_dbs h) p
        \<or> map_of (hs_dbs h) p = None \<and> map_of (hs_dbs h') p = Some (empty_database fk))
   \<and> (\<forall>p. map_of (files (lk_world h')) p = map_of (files (lk_world h)) p
        \<or> map_of (files (lk_world h)) p = None \<and> map_of (files (lk_world h')) p = Some Dir)
   \<and> set_requests (lk_world h') = set_requests (lk_world h)"

lemma only_opened_refl [simp]: "only_opened fk h h"
  by (simp add: only_opened_def)

lemma only_opened_trans: "only_opened fk h1 h2 \<Longrightarrow> only_opened fk h2 h3 \<Longrightarrow> only_opened fk h1 h3"
  unfolding only_opened_def by metis

lemma make_account_dir_opened:
  assumes "(if p = [] then ret () else on_world (sys_create_dir_all v (butlast p))) h = (r, h')"
  shows "only_opened fk h h'"
  using assms
  by (auto simp: only_opened_def on_world_def sys_create_dir_all_def sys_def map_of_create_dir_all
      split: if_splits prod.splits option.splits)

lemma open_database_opened:
  "open_database v sq p h = (r, h') \<Longrightarrow> only_opened (sq_foreign_keys sq) h h'"
  by (auto simp: only_opened_def open_database_def split: if_splits option.splits sum.splits)

lemma open_account_db_opened:
  assumes "open_account_db v sq cfg a h = (r, h')"
  shows "only_opened (sq_foreign_keys sq) h h'"
proof (cases "(if db_path_of cfg a = [] then ret () else on_world (sys_create_dir_all v (butlast (db_path_of cfg a)))) h")
  case (Pair x h1)
  have "x = Inr () \<Longrightarrow> open_database v sq (db_path_of cfg a) h1 = (r, h')"
    and "(\<exists>e. x = Inl e) \<Longrightarrow> h1 = h'"
    using assms Pair by (auto simp: open_account_db_def bindE_run Let_def)
  with make_account_dir_opened [OF Pair] open_database_opened only_opened_trans show ?thesis
    by (metis obj_sumE unit.exhaust)
qed

lemma dry_account_opened:
  assumes "open_account_db v sq cfg a h = (Inr u, h1)"
    and "sync_account v' glob cl a elapsed True (account_world (db_path_of cfg a) h1) = Some (r, w)"
  shows "only_opened (sq_foreign_keys sq) h (put_account_world (db_path_of cfg a) w h1)"
proof -
  have "only_opened fk h1 (put_account_world (db_path_of cfg a) w h1)" for fk
    using sync_account_dry [OF assms(2)] open_account_db_there [OF assms(1)]
    by (auto simp: only_opened_def put_account_world_get) (auto simp: put_account_world_def account_world_def)
  with open_account_db_opened [OF assms(1)] show ?thesis by (rule only_opened_trans)
qed

lemma dry_accounts_opened:
  assumes "sync_accounts sh cfg flt True as m e h = Some (me, h')"
  shows "only_opened (sq_foreign_keys (os_sqlite sh)) h h'"
  by (rule sync_accounts_steps [OF assms])
     (auto intro: only_opened_trans open_account_db_opened dry_account_opened)

section \<open>The order of the actions\<close>

text \<open>
  The protocol of the event loop: a pass, then a connection attempt, then passes and notices
  while the stream is up, then a pause of at least a second before it starts again; after
  \<open>Stop\<close> there is nothing.
\<close>

datatype order_mode = Rested | Synced | Busy | Halted

fun protocol :: "order_mode \<Rightarrow> sse_action list \<Rightarrow> order_mode option" where
  "protocol m [] = Some m"
| "protocol Rested (SyncPass # as) = protocol Synced as"
| "protocol Synced (Connect i # as) = protocol Busy as"
| "protocol Busy (SyncPass # as) = protocol Busy as"
| "protocol Busy (Notice n # as) = protocol Busy as"
| "protocol Busy (Pause d # as) = (if secs 1 \<le> d then protocol Rested as else None)"
| "protocol Rested (Stop # as) = protocol Halted as"
| "protocol Busy (Stop # as) = protocol Halted as"
| "protocol _ _ = None"

lemma protocol_append:
  "protocol m (as @ bs) = Option.bind (protocol m as) (\<lambda>m'. protocol m' bs)"
  by (induction m "as" rule: protocol.induct) auto

lemma protocol_notices [simp]: "protocol Busy (map Notice ns) = Some Busy"
  by (induction ns) auto

fun order_mode_of :: "sse_phase \<Rightarrow> order_mode" where
  "order_mode_of Connecting = Rested"
| "order_mode_of Exited = Halted"
| "order_mode_of _ = Busy"

text \<open>The invariant of the state: the delays lie between a second and the cap.\<close>

definition sse_ok :: "sse_state \<Rightarrow> bool" where
  "sse_ok s \<longleftrightarrow> secs 5 \<le> rb_base (ss_backoff s) \<and> rb_base (ss_backoff s) \<le> rb_cap (ss_backoff s)
     \<and> secs 5 \<le> rb_next (ss_backoff s) \<and> rb_next (ss_backoff s) \<le> rb_cap (ss_backoff s)
     \<and> rb_cap (ss_backoff s) \<le> duration_max
     \<and> (case ss_phase s of Backoff d \<Rightarrow> secs 5 \<le> d \<and> d \<le> rb_cap (ss_backoff s) | _ \<Rightarrow> True)"

lemma sse_start_ok: "sse_ok (sse_start upper a w)"
  by (simp add: sse_ok_def sse_start_def new_backoff_def ACCOUNT_RETRY_BASE_def
      ACCOUNT_RETRY_CAP_def secs_def duration_max_def)

lemma back_off_ok:
  "sse_ok s \<Longrightarrow> back_off acts s = (os, s') \<Longrightarrow> sse_ok s' \<and> (\<exists>d. ss_phase s' = Backoff d)
     \<and> (\<exists>ns. os = acts @ map Notice ns) \<and> ss_world s' = ss_world s \<and> ss_last s' = ss_last s"
  by (auto simp: sse_ok_def back_off_def take_delay_def saturating_mul_def split: prod.splits)

lemma attempt_connect_ok:
  assumes "sse_ok s" and "attempt_connect a t c s = Some (os, s')"
  shows "sse_ok s' \<and> (ss_phase s' = Streaming \<or> (\<exists>d. ss_phase s' = Backoff d))
     \<and> (\<exists>ns. os = SyncPass # Connect (ss_last s) # map Notice ns) \<and> ss_last s' = ss_last s"
proof -
  obtain w where w: "sync_tick a t (ss_world s) = Some w"
    using assms(2) by (auto simp: attempt_connect_def)
  have ok: "sse_ok (s\<lparr>ss_world := w\<rparr>)"
    using assms(1) by (auto simp: sse_ok_def split: sse_phase.splits)
  show ?thesis
  proof (cases c)
    case True
    with assms w show ?thesis
      by (auto simp: attempt_connect_def sse_ok_def reset_backoff_def Let_def split: prod.splits)
  next
    case False
    with assms(2) w have "back_off [SyncPass, Connect (ss_last s)] (s\<lparr>ss_world := w\<rparr>) = (os, s')"
      by (simp add: attempt_connect_def)
    from back_off_ok [OF ok this] show ?thesis by auto
  qed
qed

lemma stream_sync_Some:
  "stream_sync a t s = Some (os, s') \<longleftrightarrow>
     (\<exists>w. sync_tick a t (ss_world s) = Some w \<and> os = [SyncPass] \<and> s' = s\<lparr>ss_world := w\<rparr>)"
  by (auto simp: stream_sync_def)

text \<open>The kinds of steps that there are.\<close>

lemma sse_step_cases:
  assumes "sse_step a watched i s = Some (os, s')"
  obtains (stop) "os = [Stop]" "s' = s\<lparr>ss_phase := Exited\<rparr>" "ss_phase s \<noteq> Exited"
      "i = Shutdown \<or> (\<exists>waited. i = Waited Cancelled waited)"
    | (attempt) t c where "i = Attempt t c" "ss_phase s = Connecting" "attempt_connect a t c s = Some (os, s')"
    | (rest) d net waited delay where "os = [Pause d]" "s' = s\<lparr>ss_phase := Connecting\<rparr>" "i = Waited net waited"
      "net \<noteq> Cancelled" "ss_phase s = Backoff delay" "d = waited + (delay - waited)"
    | (slept) "i = Slept" "os = [Pause SSE_STREAM_DROP_BACKOFF]" "s' = s\<lparr>ss_phase := Connecting\<rparr>"
      "ss_phase s = Dropped"
    | (pass) t l where "os = [SyncPass]" "ss_phase s = Streaming" "stream_sync a t (s\<lparr>ss_last := l\<rparr>) = Some (os, s')"
      "(i = PollTick t \<or> i = WatchTick t) \<and> l = ss_last s
        \<or> (\<exists>e. i = StateChange e t \<and> l = (if e = None then ss_last s else e))"
    | (ignored) "i = CalendarAlert" "os = []" "s' = s" "ss_phase s = Streaming"
    | (broken) "i = StreamError" "back_off [] s = (os, s')" "ss_phase s = Streaming"
    | (ended) "i = StreamEnd" "os = []" "s' = s\<lparr>ss_phase := Dropped\<rparr>" "ss_phase s = Streaming"
proof (cases i)
  case Shutdown
  with assms stop show ?thesis by (auto split: if_splits)
next
  case (Attempt t c)
  with assms attempt show ?thesis by (auto split: if_splits)
next
  case (Waited net waited)
  then obtain delay where d: "ss_phase s = Backoff delay"
    using assms by (auto split: sse_phase.splits)
  show ?thesis
  proof (cases "net = Cancelled")
    case True
    with assms Waited d stop show ?thesis by (auto simp: wait_for_connectivity_or_delay_def)
  next
    case False
    with assms Waited d rest show ?thesis
      by (cases net) (auto simp: wait_for_connectivity_or_delay_def)
  qed
next
  case Slept
  with assms slept show ?thesis by (auto split: if_splits)
next
  case (PollTick t)
  with assms show ?thesis
    by (intro pass [of t "ss_last s"]) (auto simp: stream_sync_Some split: if_splits)
next
  case (WatchTick t)
  with assms show ?thesis
    by (intro pass [of t "ss_last s"]) (auto simp: stream_sync_Some split: if_splits)
next
  case (StateChange e t)
  with assms show ?thesis
    by (intro pass [of t "if e = None then ss_last s else e"])
       (auto simp: stream_sync_Some split: if_splits option.splits)
next
  case CalendarAlert
  with assms ignored show ?thesis by (auto split: if_splits)
next
  case StreamError
  with assms broken show ?thesis by (auto split: if_splits)
next
  case StreamEnd
  with assms ended show ?thesis by (auto split: if_splits)
qed

lemma sse_step_ok:
  assumes "sse_ok s" and "sse_step a watched i s = Some (os, s')"
  shows "sse_ok s'"
  using assms(2)
proof (cases rule: sse_step_cases)
  case (attempt t c)
  from attempt_connect_ok [OF assms(1) this(3)] show ?thesis by simp
next
  case broken
  from back_off_ok [OF assms(1) this(2)] show ?thesis by simp
qed (use assms(1) in \<open>auto simp: sse_ok_def stream_sync_Some split: sse_phase.splits\<close>)

text \<open>A pause is as long as the delay that was taken, also when the wait for the network took a part of it.\<close>

lemma sse_step_protocol:
  assumes "sse_ok s" and "sse_step a watched i s = Some (os, s')"
  shows "protocol (order_mode_of (ss_phase s)) os = Some (order_mode_of (ss_phase s'))"
  using assms(2)
proof (cases rule: sse_step_cases)
  case stop
  then show ?thesis by (cases "ss_phase s") auto
next
  case (attempt t c)
  from attempt_connect_ok [OF assms(1) this(3)] attempt(2) show ?thesis by auto
next
  case (rest d net waited delay)
  then have "secs 5 \<le> d" using assms(1) by (auto simp: sse_ok_def)
  with rest show ?thesis by (simp add: secs_def)
next
  case broken
  from back_off_ok [OF assms(1) this(2)] broken(3) show ?thesis by auto
qed (auto simp: stream_sync_Some SSE_STREAM_DROP_BACKOFF_def)

interpretation event_loop: ordered_machine "sse_step a watched" sse_ok "\<lambda>s. order_mode_of (ss_phase s)" protocol
  by unfold_locales
     (auto intro: sse_step_ok sse_step_protocol simp: protocol_append)

section \<open>Notices of the event loop\<close>

definition notices_of :: "sse_action list \<Rightarrow> notice list" where
  "notices_of os = List.map_filter (\<lambda>x. case x of Notice n \<Rightarrow> Some (fst n) | _ \<Rightarrow> None) os"

lemma notices_of_simps [simp]:
  "notices_of [] = []" "notices_of (SyncPass # os) = notices_of os"
  "notices_of (Connect i # os) = notices_of os" "notices_of (Pause d # os) = notices_of os"
  "notices_of (Stop # os) = notices_of os" "notices_of (Notice n # os) = fst n # notices_of os"
  by (simp_all add: notices_of_def List.map_filter_simps)

lemma notices_of_append [simp]: "notices_of (xs @ ys) = notices_of xs @ notices_of ys"
  by (simp add: notices_of_def map_filter_def)

lemma notices_of_map [simp]: "notices_of (map Notice ns) = map fst ns"
  by (induction ns) simp_all

lemma back_off_notices:
  "back_off acts s = (os, s') \<Longrightarrow> notices_of acts = [] \<Longrightarrow>
   follow (fn_failed (ss_notifier s)) (notices_of os) = Some (fn_failed (ss_notifier s'))"
  by (auto simp: back_off_def notify_failed_def take_delay_def split: if_splits)

lemma attempt_connect_notices:
  assumes "attempt_connect a t c s = Some (os, s')"
  shows "follow (fn_failed (ss_notifier s)) (notices_of os) = Some (fn_failed (ss_notifier s'))"
proof -
  obtain w where w: "sync_tick a t (ss_world s) = Some w"
    using assms by (auto simp: attempt_connect_def)
  show ?thesis
  proof (cases c)
    case True
    with assms w show ?thesis
      by (auto simp: attempt_connect_def notify_recovered_def split: if_splits)
  next
    case False
    with assms w have "back_off [SyncPass, Connect (ss_last s)] (s\<lparr>ss_world := w\<rparr>) = (os, s')"
      by (simp add: attempt_connect_def)
    from back_off_notices [OF this] show ?thesis by simp
  qed
qed

lemma sse_step_notices:
  assumes "sse_step a watched i s = Some (os, s')"
  shows "follow (fn_failed (ss_notifier s)) (notices_of os) = Some (fn_failed (ss_notifier s'))"
  using assms
proof (cases rule: sse_step_cases)
  case (attempt t c)
  from attempt_connect_notices [OF this(3)] show ?thesis .
next
  case broken
  from back_off_notices [OF this(2)] show ?thesis by simp
qed (auto simp: stream_sync_Some)

interpretation notice_order: ordered_machine "sse_step a watched" "\<lambda>_. True"
  "\<lambda>s. fn_failed (ss_notifier s)" "\<lambda>d os. follow d (notices_of os)"
  by unfold_locales (auto intro: sse_step_notices simp: follow_append)

section \<open>The position in the event stream\<close>

text \<open>The identifier of the last change that carried one.\<close>

definition event_id :: "sse_input \<Rightarrow> string option" where
  "event_id i = (case i of StateChange e _ \<Rightarrow> e | _ \<Rightarrow> None)"

fun last_event :: "string option \<Rightarrow> sse_input list \<Rightarrow> string option" where
  "last_event l [] = l"
| "last_event l (i # js) = last_event (case event_id i of None \<Rightarrow> l | Some e \<Rightarrow> Some e) js"

lemma sse_step_last:
  assumes "sse_step a watched i s = Some (os, s')"
  shows "ss_last s' = (case event_id i of None \<Rightarrow> ss_last s | Some e \<Rightarrow> Some e)"
  using assms
proof (cases rule: sse_step_cases)
  case (attempt t c)
  then show ?thesis
    by (auto simp: attempt_connect_def back_off_def Let_def event_id_def split: if_splits prod.splits)
next
  case (pass t l)
  then show ?thesis
    by (auto simp: stream_sync_Some event_id_def split: if_splits option.splits)
next
  case broken
  then show ?thesis by (auto simp: back_off_def event_id_def split: prod.splits)
qed (auto simp: event_id_def)

lemma run_last:
  "run_machine (sse_step a watched) is s = Some (os, s') \<Longrightarrow> ss_last s' = last_event (ss_last s) is"
proof (induction "is" arbitrary: s os)
  case (Cons i js)
  then obtain os1 s1 os2 where "sse_step a watched i s = Some (os1, s1)"
    "run_machine (sse_step a watched) js s1 = Some (os2, s')" by (auto simp only: run_machine_Cons)
  with Cons.IH show ?case by (simp add: sse_step_last)
qed simp

section \<open>Passes on the database\<close>

lemma sync_tick_db_wf: "sync_tick a t w = Some w' \<Longrightarrow> db_wf (db w) \<Longrightarrow> db_wf (db w')"
  by (auto simp: sync_tick_def intro: sync_account_db_wf)

lemma sse_step_db_wf:
  assumes "db_wf (db (ss_world s))" and "sse_step a watched i s = Some (os, s')"
  shows "db_wf (db (ss_world s'))"
  using assms(2)
proof (cases rule: sse_step_cases)
  case (attempt t c)
  then show ?thesis using sync_tick_db_wf assms(1)
    by (auto simp: attempt_connect_def back_off_def Let_def split: if_splits prod.splits)
next
  case (pass t l)
  then show ?thesis using sync_tick_db_wf assms(1) by (auto simp: stream_sync_Some)
next
  case broken
  then show ?thesis using assms(1) by (auto simp: back_off_def split: prod.splits)
qed (use assms(1) in auto)

section \<open>Supervision\<close>

text \<open>Failed setups in a row, each with the wait that follows it.\<close>

fun setup_failures :: "(network_wait \<times> nat) list \<Rightarrow> supervisor_input list" where
  "setup_failures [] = []"
| "setup_failures ((net, waited) # ws) = ClientFailed # SetupWaited net waited # setup_failures ws"

lemma setup_failures_run:
  assumes "\<forall>(net, waited)\<in>set ws. net \<noteq> Cancelled"
  shows "\<exists>os n'. run_machine (supervisor_step upper a watched) (setup_failures ws) (SettingUp b n w)
      = Some (os, SettingUp (snd (take_delays (length ws) b)) n' w)
    \<and> [d. SetupPause d \<leftarrow> os] = map2 (\<lambda>(net, waited) d. waited + (d - waited)) ws (fst (take_delays (length ws) b))
    \<and> SpawnSubmit \<notin> set os"
  using assms
proof (induction ws arbitrary: b n)
  case Nil
  then show ?case by simp
next
  case (Cons nw ws)
  obtain net waited where nw: "nw = (net, waited)" by force
  obtain delay b' where td: "take_delay b = (delay, b')" by force
  obtain ns n1 where nf: "notify_failed n = (ns, n1)" by force
  have go: "wait_for_connectivity_or_delay net delay waited False = (delay - waited, True)"
    using Cons.prems nw by (cases net) (auto simp: wait_for_connectivity_or_delay_def)
  obtain ds b2 where tds: "take_delays (length ws) b' = (ds, b2)" by force
  from Cons.IH [of b' n1] Cons.prems obtain os n' where
    run: "run_machine (supervisor_step upper a watched) (setup_failures ws) (SettingUp b' n1 w)
      = Some (os, SettingUp b2 n' w)"
    and ps: "[d. SetupPause d \<leftarrow> os] = map2 (\<lambda>(net, waited) d. waited + (d - waited)) ws ds"
    and no: "SpawnSubmit \<notin> set os"
    by (auto simp: tds)
  have notices: "[d. SetupPause d \<leftarrow> map SetupNotice ns] = []" by (induction ns) simp_all
  let ?os = "map SetupNotice ns @ SetupPause (waited + (delay - waited)) # os"
  have "run_machine (supervisor_step upper a watched) (setup_failures (nw # ws)) (SettingUp b n w)
      = Some (?os, SettingUp b2 n' w)"
    by (simp add: nw td nf go run)
  moreover have "snd (take_delays (length (nw # ws)) b) = b2" by (simp add: td tds)
  moreover have "[d. SetupPause d \<leftarrow> ?os]
      = map2 (\<lambda>(net, waited) d. waited + (d - waited)) (nw # ws) (fst (take_delays (length (nw # ws)) b))"
    using ps notices by (simp add: nw td tds)
  moreover have "SpawnSubmit \<notin> set ?os" using no by auto
  ultimately show ?case by blast
qed

end
