(* ===== verification/Command_Line.thy ===== *)
theory Command_Line
  imports Daemon Config
begin

text \<open>
  \<open>args.rs\<close> and \<open>bin/jmapsyncd.rs\<close>: the arguments as clap delivers them, and what the program
  does with them. A daemon that has started runs until a signal; what its tasks do is the matter
  of their machines.
\<close>

datatype command = SyncCommand "string option" | DaemonCommand

record args =
  arg_config_file :: "string option"
  arg_log_level :: "log_level option"
  arg_db_dir :: "string option"
  arg_dry_run :: bool
  arg_command :: "command option"

definition overrides_of :: "args \<Rightarrow> overrides" where
  "overrides_of a = \<lparr>override_db_dir = arg_db_dir a\<rparr>"

text \<open>\<open>None\<close>: the filter of the environment stays.\<close>

definition log_filter :: "args \<Rightarrow> level_filter option" where
  "log_filter a = map_option level_filter_of (arg_log_level a)"

definition default_command :: command where "default_command = DaemonCommand"

datatype program_end = Exits nat | DaemonRuns "account list"

definition jmapsyncd_main ::
    "one_shot \<Rightarrow> surroundings \<Rightarrow> nat \<Rightarrow> err option \<Rightarrow> path option \<Rightarrow> args \<Rightarrow> host \<Rightarrow> (program_end \<times> host) option" where
  "jmapsyncd_main sh sur pid flock_error state_dir a h =
     (case load_config sur (arg_config_file a) (overrides_of a) of
        Inl _ \<Rightarrow> Some (Exits 1, h)
      | Inr cfg \<Rightarrow>
          (case (case arg_command a of Some c \<Rightarrow> c | None \<Rightarrow> default_command) of
             SyncCommand account \<Rightarrow>
               map_option (\<lambda>(r, h'). (Exits (case r of Inl _ \<Rightarrow> 1 | Inr _ \<Rightarrow> 0), h'))
                 (run_sync_once sh cfg account (arg_dry_run a) h)
           | DaemonCommand \<Rightarrow>
               (case run_daemon (os_env sh) (os_sqlite sh) pid flock_error state_dir cfg h of
                  (Inl _, h') \<Rightarrow> Some (Exits 1, h')
                | (Inr spawned, h') \<Rightarrow> Some (DaemonRuns spawned, h'))))"

end
