(* ===== verification/Maildir_Watch.thy ===== *)
theory Maildir_Watch
  imports Prelude
begin

text \<open>
  The Maildir watcher of \<open>daemon/mod.rs\<close>: which file events count, and the debouncing task that
  turns a burst of them into one tick of the event loop. Events carry the times at which they
  reach the task; the loop takes its ticks without delay.
\<close>

datatype change_kind = CreateKind | ModifyKind | RemoveKind | AccessKind | AnyKind | OtherKind

definition MAILDIR_DEBOUNCE :: nat where "MAILDIR_DEBOUNCE = 500000000"

definition counts :: "change_kind \<Rightarrow> bool" where
  "counts k \<longleftrightarrow> k \<in> {CreateKind, ModifyKind, RemoveKind}"

text \<open>The first event of a burst starts the wait; what has come by its end is drained.\<close>

function maildir_ticks :: "nat \<Rightarrow> nat list \<Rightarrow> nat list" where
  "maildir_ticks d [] = []"
| "maildir_ticks d (t # ts) = (t + d) # maildir_ticks d (dropWhile (\<lambda>u. u \<le> t + d) ts)"
  by pat_completeness auto
termination
  by (relation "measure (\<lambda>(d, ts). length ts)") (auto simp: length_dropWhile_le le_imp_less_Suc)

definition watch_ticks :: "nat \<Rightarrow> (nat \<times> change_kind) list \<Rightarrow> nat list" where
  "watch_ticks debounce evs = maildir_ticks debounce (map fst (filter (\<lambda>(_, k). counts k) evs))"

section \<open>Covering and spacing\<close>

lemma dropWhile_sorted: "sorted ts \<Longrightarrow> u \<in> set ts \<Longrightarrow> u \<notin> set (dropWhile (\<lambda>u. u \<le> (b::nat)) ts) \<Longrightarrow> u \<le> b"
  by (induction ts) (auto split: if_splits)

lemma sorted_rest: "sorted ts \<Longrightarrow> sorted (dropWhile P ts)"
  by (simp add: sorted_wrt_drop dropWhile_eq_drop)

lemma maildir_ticks_cover:
  "sorted ts \<Longrightarrow> t \<in> set ts \<Longrightarrow> \<exists>u\<in>set (maildir_ticks d ts). t \<le> u \<and> u \<le> t + d"
proof (induction d ts rule: maildir_ticks.induct)
  case (2 d t0 ts)
  let ?rest = "dropWhile (\<lambda>u. u \<le> t0 + d) ts"
  have sorted: "sorted ts" using "2.prems"(1) by simp
  show ?case
  proof (cases "t \<in> set ?rest")
    case True
    from "2.IH" [OF sorted_rest [OF sorted] True] show ?thesis by auto
  next
    case False
    with "2.prems" dropWhile_sorted [OF sorted _ False] have "t0 \<le> t \<and> t \<le> t0 + d" by auto
    then show ?thesis by auto
  qed
qed simp

lemma maildir_ticks_later: "u \<in> set (maildir_ticks d ts) \<Longrightarrow> \<exists>t\<in>set ts. u = t + d"
  by (induction d ts rule: maildir_ticks.induct) (auto dest: set_dropWhileD)

lemma sorted_after_dropWhile:
  "sorted ts \<Longrightarrow> t \<in> set (dropWhile (\<lambda>u. u \<le> (b::nat)) ts) \<Longrightarrow> b < t"
  by (induction ts) (auto split: if_splits)

lemma maildir_ticks_spaced: "sorted ts \<Longrightarrow> sorted_wrt (\<lambda>u v. u + d < v) (maildir_ticks d ts)"
proof (induction d ts rule: maildir_ticks.induct)
  case (2 d t ts)
  let ?rest = "dropWhile (\<lambda>u. u \<le> t + d) ts"
  have sorted: "sorted ts" using "2.prems" by simp
  have "t + d + d < v" if v: "v \<in> set (maildir_ticks d ?rest)" for v
  proof -
    obtain x where "x \<in> set ?rest" "v = x + d" using maildir_ticks_later [OF v] by blast
    with sorted_after_dropWhile [OF sorted] show ?thesis by simp
  qed
  with "2.IH" [OF sorted_rest [OF sorted]] show ?case by simp
qed simp

end
