(* ===== verification/Daemon_Properties.thy ===== *)
theory Daemon_Properties
  imports Daemon_Facts Command_Line Maildir_Watch Sync_Properties
begin

text \<open>
  The properties of the daemon's tasks and of the one-shot command: the order in which the event
  loop acts, its notifications, the position from which it resumes the event stream, the retries
  of the supervisor, the databases a run may touch, the ticks of the Maildir watcher, and the lock
  against a second daemon.
\<close>

section \<open>Sample runs\<close>

definition calm_tick :: tick where
  "calm_tick = \<lparr>tk_env = quiet_env, tk_glob = no_globs, tk_client = small_client, tk_elapsed = 5\<rparr>"

lemma calm_tick_runs: "sync_tick tree_account calm_tick fresh_world = Some fresh_world"
proof -
  obtain r where "sync_account quiet_env no_globs small_client tree_account 5 False fresh_world
      = Some (r, fresh_world)" using empty_view_run by blast
  then show ?thesis by (simp add: sync_tick_def calm_tick_def)
qed

text \<open>
  A connection that is refused, the wait, a connection that holds, an event, a stream error, and
  the wait after it.
\<close>

definition bumpy_inputs :: "sse_input list" where
  "bumpy_inputs =
     [Attempt calm_tick False, Waited Online 2, Attempt calm_tick True,
      StateChange (Some ''e1'') calm_tick, StateChange None calm_tick, StreamError, Waited Unavailable 60]"

definition bumpy_actions :: "sse_action list" where
  "bumpy_actions =
     [SyncPass, Connect None, Notice (Down, ''A eMail Down'', ''H server is unreachable.''),
      Pause (secs 5), SyncPass, Connect None, Notice (Up, ''A eMail Up'', ''H server is reachable.''),
      SyncPass, SyncPass, Notice (Down, ''A eMail Down'', ''H server is unreachable.''),
      Pause (secs 5)]"

definition to_upper :: "nat \<Rightarrow> nat list" where
  "to_upper n = [if 97 \<le> n \<and> n \<le> 122 then n - 32 else n]"

lemma tree_notifier:
  "new_notifier to_upper (acct_name tree_account) (jmap_host tree_account)
    = \<lparr>fn_account = ''A'', fn_server = ''H'', fn_failed = False\<rparr>"
  by code_simp

lemma bumpy_run:
  "\<exists>s. run_machine (sse_step tree_account True) bumpy_inputs (sse_start to_upper tree_account fresh_world)
      = Some (bumpy_actions, s) \<and> ss_phase s = Connecting \<and> ss_world s = fresh_world"
  unfolding bumpy_inputs_def bumpy_actions_def sse_start_def tree_notifier
  by (simp add: attempt_connect_def calm_tick_runs back_off_def stream_sync_def notify_failed_def
      notify_recovered_def new_backoff_def take_delay_def reset_backoff_def saturating_mul_def
      wait_for_connectivity_or_delay_def ACCOUNT_RETRY_BASE_def ACCOUNT_RETRY_CAP_def secs_def duration_max_def Let_def)

section \<open>The event loop\<close>



text \<open>
  Notifications of the event loop alternate, beginning with "Down": a user sees one notice
  for each change, however many attempts fail in a row and whether it is the connection or the
  stream that failed.
\<close>

lemma loop_notices_alternate:
  assumes "run_machine (sse_step a watched) is (sse_start upper a w) = Some (os, s)"
  shows "alternating Down (notices_of os)"
  using follow_alternating [OF notice_order.run_tracked [OF _ assms]]
  by (simp add: sse_start_def new_notifier_def)

lemma loop_notices_alternate_witness:
  "notices_of bumpy_actions = [Down, Up, Down] \<and> alternating Down (notices_of bumpy_actions)"
proof -
  obtain s where s: "run_machine (sse_step tree_account True) bumpy_inputs
      (sse_start to_upper tree_account fresh_world) = Some (bumpy_actions, s)"
    using bumpy_run by blast
  have "notices_of bumpy_actions = [Down, Up, Down]" by (simp add: bumpy_actions_def)
  with loop_notices_alternate [OF s] show ?thesis by blast
qed

text \<open>
  C21: Every connection attempt resumes the event stream where it was left: after any run it asks
  for the events since the identifier of the last state change that carried one, also across
  failures, reconnections and changes without an identifier, and it synchronises first, so that
  nothing is missed while the stream was down.
\<close>

theorem reconnect_resumes_stream:
  assumes "run_machine (sse_step a watched) (is @ [Attempt t c]) (sse_start upper a w) = Some (os, s)"
  shows "\<exists>pre ns. os = pre @ SyncPass # Connect (last_event None is) # map Notice ns"
proof -
  obtain pre s1 os2 where run: "run_machine (sse_step a watched) is (sse_start upper a w) = Some (pre, s1)"
    and step: "sse_step a watched (Attempt t c) s1 = Some (os2, s)" and os: "os = pre @ os2"
    using assms unfolding run_machine_snoc by blast
  have "attempt_connect a t c s1 = Some (os2, s)" using step by (simp split: if_splits)
  with attempt_connect_ok [OF event_loop.run_ok [OF sse_start_ok run]]
  obtain ns where "os2 = SyncPass # Connect (ss_last s1) # map Notice ns" by blast
  moreover have "ss_last s1 = last_event None is"
    using run_last [OF run] by (simp add: sse_start_def)
  ultimately show ?thesis using os by auto
qed

theorem reconnect_resumes_stream_witness:
  "\<exists>os s pre ns. run_machine (sse_step tree_account True) (bumpy_inputs @ [Attempt calm_tick True])
      (sse_start to_upper tree_account fresh_world) = Some (os, s)
    \<and> os = pre @ SyncPass # Connect (Some ''e1'') # map Notice ns"
proof -
  obtain s where s: "run_machine (sse_step tree_account True) bumpy_inputs
      (sse_start to_upper tree_account fresh_world) = Some (bumpy_actions, s)" "ss_phase s = Connecting" "ss_world s = fresh_world"
    using bumpy_run by blast
  obtain os2 s2 where "sse_step tree_account True (Attempt calm_tick True) s = Some (os2, s2)"
    using s(2,3) by (cases "notify_recovered (ss_notifier s)") (auto simp: attempt_connect_def calm_tick_runs)
  then have run: "run_machine (sse_step tree_account True) (bumpy_inputs @ [Attempt calm_tick True])
      (sse_start to_upper tree_account fresh_world) = Some (bumpy_actions @ os2, s2)"
    using s(1) by (simp add: run_machine_append del: sse_step.simps)
  have "last_event None bumpy_inputs = Some ''e1''"
    by (simp add: bumpy_inputs_def event_id_def)
  with reconnect_resumes_stream [OF run] run show ?thesis by auto
qed

section \<open>The supervisor\<close>

text \<open>
  C19: The supervisor keeps trying until a client is set up: after any number of failed setups
  and completed waits, the next setup that succeeds starts the event loop, and the submit task
  once if the account has a submit section, never before. The \<open>k\<close>-th wait lasts five seconds
  doubled \<open>k\<close> times, at most five minutes, or as long as the network was waited for if that is
  longer.
\<close>

theorem supervisor_retries_until_client:
  assumes "\<forall>(net, waited)\<in>set ws. net \<noteq> Cancelled"
  shows "\<exists>os. run_machine (supervisor_step upper a watched) (setup_failures ws @ [ClientReady])
        (supervisor_start upper a w) = Some (os, Supervising (sse_start upper a w))
      \<and> [d. SetupPause d \<leftarrow> os]
          = map2 (\<lambda>(net, waited) k. max waited (min (secs 5 * 2 ^ k) (secs 300))) ws [0..<length ws]
      \<and> length [() . SpawnSubmit \<leftarrow> os] = (if submit a = None then 0 else 1)"
proof -
  let ?b = "new_backoff ACCOUNT_RETRY_BASE ACCOUNT_RETRY_CAP"
  let ?n = "new_notifier upper (acct_name a) (jmap_host a)"
  have b: "fst (take_delays (length ws) ?b) = map (\<lambda>k. min (secs 5 * 2 ^ k) (secs 300)) [0..<length ws]"
    by (simp add: take_delays_next new_backoff_def ACCOUNT_RETRY_BASE_def ACCOUNT_RETRY_CAP_def
        secs_def duration_max_def)
  have pause: "waited + (d - waited) = max waited d" for waited d :: nat by simp
  have spawns: "[() . SpawnSubmit \<leftarrow> xs] = []" if "SpawnSubmit \<notin> set xs" for xs
    using that by (induction xs) (auto split: supervisor_action.splits)
  obtain os n' where run: "run_machine (supervisor_step upper a watched) (setup_failures ws)
        (supervisor_start upper a w) = Some (os, SettingUp (snd (take_delays (length ws) ?b)) n' w)"
      and ps: "[d. SetupPause d \<leftarrow> os]
        = map2 (\<lambda>(net, waited) d. waited + (d - waited)) ws (fst (take_delays (length ws) ?b))"
      and no: "SpawnSubmit \<notin> set os"
    using setup_failures_run [OF assms, of upper a watched ?b ?n w] by (auto simp: supervisor_start_def)
  obtain ns n1 where nr: "notify_recovered n' = (ns, n1)" by force
  let ?last = "map SetupNotice ns @ (if submit a = None then [] else [SpawnSubmit])"
  have "run_machine (supervisor_step upper a watched) (setup_failures ws @ [ClientReady])
      (supervisor_start upper a w) = Some (os @ ?last, Supervising (sse_start upper a w))"
    unfolding run_machine_snoc using run nr by auto
  moreover have "[d. SetupPause d \<leftarrow> os @ ?last] = [d. SetupPause d \<leftarrow> os]"
    by (induction ns) simp_all
  then have "[d. SetupPause d \<leftarrow> os @ ?last]
      = map2 (\<lambda>(net, waited) k. max waited (min (secs 5 * 2 ^ k) (secs 300))) ws [0..<length ws]"
    unfolding ps b pause by (simp add: zip_map2 case_prod_unfold comp_def)
  moreover have "length [() . SpawnSubmit \<leftarrow> os @ ?last] = (if submit a = None then 0 else 1)"
    using spawns [OF no] spawns [of "map SetupNotice ns"] by auto
  ultimately show ?thesis by blast
qed

definition submitting_account :: account where
  "submitting_account = tree_account\<lparr>submit := Some \<lparr>from_address = ''a@h'', identity_id = None,
     scheduled_folder = Auto, retry_base_secs = 30, retry_cap_secs = 7200\<rparr>\<rparr>"

theorem supervisor_retries_until_client_witness:
  "\<exists>os. run_machine (supervisor_step to_upper submitting_account True)
      (setup_failures [(Online, 1), (Unavailable, secs 60)] @ [ClientReady])
      (supervisor_start to_upper submitting_account fresh_world)
        = Some (os, Supervising (sse_start to_upper submitting_account fresh_world))
    \<and> [d. SetupPause d \<leftarrow> os] = [secs 5, secs 60] \<and> length [() . SpawnSubmit \<leftarrow> os] = 1"
proof -
  have "\<forall>(net, waited)\<in>set [(Online, 1), (Unavailable, secs 60)]. net \<noteq> Cancelled" by simp
  from supervisor_retries_until_client [OF this, of to_upper submitting_account True fresh_world]
  show ?thesis by (simp add: submitting_account_def secs_def upt_rec)
qed

section \<open>The one-shot command\<close>

definition one_account :: config where
  "one_account = \<lparr>db_dir = ''/db'', accounts = [tree_account\<lparr>acct_name := ''b'', enabled := False\<rparr>, tree_account]\<rparr>"

definition calm_shot :: one_shot where
  "calm_shot =
     \<lparr>os_env = quiet_env,
      os_sqlite = \<lparr>sq_configure = (\<lambda>_. None), sq_integrity = (\<lambda>_. Inr ''ok''), sq_migrate = (\<lambda>_. None),
                   sq_foreign_keys = True\<rparr>,
      os_tokens = \<lparr>token_file = (\<lambda>_. Inl (Refused ''no'')), token_cmd = (\<lambda>_. Inl (Refused ''no''))\<rparr>,
      os_connect = (\<lambda>_. Inr small_client), os_glob = no_globs, os_elapsed = 5\<rparr>"

definition bare_host :: host where
  "bare_host = \<lparr>lk_world = fresh_world\<lparr>files := []\<rparr>, lk_held = [], hs_dbs = [([''x''], empty_database True)]\<rparr>"

definition opened_host :: host where
  "opened_host = \<lparr>lk_world = fresh_world\<lparr>files := [([''db''], Dir)]\<rparr>, lk_held = [],
     hs_dbs = [([''db'', ''a.sqlite''], empty_database True), ([''x''], empty_database True)]\<rparr>"

lemma sample_path: "db_path_of one_account tree_account = [''db'', ''a.sqlite'']"
  by (simp add: db_path_of_def one_account_def tree_account_def join_path_def)

lemma sample_selected: "filter (selected None) (accounts one_account) = [tree_account]"
  by (simp add: one_account_def selected_def tree_account_def)

lemma sample_opening:
  "open_account_db quiet_env (os_sqlite calm_shot) one_account tree_account bare_host = (Inr (), opened_host)"
  unfolding open_account_db_def sample_path
  by (simp add: open_database_def configure_def integrity_check_def on_world_def run_simps calm_shot_def bare_host_def opened_host_def upt_rec)

lemma sample_sync:
  "\<exists>t. sync_account quiet_env no_globs small_client tree_account 5 dry
     (account_world [''db'', ''a.sqlite''] opened_host) = Some (Inr t, account_world [''db'', ''a.sqlite''] opened_host)"
  by (rule quiet_run) (simp add: account_world_def opened_host_def)

lemma sample_client:
  "client_from_account (os_tokens calm_shot) (os_connect calm_shot) tree_account = Inr small_client"
  by (simp add: client_from_account_def resolve_token_def tree_account_def endpoint_url_def
      extract_host_def prefix_def calm_shot_def)

lemma sample_put:
  "put_account_world [''db'', ''a.sqlite''] (account_world [''db'', ''a.sqlite''] opened_host) opened_host = opened_host"
  by (simp add: put_account_world_def account_world_def opened_host_def fresh_world_def)

lemma calm_shot_run: "run_sync_once calm_shot one_account None dry bare_host = Some (Inr (), opened_host)"
proof -
  have "accounts one_account = [tree_account\<lparr>acct_name := ''b'', enabled := False\<rparr>, tree_account]"
    by (simp add: one_account_def)
  moreover have "selected None tree_account" "\<not> selected None (tree_account\<lparr>acct_name := ''b'', enabled := False\<rparr>)"
    "mail tree_account \<noteq> None" by (simp_all add: selected_def tree_account_def)
  moreover have "os_env calm_shot = quiet_env" "os_glob calm_shot = no_globs" "os_elapsed calm_shot = 5"
    by (simp_all add: calm_shot_def)
  ultimately show ?thesis
    using sample_opening sample_sync [of dry] sample_client sample_put
    by (auto simp: run_sync_once_def sample_path)
qed

text \<open>
  C16: The one-shot command touches the databases of the accounts it selects and no other, keeps
  the integrity of all of them, and succeeds only if it selected an account; when no account is
  selected it fails and has done nothing.
\<close>

theorem one_shot_touches_selected:
  assumes "run_sync_once sh cfg flt dry h = Some (r, h')" and "dbs_ok h"
  shows "dbs_ok h'
    \<and> (\<forall>p. p \<notin> db_path_of cfg ` set (filter (selected flt) (accounts cfg)) \<longrightarrow>
         map_of (hs_dbs h') p = map_of (hs_dbs h) p)
    \<and> (filter (selected flt) (accounts cfg) = [] \<longrightarrow> (\<exists>msg. r = Inl (Refused msg)) \<and> h' = h)"
proof -
  obtain m e where run: "sync_accounts sh cfg flt dry (accounts cfg) 0 0 h = Some ((m, e), h')"
    and r: "r = (if m = 0 then Inl (Refused (if flt = None then ''no enabled accounts to sync''
                                   else ''no enabled account of this name''))
                else if e > 0 then Inl (Refused (show_nat e @ '' account sync(s) failed'')) else Inr ())"
    using assms(1) by (auto simp: run_sync_once_def split: option.splits)
  have "m = 0 \<and> h' = h" if "filter (selected flt) (accounts cfg) = []"
    using run that by (simp add: sync_accounts_none)
  with sync_accounts_dbs [OF run assms(2)] r show ?thesis by auto
qed

theorem one_shot_touches_selected_witness:
  "run_sync_once calm_shot one_account None False bare_host = Some (Inr (), opened_host)
    \<and> map_of (hs_dbs opened_host) [''x''] = map_of (hs_dbs bare_host) [''x''] \<and> dbs_ok opened_host"
proof -
  have "dbs_ok bare_host" by (simp add: dbs_ok_def bare_host_def)
  moreover have "[''x''] \<notin> db_path_of one_account ` set (filter (selected None) (accounts one_account))"
    by (simp add: sample_selected sample_path)
  ultimately show ?thesis
    using one_shot_touches_selected [OF calm_shot_run] calm_shot_run by blast
qed

text \<open>
  C22: The one-shot command with \<open>--dry-run\<close> changes no message, no row and nothing on the
  server, whatever the configuration says and the server answers: at most directories, and empty
  databases of accounts that had none, come into being. It does create those.
\<close>

theorem dry_one_shot_only_opens:
  assumes "jmapsyncd_main sh sur pid flock_error state_dir a h = Some (out, h')"
    and "arg_dry_run a" and "arg_command a = Some (SyncCommand account)"
  shows "only_opened (sq_foreign_keys (os_sqlite sh)) h h'"
proof (cases "load_config sur (arg_config_file a) (overrides_of a)")
  case (Inl e)
  with assms(1) show ?thesis by (simp add: jmapsyncd_main_def only_opened_refl)
next
  case (Inr cfg)
  obtain r where "run_sync_once sh cfg account True h = Some (r, h')"
    using assms Inr by (auto simp: jmapsyncd_main_def)
  then obtain me where "sync_accounts sh cfg account True (accounts cfg) 0 0 h = Some (me, h')"
    by (auto simp: run_sync_once_def split: option.splits)
  then show ?thesis by (rule dry_accounts_opened)
qed

definition raw_tree_account :: "string \<Rightarrow> bool \<Rightarrow> raw_account" where
  "raw_tree_account name on =
     \<lparr>ra_name = name, ra_enabled = Some on, ra_jmap_host = ''h'', ra_jmap_user = ''u'',
      ra_jmap_token = Some ''t'', ra_jmap_token_file = None, ra_jmap_token_cmd = None,
      ra_timeout_secs = None, ra_poll_interval_secs = None,
      ra_mail = Some \<lparr>rm_path = ''/mail'', rm_sync_mode = None, rm_subscribed_only = None,
        rm_box_filter = None, rm_tls = None,
        rm_box_mapping = Some [\<lparr>remote = ''Inbox'', local_name = ''In''\<rparr>], rm_post_sync_hook = None,
        rm_watch_maildir = None, rm_exclude_mailboxes = Some [''Outbox'']\<rparr>,
      ra_submit = None\<rparr>"

definition tree_surroundings :: surroundings where
  "tree_surroundings = \<lparr>config_dir = Some ''/c'', data_dir = None, read_to_string = (\<lambda>_. Inr ''doc''),
     toml_from_str = (\<lambda>_. Inr \<lparr>rf_db_dir = Some ''/db'',
       rf_accounts = Some [raw_tree_account ''b'' False, raw_tree_account ''a'' True]\<rparr>), shell_expand = Inr\<rparr>"

definition dry_args :: args where
  "dry_args = \<lparr>arg_config_file = None, arg_log_level = Some Debug, arg_db_dir = None, arg_dry_run = True,
     arg_command = Some (SyncCommand None)\<rparr>"

lemma dry_config: "load_config tree_surroundings None (overrides_of dry_args) = Inr one_account"
  by (simp add: load_config_def load_config_file_def tree_surroundings_def file_of_raw_def
      raw_tree_account_def account_of_raw_def token_of_raw_def mail_of_raw_def expand_path_def
      expand_opt_path_def or_default_def default_excludes_def overrides_of_def dry_args_def
      one_account_def tree_account_def tree_config_def default_true_def default_timeout_secs_def
      default_poll_interval_secs_def)

theorem dry_one_shot_only_opens_witness:
  "jmapsyncd_main calm_shot tree_surroundings 41 None None dry_args bare_host = Some (Exits 0, opened_host)
    \<and> only_opened True bare_host opened_host
    \<and> map_of (hs_dbs bare_host) [''db'', ''a.sqlite''] = None
    \<and> map_of (hs_dbs opened_host) [''db'', ''a.sqlite''] = Some (empty_database True)"
proof -
  have a: "arg_dry_run dry_args" "arg_command dry_args = Some (SyncCommand None)" "arg_config_file dry_args = None"
    by (simp_all add: dry_args_def)
  have run: "jmapsyncd_main calm_shot tree_surroundings 41 None None dry_args bare_host = Some (Exits 0, opened_host)"
    using dry_config calm_shot_run [of True] a by (simp add: jmapsyncd_main_def)
  from dry_one_shot_only_opens [OF run a(1,2)] run show ?thesis
    by (simp add: calm_shot_def bare_host_def opened_host_def)
qed

section \<open>The Maildir watcher\<close>

text \<open>
  C23: No change of the Maildir goes without a tick: for every create, modify or remove event the
  watcher sends a tick after it, within half a second, so that the pass it starts sees the
  change; and ticks are more than half a second apart, however many events a burst has. (Events
  come in the order of their times, and the loop takes the ticks without delay.)
\<close>

theorem maildir_change_is_synced:
  assumes "sorted (map fst evs)"
  shows "(\<forall>t k. (t, k) \<in> set evs \<and> counts k \<longrightarrow>
      (\<exists>u\<in>set (watch_ticks MAILDIR_DEBOUNCE evs). t \<le> u \<and> u \<le> t + MAILDIR_DEBOUNCE))
    \<and> sorted_wrt (\<lambda>u v. u + MAILDIR_DEBOUNCE < v) (watch_ticks MAILDIR_DEBOUNCE evs)"
proof -
  let ?ts = "map fst (filter (\<lambda>(_, k). counts k) evs)"
  have sorted: "sorted ?ts" by (rule sorted_filter [OF assms])
  have "t \<in> set ?ts" if "(t, k) \<in> set evs" "counts k" for t k using that by force
  with maildir_ticks_cover [OF sorted] maildir_ticks_spaced [OF sorted] show ?thesis
    unfolding watch_ticks_def by blast
qed

theorem maildir_change_is_synced_witness:
  "watch_ticks MAILDIR_DEBOUNCE [(0::nat, CreateKind), (5, AccessKind), (7, ModifyKind), (600000000, RemoveKind)]
      = [500000000, 1100000000]
    \<and> (\<exists>u\<in>set (watch_ticks MAILDIR_DEBOUNCE [(0::nat, CreateKind), (5, AccessKind), (7, ModifyKind), (600000000, RemoveKind)]).
        7 \<le> u \<and> u \<le> 500000007)"
proof -
  let ?evs = "[(0::nat, CreateKind), (5, AccessKind), (7, ModifyKind), (600000000, RemoveKind)]"
  have "sorted (map fst ?evs)" by simp
  from maildir_change_is_synced [OF this] show ?thesis
    by (simp add: watch_ticks_def counts_def MAILDIR_DEBOUNCE_def)
qed

section \<open>The lock\<close>

text \<open>
  C15: While a daemon lives, no second one starts: whatever locks were taken and released before,
  a start on the path that is held fails, the message names the process that holds it, and
  neither the lock, its file nor any database is touched. (A start can also fail before it sees
  the lock, on the directory or on opening the file.)
\<close>

theorem second_daemon_is_refused:
  assumes "lock_reachable (lock_host.truncate h)" and "(p, pid) \<in> set (lk_held h)"
    and "default_lock_path state_dir = Inr p" and "pid < 2 ^ 32" and "\<not> fault v (ReadFile p)"
    and "run_daemon v sq pid' fl state_dir cfg h = (r, h')"
  shows "(r = Inl (Refused (already_running (show_nat pid)))
      \<or> r = Inl (IoError (MkdirAll (butlast p))) \<or> r = Inl (IoError (OpenFile p)))
    \<and> hs_dbs h' = hs_dbs h \<and> lk_held h' = lk_held h
    \<and> read_file (files (lk_world h')) p = read_file (files (lk_world h)) p"
proof -
  obtain x l where acq: "acquire_at v pid' fl p (lock_host.truncate h) = (x, l)" by fastforce
  have "(p, pid) \<in> set (lk_held (lock_host.truncate h))"
    using assms(2) by (simp add: lock_host.defs)
  note refused = held_is_refused [OF lock_reachable_ok [OF assms(1)] this assms(4,5) acq]
  then obtain e where "x = Inl e" by auto
  then show ?thesis
    using assms(3,6) acq refused
    by (auto simp: run_daemon_def bindE_run on_lock_def acquire_def lock_host.defs)
qed

abbreviation sample_lock :: path where
  "sample_lock \<equiv> [''s'', ''jmapsyncd'', ''jmapsyncd.lock'']"

definition held_host :: host where
  "held_host = bare_host\<lparr>
     lk_world := fresh_world\<lparr>files := [(sample_lock, File ''41\<newline>''),
        ([''s'', ''jmapsyncd''], Dir), ([''s''], Dir)]\<rparr>,
     lk_held := [(sample_lock, 41)]\<rparr>"

lemma show_41: "show_nat 41 = ''41''"
  by code_simp

lemma held_host_reachable: "lock_reachable (lock_host.truncate held_host)"
proof -
  have "acquire_at quiet_env 41 None sample_lock (lock_host.truncate bare_host)
      = (Inr (), lock_host.truncate held_host)"
    by (simp add: acquire_at_def run_simps sys_open_lockfile_def sys_truncate_def lock_host.defs
        bare_host_def held_host_def upt_rec show_41)
  moreover have "lock_reachable (lock_host.truncate bare_host)"
    by (rule lock_start) (simp add: lock_host.defs bare_host_def)
  ultimately show ?thesis by (blast intro: lock_acquire)
qed

theorem second_daemon_is_refused_witness:
  "fst (run_daemon quiet_env (os_sqlite calm_shot) 77 None (Some [''s'']) one_account held_host)
     = Inl (Refused (already_running ''41''))
   \<and> hs_dbs (snd (run_daemon quiet_env (os_sqlite calm_shot) 77 None (Some [''s'']) one_account held_host))
     = hs_dbs held_host"
proof -
  obtain r h' where run: "run_daemon quiet_env (os_sqlite calm_shot) 77 None (Some [''s'']) one_account held_host
      = (r, h')" by fastforce
  have held: "(sample_lock, 41) \<in> set (lk_held held_host)" by (simp add: held_host_def)
  have path: "default_lock_path (Some [''s'']) = Inr sample_lock" by (simp add: default_lock_path_def)
  have small: "(41::nat) < 2 ^ 32" and readable: "\<not> fault quiet_env (ReadFile sample_lock)" by simp_all
  have "\<exists>msg. r = Inl (Refused msg)"
    using run by (auto simp: run_daemon_def on_lock_def acquire_def path acquire_at_def run_simps
        sys_open_lockfile_def lock_host.defs held_host_def upt_rec show_41 bare_host_def)
  with second_daemon_is_refused [OF held_host_reachable held path small readable run] run
  show ?thesis by (auto simp: show_41)
qed

end
