(* ===== verification/Submit_Loop.thy ===== *)
theory Submit_Loop
  imports Outbox Mailbox_Sync Machine
begin

text \<open>
  The submit task of an account in \<open>daemon/submit.rs\<close>: bringing the loop up, the loop over due
  messages and file events, and the restart after a failure, as a machine in the sense of
  \<open>Machine\<close>. The file watcher's callback stands before it. What an attempt or a start meets
  (server, clock, network, refused calls) comes with the input; times are those at which the
  steps happen, and the other processes on the host change the files in between.
\<close>

section \<open>The watcher\<close>

text \<open>One event of \<open>notify\<close> may carry several paths.\<close>

definition watch_events :: "path \<Rightarrow> path \<Rightarrow> notify_kind \<Rightarrow> path list \<Rightarrow> outbox_event list" where
  "watch_events outbox_ab failed_ab kind paths =
     (case classify_event kind of
        None \<Rightarrow> []
      | Some raw_kind \<Rightarrow>
          List.map_filter (\<lambda>p. map_option (\<lambda>(side, subdir).
              \<lparr>ev_side = side, ev_path = p, ev_subdir = subdir, ev_kind = raw_kind\<rparr>)
            (classify_path p outbox_ab failed_ab)) paths)"

text \<open>What \<open>notify\<close> reports, with the times at which the debouncing task takes it.\<close>

definition outbox_watch ::
    "path \<Rightarrow> path \<Rightarrow> nat \<Rightarrow> (instant \<times> notify_kind \<times> path list) list \<Rightarrow> (instant \<times> outbox_event) list" where
  "outbox_watch outbox_ab failed_ab window raw =
     debounce window []
       (concat (map (\<lambda>(t, kind, paths). map (Pair t) (watch_events outbox_ab failed_ab kind paths)) raw))"

definition EVENT_DEBOUNCE :: nat where "EVENT_DEBOUNCE = 100000000"

section \<open>Stale attempts\<close>

definition STARTUP_INFLIGHT_STALENESS :: nat where "STARTUP_INFLIGHT_STALENESS = secs 60"

text \<open>\<open>trim_end_matches\<close> takes the suffix off as often as it is there.\<close>

function trim_suffix :: "string \<Rightarrow> string \<Rightarrow> string" where
  "trim_suffix suf s =
     (if suf \<noteq> [] \<and> suffix suf s then trim_suffix suf (take (length s - length suf) s) else s)"
  by pat_completeness auto
termination
  by (relation "measure (\<lambda>(suf, s). length s)")
     (auto simp: suffix_def)

declare trim_suffix.simps [simp del]

text \<open>\<open>now\<close> is the wall clock in nanoseconds since the epoch.\<close>

definition is_stale :: "submit_server \<Rightarrow> nat \<Rightarrow> string \<Rightarrow> bool" where
  "is_stale srv now inflight_iso =
     (case parse_rfc3339 srv inflight_iso of
        Inl _ \<Rightarrow> True
      | Inr t \<Rightarrow> if now < secs (nat t) then True
                 else STARTUP_INFLIGHT_STALENESS \<le> now - secs (nat t))"

text \<open>The names of the warnings of \<open>warn_on_stale_inflight\<close>, with the time each reports.\<close>

definition stale_inflight ::
    "env \<Rightarrow> codec \<Rightarrow> submit_server \<Rightarrow> path \<Rightarrow> nat \<Rightarrow> fs \<Rightarrow> (string \<times> string) list" where
  "stale_inflight v cd srv sidecar_dir now f =
     List.map_filter (\<lambda>name.
         if \<not> suffix ''.json'' name \<or> prefix ''.'' name then None
         else let basename = trim_suffix ''.json'' name in
              (case sd_in_flight (load_sidecar v cd sidecar_dir basename f) of
                 None \<Rightarrow> None
               | Some inflight_iso \<Rightarrow> if is_stale srv now inflight_iso then Some (basename, inflight_iso) else None))
       (list_dir v f sidecar_dir)"

section \<open>Bringing the loop up\<close>

definition LOOP_RETRY_BASE :: nat where "LOOP_RETRY_BASE = secs 5"

definition LOOP_RETRY_CAP :: nat where "LOOP_RETRY_CAP = secs 300"

definition sidecar_dir_for :: "path option \<Rightarrow> string \<Rightarrow> err + path" where
  "sidecar_dir_for state_dir account =
     (case state_dir of
        None \<Rightarrow> Inl (NoPlatformDir ''state'')
      | Some base \<Rightarrow> Inr (join_path (base @ [''jmapsyncd'']) account @ [''outbox-meta'']))"

record submit_site =
  st_submit :: submit_config
  st_outbox :: path
  st_failed :: path
  st_sidecars :: path

fun create_each :: "env \<Rightarrow> path list \<Rightarrow> (world, unit) io" where
  "create_each v [] = ret ()"
| "create_each v (p # ps) = bindE (sys_create_dir_all v p) (\<lambda>_. create_each v ps)"

definition site_dirs :: "path \<Rightarrow> path \<Rightarrow> path list" where
  "site_dirs outbox failed =
     concat (map (\<lambda>base. map (\<lambda>sub. base @ [sub]) [''tmp'', ''new'', ''cur'']) [outbox, failed])"

text \<open>\<open>None\<close>: the account has no submit or no mail section, and the loop returns at once.\<close>

definition prepare_site ::
    "env \<Rightarrow> path option \<Rightarrow> account \<Rightarrow> (world, submit_site option) io" where
  "prepare_site v state_dir acct =
     (case submit acct of
        None \<Rightarrow> ret None
      | Some cfg \<Rightarrow>
          (case mail acct of
             None \<Rightarrow> ret None
           | Some mail_cfg \<Rightarrow>
               let outbox = mail_root_of mail_cfg @ [''Outbox''];
                   failed = mail_root_of mail_cfg @ [''Failed'']
               in bindE (create_each v (site_dirs outbox failed)) (\<lambda>_.
                  bindE (liftE (sidecar_dir_for state_dir (acct_name acct))) (\<lambda>dir.
                  bindE (sys_create_dir_all v dir) (\<lambda>_.
                    ret (Some \<lparr>st_submit = cfg, st_outbox = outbox, st_failed = failed, st_sidecars = dir\<rparr>))))))"

text \<open>
  What one start meets: \<open>la_epoch\<close> and \<open>la_now\<close> are the two clocks, \<open>la_watch\<close> whether the
  watcher could be set up, \<open>la_cancelled\<close> whether the token has fired by the end of a start
  that failed.
\<close>

record launch =
  la_env :: env
  la_server :: submit_server
  la_account_id :: string
  la_identity_get :: "err + identity list"
  la_mailbox_get :: "err + server_mailbox list"
  la_epoch :: nat
  la_now :: instant
  la_watch :: bool
  la_cancelled :: bool

section \<open>The task\<close>

datatype submit_phase = Launching | Looping submit_site submit_context | Resting nat | Ended

record submit_task =
  sm_phase :: submit_phase
  sm_loop :: loop_state
  sm_due :: "string list"
  sm_backoff :: retry_backoff
  sm_notifier :: failure_notifier
  sm_world :: world
  sm_clock :: instant

text \<open>
  \<open>head\<close> is the time at which the loop last swept the pending renames, at its head.
\<close>

datatype submit_input =
    Launch launch
  | RestOver network_wait nat
  | TimerFired instant instant
  | TryNext env submit_server moment
  | FileEvent env instant instant outbox_event
  | WatcherClosed instant
  | CancelTask
  | Elsewhere fs

datatype submit_action =
    Attempted instant string "(path \<times> string) option" "submit_outcome option" "jmap_request list"
  | SubmitNotice notification
  | Rested nat

definition empty_loop :: loop_state where
  "empty_loop = \<lparr>ls_known_failures = [], ls_pending = [], ls_queue = new_schedule\<rparr>"

definition submit_start :: "(nat \<Rightarrow> nat list) \<Rightarrow> account \<Rightarrow> world \<Rightarrow> submit_task" where
  "submit_start upper a w =
     \<lparr>sm_phase = Launching, sm_loop = empty_loop, sm_due = [],
      sm_backoff = new_backoff LOOP_RETRY_BASE LOOP_RETRY_CAP,
      sm_notifier = new_notifier upper (acct_name a) (jmap_host a), sm_world = w, sm_clock = 0\<rparr>"

text \<open>\<open>run_account_submit_loop\<close> after its inner loop has returned.\<close>

definition after_return :: "bool \<Rightarrow> submit_action list \<Rightarrow> submit_task \<Rightarrow> submit_action list \<times> submit_task" where
  "after_return cancelled acts s =
     (if cancelled then (acts, s\<lparr>sm_phase := Ended\<rparr>)
      else let (ns, n) = notify_failed (sm_notifier s);
               (delay, b) = take_delay (sm_backoff s)
           in (acts @ map SubmitNotice ns,
               s\<lparr>sm_phase := Resting delay, sm_backoff := b, sm_notifier := n\<rparr>))"

definition initial_loop :: "codec \<Rightarrow> launch \<Rightarrow> submit_site \<Rightarrow> fs \<Rightarrow> loop_state" where
  "initial_loop cd la st f =
     \<lparr>ls_known_failures = scan_basenames (la_env la) (st_failed st) f, ls_pending = [],
      ls_queue = startup_queue (la_env la) cd (la_server la) (st_sidecars st) (st_outbox st)
        (la_epoch la) (la_now la) f\<rparr>"

definition launch_loop :: "codec \<Rightarrow> path option \<Rightarrow> account \<Rightarrow> launch \<Rightarrow> submit_task \<Rightarrow> submit_action list \<times> submit_task" where
  "launch_loop cd state_dir acct la s =
     (case prepare_site (la_env la) state_dir acct (sm_world s) of
        (Inl _, w) \<Rightarrow> after_return (la_cancelled la) [] (s\<lparr>sm_world := w, sm_clock := la_now la\<rparr>)
      | (Inr None, w) \<Rightarrow> after_return (la_cancelled la) [] (s\<lparr>sm_world := w, sm_clock := la_now la\<rparr>)
      | (Inr (Some st), w) \<Rightarrow>
          let s1 = s\<lparr>sm_world := w, sm_clock := la_now la\<rparr> in
          (case resolve_context (la_account_id la) (la_identity_get la) (la_mailbox_get la) (st_submit st) of
             Inl _ \<Rightarrow> after_return (la_cancelled la) [] s1
           | Inr ctx \<Rightarrow>
               let (ns, n) = notify_recovered (sm_notifier s);
                   s2 = s1\<lparr>sm_backoff := reset_backoff (sm_backoff s), sm_notifier := n\<rparr>
               in if la_watch la
                  then (map SubmitNotice ns,
                        s2\<lparr>sm_phase := Looping st ctx, sm_loop := initial_loop cd la st (files w), sm_due := []\<rparr>)
                  else after_return (la_cancelled la) (map SubmitNotice ns) s2))"

text \<open>
  How long an attempt that failed for the time being waits inside the loop, and whether the loop
  goes on after it; the other outcomes do not wait.
\<close>

definition attempt_pause ::
    "env \<Rightarrow> codec \<Rightarrow> submit_site \<Rightarrow> moment \<Rightarrow> string \<Rightarrow> fs \<Rightarrow> submit_outcome option \<Rightarrow> nat \<times> bool" where
  "attempt_pause v cd st mo b f outcome =
     (case outcome of
        Some (Transient _) \<Rightarrow>
          (case backoff_delay (mo_rnd mo) (next_attempts (load_sidecar v cd (st_sidecars st) b f))
                  (retry_base_secs (st_submit st)) (retry_cap_secs (st_submit st)) (mo_nanos mo) of
             Some delay \<Rightarrow>
               (case wait_for_connectivity_or_delay (mo_net mo) delay (mo_waited mo) (mo_cancelled mo) of
                  (remaining, go_on) \<Rightarrow> (if go_on then mo_waited mo + remaining else 0, go_on))
           | None \<Rightarrow> (0, False))
      | _ \<Rightarrow> (0, True))"

text \<open>A panic in the computation of the delay ends the task.\<close>

definition try_next ::
    "codec \<Rightarrow> submit_site \<Rightarrow> submit_context \<Rightarrow> env \<Rightarrow> submit_server \<Rightarrow> moment \<Rightarrow> string \<Rightarrow> string list
     \<Rightarrow> submit_task \<Rightarrow> (submit_action list \<times> submit_task) option" where
  "try_next cd st ctx v srv mo b bs s =
     (let f = files (sm_world s); located = locate_and_read_outbox_message v (st_outbox st) b f in
      case handle_submit_attempt v cd srv mo ctx (st_submit st) (st_sidecars st) (st_outbox st)
             (st_failed st) b (ls_queue (sm_loop s)) (sm_notifier s) (sm_world s) of
        (Inl _, w) \<Rightarrow> Some ([], s\<lparr>sm_phase := Ended, sm_world := w\<rparr>)
      | (Inr r, w) \<Rightarrow>
          (case attempt_pause v cd st mo b f (ar_outcome r) of
             (pause, go_on) \<Rightarrow>
               if mo_after mo < sm_clock s + pause then None
               else Some ([Attempted (sm_clock s) b (case located of Inl _ \<Rightarrow> None | Inr x \<Rightarrow> Some x)
                             (ar_outcome r) (ar_requests r)]
                           @ map SubmitNotice (ar_notices r),
                    s\<lparr>sm_phase := (if go_on then sm_phase s else Ended),
                      sm_loop := (sm_loop s)\<lparr>ls_queue := ar_queue r\<rparr>, sm_due := bs,
                      sm_notifier := ar_notifier r, sm_world := w, sm_clock := mo_after mo\<rparr>)))"

text \<open>
  The arms of the \<open>select\<close> are open when no drained message is left to attempt. The timer has
  priority over the events; as it has a granularity, an event may still be taken at a time at
  which a message is due.
\<close>

fun submit_step ::
    "codec \<Rightarrow> path option \<Rightarrow> account \<Rightarrow> submit_input \<Rightarrow> submit_task \<Rightarrow> (submit_action list \<times> submit_task) option" where
  "submit_step cd state_dir acct (Launch la) s =
     (if sm_phase s = Launching \<and> sm_clock s \<le> la_now la then Some (launch_loop cd state_dir acct la s) else None)"
| "submit_step cd state_dir acct (RestOver net waited) s =
     (case sm_phase s of
        Resting delay \<Rightarrow>
          (case wait_for_connectivity_or_delay net delay waited False of
             (remaining, go_on) \<Rightarrow>
               if go_on then Some ([Rested (waited + remaining)],
                 s\<lparr>sm_phase := Launching, sm_clock := sm_clock s + waited + remaining\<rparr>)
               else Some ([], s\<lparr>sm_phase := Ended\<rparr>))
      | _ \<Rightarrow> None)"
| "submit_step cd state_dir acct (TimerFired head now) s =
     (case sm_phase s of
        Looping st ctx \<Rightarrow>
          let l = expire_pending_renames head (sm_loop s) in
          if sm_due s = [] \<and> sm_clock s \<le> head \<and> head \<le> now \<and> wait_next now (ls_queue l) = Some now
          then (case drain_due now (ls_queue l) of
                  (names, q) \<Rightarrow> Some ([], s\<lparr>sm_loop := l\<lparr>ls_queue := q\<rparr>, sm_due := names, sm_clock := now\<rparr>))
          else None
      | _ \<Rightarrow> None)"
| "submit_step cd state_dir acct (TryNext v srv mo) s =
     (case (sm_phase s, sm_due s) of
        (Looping st ctx, b # bs) \<Rightarrow> try_next cd st ctx v srv mo b bs s
      | _ \<Rightarrow> None)"
| "submit_step cd state_dir acct (FileEvent v head now ev) s =
     (case sm_phase s of
        Looping st ctx \<Rightarrow>
          if sm_due s = [] \<and> sm_clock s \<le> head \<and> head \<le> now
          then (case handle_event v cd (st_sidecars st) now ev (expire_pending_renames head (sm_loop s)) (sm_world s) of
                  (Inl _, w) \<Rightarrow> None
                | (Inr l, w) \<Rightarrow> Some ([], s\<lparr>sm_loop := l, sm_world := w, sm_clock := now\<rparr>))
          else None
      | _ \<Rightarrow> None)"
| "submit_step cd state_dir acct (WatcherClosed head) s =
     (case sm_phase s of
        Looping st ctx \<Rightarrow>
          if sm_due s = [] \<and> sm_clock s \<le> head
          then Some (after_return False [] (s\<lparr>sm_loop := expire_pending_renames head (sm_loop s), sm_clock := head\<rparr>))
          else None
      | _ \<Rightarrow> None)"
| "submit_step cd state_dir acct CancelTask s =
     (case sm_phase s of Looping st ctx \<Rightarrow> Some ([], s\<lparr>sm_phase := Ended\<rparr>) | _ \<Rightarrow> None)"
| "submit_step cd state_dir acct (Elsewhere f) s = Some ([], s\<lparr>sm_world := (sm_world s)\<lparr>files := f\<rparr>\<rparr>)"

end
