(* ===== verification/Submit_Loop_Facts.thy ===== *)
theory Submit_Loop_Facts
  imports Submit_Loop Outbox_Facts
begin

text \<open>
  What the submit task keeps over whole runs: a message of the Outbox, wherever its steps fail; a
  queued name until it is attempted; the order of the clock; and the alternation of the notices.
\<close>

section \<open>A message in the Outbox\<close>

text \<open>
  A drag-back takes the diagnostic headers out of the file in place, so the content is the
  original up to that.
\<close>

definition stripping_of :: "string \<Rightarrow> string \<Rightarrow> bool" where
  "stripping_of c x \<longleftrightarrow> (\<exists>n. x = (strip_family2_headers ^^ n) c)"

definition in_outbox :: "path \<Rightarrow> string \<Rightarrow> fs \<Rightarrow> bool" where
  "in_outbox p c f \<longleftrightarrow> (\<exists>x. read_file f p = Some x \<and> stripping_of c x)"

lemma stripping_refl: "stripping_of c c"
  unfolding stripping_of_def by (rule exI [of _ 0]) simp

lemma stripping_step: "stripping_of c x \<Longrightarrow> stripping_of c (strip_family2_headers x)"
  unfolding stripping_of_def by (metis funpow.simps(2) comp_apply)

lemma in_outbox_holds: "in_outbox p c f \<longleftrightarrow> (\<exists>x. holds p x f \<and> stripping_of c x)"
  by (simp add: in_outbox_def holds_read)

lemma keeps_in_outbox:
  assumes "\<And>x. keeps (\<lambda>w::world. holds p x (files w)) m"
  shows "keeps (\<lambda>w::world. in_outbox p c (files w)) m"
proof (rule keepsI)
  fix w :: world assume "in_outbox p c (files w)"
  with assms show "in_outbox p c (files (snd (m w)))" unfolding in_outbox_holds by (blast dest: keepsD)
qed

lemma tmp_neighbour_hidden: "p \<noteq> [] \<Longrightarrow> \<not> prefix ''.'' (last p) \<Longrightarrow> tmp_neighbour q \<noteq> p"
  by (auto simp: tmp_neighbour_def)

text \<open>Stripping another file leaves the message alone; stripping it keeps it up to the headers.\<close>

lemma strip_other_keeps:
  assumes "q \<noteq> p" and "tmp_neighbour q \<noteq> p"
  shows "keeps (\<lambda>w. holds p x (files w)) (strip_family2_headers_in_place v q)"
  unfolding strip_family2_headers_in_place_def Let_def
  by (intro keeps_rules keeps_holds_write_rename assms)

lemma strip_same_keeps:
  assumes "tmp_neighbour p \<noteq> p"
  shows "keeps (\<lambda>w. in_outbox p c (files w)) (strip_family2_headers_in_place v p)"
proof (rule keepsI)
  fix w :: world assume old: "in_outbox p c (files w)"
  then obtain x where x: "holds p x (files w)" "stripping_of c x" by (auto simp: in_outbox_holds)
  define y where "y = strip_family2_headers x"
  let ?t = "tmp_neighbour p"
  let ?wr = "bindE (sys_write v ?t y) (\<lambda>_. sys_rename v ?t p)"
  have y: "stripping_of c y" unfolding y_def by (rule stripping_step [OF x(2)])
  have rename: "in_outbox p c (files (snd (sys_rename v ?t p w1)))"
    if "holds p x (files w1)" "map_of (files w1) ?t = Some (File y)" for w1
  proof (cases "fault v (RenameTo ?t p) \<or> rename (files w1) ?t p = None")
    case True
    with that(1) x(2) show ?thesis by (auto simp: sys_rename_def sys_def in_outbox_holds)
  next
    case False
    then obtain f where f: "rename (files w1) ?t p = Some f" by auto
    with map_of_rename_file [OF f that(2)] False have "holds p y (files (snd (sys_rename v ?t p w1)))"
      by (simp add: sys_rename_def sys_def holds_def)
    with y show ?thesis by (auto simp: in_outbox_holds)
  qed
  have written: "in_outbox p c (files (snd (?wr w)))"
  proof (cases "fault v (WriteFile ?t) \<or> write_file (files w) ?t y = None")
    case True
    then have "snd (?wr w) = w" by (auto simp: bindE_def sys_write_def sys_def)
    with old show ?thesis by simp
  next
    case False
    then obtain f where f: "write_file (files w) ?t y = Some f" by auto
    with x(1) assms have "holds p x f" "map_of f ?t = Some (File y)"
      by (simp_all add: holds_def map_of_write_file)
    with rename [of "w\<lparr>files := f\<rparr>"] False f show ?thesis by (simp add: bindE_def sys_write_def sys_def)
  qed
  show "in_outbox p c (files (snd (strip_family2_headers_in_place v p w)))"
    using old x(1) written
    by (simp add: strip_family2_headers_in_place_def bindE_def Let_def ret_def sys_read_file_def
        holds_read y_def)
qed

lemma reset_keeps:
  "\<not> prefix dir p \<Longrightarrow> keeps (\<lambda>w. holds p x (files w)) (reset_sidecar_for_retry v cd dir b)"
  unfolding reset_sidecar_for_retry_def by (intro keeps_rules keeps_holds_save)

lemma handle_event_keeps_message:
  assumes "p \<noteq> []" and "\<not> prefix ''.'' (last p)" and "\<not> prefix dir p"
  shows "keeps (\<lambda>w. in_outbox p c (files w)) (handle_event v cd dir now ev l)"
proof -
  have strip: "keeps (\<lambda>w. in_outbox p c (files w)) (strip_family2_headers_in_place v q)" for q
  proof (cases "q = p")
    case True
    with strip_same_keeps tmp_neighbour_hidden [OF assms(1,2)] show ?thesis by blast
  next
    case False
    with strip_other_keeps tmp_neighbour_hidden [OF assms(1,2)] show ?thesis
      by (intro keeps_in_outbox) blast
  qed
  have reset: "keeps (\<lambda>w. in_outbox p c (files w)) (reset_sidecar_for_retry v cd dir b)" for b
    by (intro keeps_in_outbox reset_keeps assms(3))
  show ?thesis
    unfolding handle_event_def Let_def case_prod_conv
    by (cases "ev_side ev"; cases "ev_kind ev") (auto intro!: keeps_rules strip reset)
qed

section \<open>An attempt at another message\<close>

lemma move_to_failed_keeps_other:
  assumes "\<not> prefix failed p" and "src \<noteq> p"
  shows "keeps (\<lambda>w. holds p x (files w)) (move_to_failed_atomic v now src failed b reason ulid)"
proof -
  have "failed @ [''tmp'', b] \<noteq> p" "failed @ [''new'', b] \<noteq> p" using assms(1) by (auto simp: prefix_def)
  note wr = keeps_holds_write_rename [OF this]
  show ?thesis
    unfolding move_to_failed_atomic_def Let_def
    by (intro keeps_rules keeps_holds keeps_bindE
        wr [THEN keeps_bindE, unfolded bindE_assoc] assms(2))
qed

lemma settle_keeps_other:
  assumes "q \<noteq> p" and "\<not> prefix dir p" and "\<not> prefix failed p"
  shows "keeps (\<lambda>w. holds p x (files w)) (settle_attempt v cd mo cfg dir failed b sq n q sc out reqs)"
proof -
  have "sidecar_path dir b \<noteq> p" using assms(2) sidecar_under(1) by metis
  then show ?thesis
    unfolding settle_attempt_def Let_def case_prod_unfold
    by (cases out) (simp_all, (intro keeps_rules keeps_holds keeps_holds_save move_to_failed_keeps_other assms
        | simp)+)
qed

lemma attempt_keeps_other:
  assumes "\<not> prefix dir p" and "\<not> prefix failed p" and "holds p x (files w)"
    and "\<And>bytes. locate_and_read_outbox_message v outbox b (files w) \<noteq> Inr (p, bytes)"
  shows "holds p x (files (snd (handle_submit_attempt v cd srv mo ctx cfg dir outbox failed b q n w)))"
proof (cases "locate_and_read_outbox_message v outbox b (files w)")
  case (Inl e)
  have "sidecar_path dir b \<noteq> p" using assms(1) sidecar_under(1) by metis
  with assms(3) keepsD [OF keeps_holds(3)] show ?thesis
    by (simp add: handle_submit_attempt_def bindE_def fs_query_def Inl ignore_err_def ret_def)
next
  case (Inr loc)
  obtain p' bytes where loc: "loc = (p', bytes)" by force
  let ?sc = "in_flight_sidecar v cd mo dir b (files w)"
  obtain out reqs where one: "submit_one srv ctx bytes ?sc = (out, reqs)" by force
  have "p' \<noteq> p" using assms(4) [of bytes] Inr loc by auto
  note settle = settle_keeps_other [OF this assms(1,2)]
  show ?thesis
    unfolding attempt_located [OF Inr [unfolded loc] one]
    by (rule keepsD [OF settle]) (rule keepsD [OF keeps_holds_save [OF assms(1)] assms(3)])
qed

text \<open>What an attempt reports is the outcome of the submission.\<close>

lemma settle_outcome:
  "settle_attempt v cd mo cfg dir failed b q n p sc out reqs w = (Inr r, w') \<Longrightarrow>
   ar_outcome r = Some out \<and> ar_requests r = reqs"
  by (auto simp: settle_attempt_def bindE_eq_Inr throw_def ret_def Let_def
      split: submit_outcome.splits option.splits prod.splits)

lemma attempt_keeps_this:
  assumes loc: "locate_and_read_outbox_message v outbox b (files w) = Inr (p, x)"
    and run: "handle_submit_attempt v cd srv mo ctx cfg dir outbox failed b q n w = (r, w')"
    and apart: "\<not> prefix dir p"
  shows "holds p x (files w') \<or> (\<exists>ar out. r = Inr ar \<and> ar_outcome ar = Some out
    \<and> (out = Success \<or> (\<exists>reason. out = Permanent reason)))"
proof -
  let ?sc = "in_flight_sidecar v cd mo dir b (files w)"
  obtain out reqs where one: "submit_one srv ctx x ?sc = (out, reqs)" by force
  note run' = run [unfolded attempt_located [OF loc one]]
  have p1: "holds p x (files (snd (save_sidecar v cd dir b ?sc w)))"
    using locate_file [OF loc] by (intro save_then apart) simp
  show ?thesis
  proof (cases out)
    case (Transient reason)
    from after_transient [OF run' [unfolded Transient] p1 apart] show ?thesis ..
  next
    case Success
    have "\<exists>ar. r = Inr ar" using run' unfolding Success
      by (auto simp: settle_attempt_def bindE_def ignore_err_def ret_def Let_def split: prod.splits)
    with settle_outcome run' Success show ?thesis by blast
  next
    case (Permanent reason)
    have "\<exists>ar. r = Inr ar" using run' unfolding Permanent
      by (auto simp: settle_attempt_def bindE_def ignore_err_def swallow_def ret_def Let_def)
    with settle_outcome run' Permanent show ?thesis by blast
  qed
qed

section \<open>The site of the loop\<close>

lemma create_each_keeps: "keeps (\<lambda>w. holds p x (files w)) (create_each v ps)"
  by (induction ps) (unfold create_each.simps, (intro keeps_rules keeps_holds | assumption)+)

lemma prepare_site_keeps: "keeps (\<lambda>w. holds p x (files w)) (prepare_site v state_dir acct)"
  unfolding prepare_site_def Let_def
  by (intro keeps_rules create_each_keeps keeps_holds)

text \<open>A loop that runs stands on the folders of its account.\<close>

definition site_of :: "path option \<Rightarrow> account \<Rightarrow> submit_site \<Rightarrow> bool" where
  "site_of state_dir acct st \<longleftrightarrow>
     submit acct = Some (st_submit st)
   \<and> (\<exists>m. mail acct = Some m \<and> st_outbox st = mail_root_of m @ [''Outbox'']
        \<and> st_failed st = mail_root_of m @ [''Failed''])
   \<and> sidecar_dir_for state_dir (acct_name acct) = Inr (st_sidecars st)"

definition task_ok :: "path option \<Rightarrow> account \<Rightarrow> submit_task \<Rightarrow> bool" where
  "task_ok state_dir acct s \<longleftrightarrow>
     sched_ok (ls_queue (sm_loop s))
   \<and> (\<forall>st ctx. sm_phase s = Looping st ctx \<longrightarrow> site_of state_dir acct st)"

lemma prepare_site_of:
  "prepare_site v state_dir acct w = (Inr (Some st), w') \<Longrightarrow> site_of state_dir acct st"
  by (auto simp: prepare_site_def site_of_def bindE_eq_Inr liftE_def ret_def Let_def split: option.splits)

lemma submit_start_ok: "task_ok state_dir acct (submit_start upper acct w)"
  by (simp add: task_ok_def submit_start_def empty_loop_def new_schedule_ok)

lemma after_return_same [simp]:
  "sm_world (snd (after_return c acts s)) = sm_world s"
  "sm_loop (snd (after_return c acts s)) = sm_loop s"
  "sm_due (snd (after_return c acts s)) = sm_due s"
  "sm_clock (snd (after_return c acts s)) = sm_clock s"
  "sm_phase (snd (after_return c acts s)) \<noteq> Looping st ctx"
  by (simp_all add: after_return_def split: prod.splits)

lemma expire_keeps_queue [simp]: "ls_queue (expire_pending_renames now l) = ls_queue l"
  by (simp add: expire_pending_renames_def Let_def)

lemma settle_queue:
  "settle_attempt v cd mo cfg dir failed b q n p sc out reqs w = (Inr r, w') \<Longrightarrow>
   ar_queue r = q \<or> ar_queue r = schedule_at b (mo_after mo) q"
  by (auto simp: settle_attempt_def bindE_eq_Inr throw_def ret_def Let_def
      split: submit_outcome.splits option.splits prod.splits if_splits)

text \<open>An attempt that reports a result found no message, or settled its outcome.\<close>

lemma attempt_cases:
  assumes "handle_submit_attempt v cd srv mo ctx cfg dir outbox failed b q n w = (Inr r, w')"
  obtains (vanished) "ar_queue r = q" "ar_notifier r = n" "ar_notices r = []" "ar_outcome r = None"
    | (settled) p out reqs w1 where
        "settle_attempt v cd mo cfg dir failed b q n p (in_flight_sidecar v cd mo dir b (files w)) out reqs w1
           = (Inr r, w')"
proof (cases "locate_and_read_outbox_message v outbox b (files w)")
  case (Inl e)
  with assms show ?thesis
    by (intro vanished) (auto simp: handle_submit_attempt_def bindE_def fs_query_def ignore_err_def ret_def)
next
  case (Inr loc)
  obtain p bytes where loc: "loc = (p, bytes)" by force
  obtain out reqs where one: "submit_one srv ctx bytes (in_flight_sidecar v cd mo dir b (files w)) = (out, reqs)"
    by force
  show ?thesis
    by (rule settled [OF assms [unfolded attempt_located [OF Inr [unfolded loc] one]]])
qed

lemma attempt_queue:
  assumes "handle_submit_attempt v cd srv mo ctx cfg dir outbox failed b q n w = (Inr r, w')"
  shows "ar_queue r = q \<or> ar_queue r = schedule_at b (mo_after mo) q"
  using assms by (cases rule: attempt_cases) (auto dest: settle_queue)

text \<open>The steps there are when the loop runs, and the others.\<close>

lemma try_next_cases:
  assumes "try_next cd st ctx v srv mo b bs s = Some (os, s')"
  obtains (panic) e w where "os = []" "s' = s\<lparr>sm_phase := Ended, sm_world := w\<rparr>"
      "handle_submit_attempt v cd srv mo ctx (st_submit st) (st_sidecars st) (st_outbox st) (st_failed st)
         b (ls_queue (sm_loop s)) (sm_notifier s) (sm_world s) = (Inl e, w)"
    | (attempted) r w pause go_on where
      "handle_submit_attempt v cd srv mo ctx (st_submit st) (st_sidecars st) (st_outbox st) (st_failed st)
         b (ls_queue (sm_loop s)) (sm_notifier s) (sm_world s) = (Inr r, w)"
      "attempt_pause v cd st mo b (files (sm_world s)) (ar_outcome r) = (pause, go_on)"
      "sm_clock s + pause \<le> mo_after mo"
      "os = Attempted (sm_clock s) b
          (case locate_and_read_outbox_message v (st_outbox st) b (files (sm_world s)) of
             Inl _ \<Rightarrow> None | Inr x \<Rightarrow> Some x) (ar_outcome r) (ar_requests r) # map SubmitNotice (ar_notices r)"
      "s' = s\<lparr>sm_phase := (if go_on then sm_phase s else Ended),
              sm_loop := (sm_loop s)\<lparr>ls_queue := ar_queue r\<rparr>, sm_due := bs,
              sm_notifier := ar_notifier r, sm_world := w, sm_clock := mo_after mo\<rparr>"
  using assms by (auto simp: try_next_def Let_def split: prod.splits sum.splits if_splits)

lemma launch_loop_ok: "launch_loop cd state_dir acct la s = (os, s') \<Longrightarrow> task_ok state_dir acct s \<Longrightarrow> task_ok state_dir acct s'"
  by (auto simp: launch_loop_def task_ok_def Let_def initial_loop_def startup_queue_names
      split: prod.splits sum.splits option.splits if_splits
      dest!: arg_cong [where f = snd] prepare_site_of)

lemma submit_step_ok:
  assumes "task_ok state_dir acct s" and "submit_step cd state_dir acct i s = Some (os, s')"
  shows "task_ok state_dir acct s'"
proof (cases i)
  case (Launch la)
  with assms launch_loop_ok show ?thesis by (auto split: if_splits)
next
  case (RestOver net waited)
  with assms show ?thesis by (auto simp: task_ok_def split: submit_phase.splits prod.splits if_splits)
next
  case (TimerFired head now)
  with assms show ?thesis
    using retry_queue.drain_ok [of "ls_queue (sm_loop s)" now]
    by (auto simp: task_ok_def Let_def split: submit_phase.splits prod.splits if_splits)
next
  case (TryNext v srv mo)
  then obtain st ctx b bs where "sm_phase s = Looping st ctx"
    and try_: "try_next cd st ctx v srv mo b bs s = Some (os, s')"
    using assms(2) by (auto split: submit_phase.splits list.splits)
  from try_ show ?thesis
  proof (cases rule: try_next_cases)
    case (attempted r w pause go_on)
    with attempt_queue [OF attempted(1)] assms(1) show ?thesis
      by (auto simp: task_ok_def retry_queue.put_ok)
  qed (use assms(1) in \<open>auto simp: task_ok_def\<close>)
next
  case (FileEvent v head now ev)
  with assms handle_event_sched_ok show ?thesis
    by (auto simp: task_ok_def split: submit_phase.splits prod.splits sum.splits if_splits)
next
  case (WatcherClosed head)
  with assms show ?thesis
    by (auto simp: task_ok_def split: submit_phase.splits if_splits dest!: arg_cong [where f = snd])
qed (use assms in \<open>auto simp: task_ok_def split: submit_phase.splits\<close>)

section \<open>A message through a step\<close>

text \<open>The message has been attempted where it lies, with an outcome that ends its stay.\<close>

definition left_outbox :: "path \<Rightarrow> string \<Rightarrow> submit_action \<Rightarrow> bool" where
  "left_outbox p c x \<longleftrightarrow>
     (case x of
        Attempted t b (Some (q, bytes)) (Some out) reqs \<Rightarrow>
          q = p \<and> stripping_of c bytes \<and> (out = Success \<or> (\<exists>reason. out = Permanent reason))
      | _ \<Rightarrow> False)"

text \<open>Other processes leave it alone.\<close>

definition left_alone :: "path \<Rightarrow> string \<Rightarrow> submit_input \<Rightarrow> bool" where
  "left_alone p c i \<longleftrightarrow> (case i of Elsewhere f \<Rightarrow> in_outbox p c f | _ \<Rightarrow> True)"

lemma try_next_keeps_message:
  assumes "try_next cd st ctx v srv mo b bs s = Some (os, s')"
    and "in_outbox p c (files (sm_world s))" and "\<not> prefix (st_sidecars st) p" and "\<not> prefix (st_failed st) p"
  shows "in_outbox p c (files (sm_world s')) \<or> (\<exists>x\<in>set os. left_outbox p c x)"
proof -
  let ?run = "handle_submit_attempt v cd srv mo ctx (st_submit st) (st_sidecars st) (st_outbox st) (st_failed st)
         b (ls_queue (sm_loop s)) (sm_notifier s) (sm_world s)"
  obtain x where x: "holds p x (files (sm_world s))" "stripping_of c x" using assms(2) by (auto simp: in_outbox_holds)
  have w': "sm_world s' = snd ?run"
    using assms(1) by (cases rule: try_next_cases) auto
  show ?thesis
  proof (cases "\<exists>bytes. locate_and_read_outbox_message v (st_outbox st) b (files (sm_world s)) = Inr (p, bytes)")
    case False
    with attempt_keeps_other [OF assms(3,4) x(1)] w' x(2) show ?thesis by (auto simp: in_outbox_holds)
  next
    case True
    then have loc: "locate_and_read_outbox_message v (st_outbox st) b (files (sm_world s)) = Inr (p, x)"
      using locate_file x(1) by (fastforce simp: holds_def)
    from assms(1) show ?thesis
    proof (cases rule: try_next_cases)
      case (panic e w)
      from attempt_keeps_this [OF loc panic(3) assms(3)] x(2) panic(2) show ?thesis
        by (auto simp: in_outbox_holds)
    next
      case (attempted r w pause go_on)
      from attempt_keeps_this [OF loc attempted(1) assms(3)] x(2) attempted(4,5) loc show ?thesis
        by (auto simp: in_outbox_holds left_outbox_def)
    qed
  qed
qed

lemma launch_loop_world:
  "sm_world (snd (launch_loop cd state_dir acct la s)) = snd (prepare_site (la_env la) state_dir acct (sm_world s))"
  by (auto simp: launch_loop_def Let_def split: prod.splits sum.splits option.splits)

lemma submit_step_keeps_message:
  assumes step: "submit_step cd state_dir acct i s = Some (os, s')" and ok: "task_ok state_dir acct s"
    and mail: "mail acct = Some m" and p: "p = mail_root_of m @ [''Outbox'', sub, name]"
    and plain: "\<not> prefix ''.'' name"
    and apart: "\<And>dir. sidecar_dir_for state_dir (acct_name acct) = Inr dir \<Longrightarrow> \<not> prefix dir p"
    and there: "in_outbox p c (files (sm_world s))" and others: "left_alone p c i"
  shows "in_outbox p c (files (sm_world s')) \<or> (\<exists>x\<in>set os. left_outbox p c x)"
proof -
  have ends: "p \<noteq> []" "\<not> prefix ''.'' (last p)" using p plain by simp_all
  have site: "\<not> prefix (st_sidecars st) p \<and> \<not> prefix (st_failed st) p" if "sm_phase s = Looping st ctx" for st ctx
    using ok that apart mail p by (auto simp: task_ok_def site_of_def)
  show ?thesis
  proof (cases i)
    case (Launch la)
    then have "s' = snd (launch_loop cd state_dir acct la s)" using step by (auto split: if_splits)
    with keepsD [OF keeps_in_outbox [OF prepare_site_keeps] there] show ?thesis
      by (simp add: launch_loop_world)
  next
    case (TryNext v srv mo)
    then obtain st ctx b bs where ph: "sm_phase s = Looping st ctx"
      and try_: "try_next cd st ctx v srv mo b bs s = Some (os, s')"
      using step by (auto split: submit_phase.splits list.splits)
    from try_next_keeps_message [OF try_ there] site [OF ph] show ?thesis by blast
  next
    case (FileEvent v head now ev)
    then obtain st ctx where ph: "sm_phase s = Looping st ctx"
      and w: "sm_world s' = snd (handle_event v cd (st_sidecars st) now ev
        (expire_pending_renames head (sm_loop s)) (sm_world s))"
      using step by (auto split: submit_phase.splits prod.splits sum.splits if_splits)
    have "\<not> prefix (st_sidecars st) p" using site [OF ph] by simp
    from keepsD [OF handle_event_keeps_message [OF ends this] there] w show ?thesis by simp
  next
    case (Elsewhere f)
    with step others show ?thesis by (auto simp: left_alone_def)
  next
    case (RestOver net waited)
    with step there show ?thesis by (auto split: submit_phase.splits prod.splits if_splits)
  next
    case (TimerFired head now)
    with step there show ?thesis by (auto simp: Let_def split: submit_phase.splits prod.splits if_splits)
  next
    case (WatcherClosed head)
    with step there show ?thesis
      by (auto split: submit_phase.splits if_splits dest!: arg_cong [where f = snd])
  next
    case CancelTask
    with step there show ?thesis by (auto split: submit_phase.splits)
  qed
qed

lemma run_keeps_message:
  assumes "run_machine (submit_step cd state_dir acct) is s = Some (os, s')" and "task_ok state_dir acct s"
    and "mail acct = Some m" and "p = mail_root_of m @ [''Outbox'', sub, name]" and "\<not> prefix ''.'' name"
    and "\<And>dir. sidecar_dir_for state_dir (acct_name acct) = Inr dir \<Longrightarrow> \<not> prefix dir p"
    and "in_outbox p c (files (sm_world s))" and "\<forall>i\<in>set is. left_alone p c i"
  shows "in_outbox p c (files (sm_world s')) \<or> (\<exists>x\<in>set os. left_outbox p c x)"
  using assms(1,2,7,8)
proof (induction "is" arbitrary: s os)
  case Nil
  then show ?case by simp
next
  case (Cons i js)
  then obtain os1 s1 os2 where step: "submit_step cd state_dir acct i s = Some (os1, s1)"
    and run: "run_machine (submit_step cd state_dir acct) js s1 = Some (os2, s')" and os: "os = os1 @ os2"
    by (auto simp only: run_machine_Cons)
  have i: "left_alone p c i" using Cons.prems(4) by simp
  from submit_step_keeps_message [OF step Cons.prems(2) assms(3-6) Cons.prems(3) i]
    Cons.IH [OF run submit_step_ok [OF Cons.prems(2) step]] Cons.prems(4) os
  show ?case by auto
qed

section \<open>A queued name\<close>

text \<open>A name waits in the queue, or among the drained names that are being attempted.\<close>

definition waiting :: "string \<Rightarrow> submit_task \<Rightarrow> bool" where
  "waiting b s \<longleftrightarrow> due_of (ls_queue (sm_loop s)) b \<noteq> None \<or> b \<in> set (sm_due s)"

definition running :: "submit_task \<Rightarrow> bool" where
  "running s \<longleftrightarrow> (case sm_phase s of Looping _ _ \<Rightarrow> True | _ \<Rightarrow> False)"

text \<open>The events that take a name off the queue: its file is removed, or appears in Failed.\<close>

definition withdraws :: "string \<Rightarrow> submit_input \<Rightarrow> bool" where
  "withdraws b i \<longleftrightarrow>
     (case i of
        FileEvent v head now ev \<Rightarrow>
          ev_path ev \<noteq> [] \<and> strip_flags (last (ev_path ev)) = b
          \<and> (ev_side ev = OutboxSide \<and> ev_kind ev = RemoveEvent
             \<or> ev_side ev = FailedSide \<and> ev_kind ev = CreateOrRenameTo)
      | _ \<Rightarrow> False)"

definition attempts :: "string \<Rightarrow> submit_action \<Rightarrow> bool" where
  "attempts b x \<longleftrightarrow> (case x of Attempted _ b' _ _ _ \<Rightarrow> b' = b | _ \<Rightarrow> False)"

lemma event_keeps_due:
  assumes "handle_event v cd dir now ev l w = (Inr l', w')" and "sched_ok (ls_queue l)"
    and "due_of (ls_queue l) b \<noteq> None" and "\<not> withdraws b (FileEvent v head now ev)"
  shows "due_of (ls_queue l') b \<noteq> None"
  using assms
  by (auto simp: handle_event_def withdraws_def Let_def bindE_eq_Inr ret_def
      retry_queue.put_due retry_queue.cancel_due
      split: if_splits option.splits outbox_side.splits raw_event_kind.splits)

lemma submit_step_waiting:
  assumes step: "submit_step cd state_dir acct i s = Some (os, s')" and ok: "task_ok state_dir acct s"
    and run: "running s" and wait: "waiting b s" and no: "\<not> withdraws b i"
  shows "waiting b s' \<or> (\<exists>x\<in>set os. attempts b x) \<or> \<not> running s'"
proof (cases i)
  case (TimerFired head now)
  have q: "sched_ok (ls_queue (sm_loop s))" using ok by (simp add: task_ok_def)
  from TimerFired step wait retry_queue.drained [OF q, of b now] retry_queue.drain_due [OF q, of now b]
  show ?thesis
    by (auto simp: waiting_def Let_def split: submit_phase.splits prod.splits if_splits option.splits)
next
  case (TryNext v srv mo)
  then obtain st ctx b' bs where due: "sm_due s = b' # bs"
    and try_: "try_next cd st ctx v srv mo b' bs s = Some (os, s')"
    using step by (auto split: submit_phase.splits list.splits)
  have q: "sched_ok (ls_queue (sm_loop s))" using ok by (simp add: task_ok_def)
  from try_ show ?thesis
  proof (cases rule: try_next_cases)
    case (panic e w)
    then show ?thesis by (simp add: running_def)
  next
    case (attempted r w pause go_on)
    with attempt_queue [OF attempted(1)] retry_queue.put_due [OF q] wait due
    show ?thesis by (auto simp: waiting_def attempts_def)
  qed
next
  case (FileEvent v head now ev)
  with step wait ok no event_keeps_due [of v cd _ now ev "expire_pending_renames head (sm_loop s)"]
  show ?thesis
    by (fastforce simp: waiting_def task_ok_def split: submit_phase.splits prod.splits sum.splits if_splits)
next
  case (WatcherClosed head)
  with step show ?thesis
    by (auto simp: running_def after_return_def split: submit_phase.splits if_splits prod.splits)
qed (use step run wait in \<open>auto simp: running_def waiting_def split: submit_phase.splits prod.splits if_splits\<close>)

text \<open>An attempt that failed for the time being queues its name again, and has held up the loop.\<close>

lemma settle_transient:
  assumes "settle_attempt v cd mo cfg dir failed b q n p sc (Transient reason) reqs w = (Inr r, w')"
    and "next_attempts sc = k"
  shows "\<exists>delay. backoff_delay (mo_rnd mo) k (retry_base_secs cfg) (retry_cap_secs cfg) (mo_nanos mo) = Some delay
    \<and> ar_queue r = (if snd (wait_for_connectivity_or_delay (mo_net mo) delay (mo_waited mo) (mo_cancelled mo))
                     then schedule_at b (mo_after mo) q else q)"
  using assms
  by (auto simp: settle_attempt_def bindE_eq_Inr throw_def ret_def Let_def
      split: option.splits prod.splits if_splits)

lemma transient_waits:
  assumes run: "handle_submit_attempt v cd srv mo ctx (st_submit st) (st_sidecars st) (st_outbox st) (st_failed st)
      b q n w = (Inr r, w')"
    and out: "ar_outcome r = Some (Transient reason)"
    and pause: "attempt_pause v cd st mo b (files w) (ar_outcome r) = (pause, True)"
  shows "ar_queue r = schedule_at b (mo_after mo) q
    \<and> (\<exists>delay\<le>pause. backoff_delay (mo_rnd mo) (next_attempts (load_sidecar v cd (st_sidecars st) b (files w)))
        (retry_base_secs (st_submit st)) (retry_cap_secs (st_submit st)) (mo_nanos mo) = Some delay)"
proof -
  let ?sc = "in_flight_sidecar v cd mo (st_sidecars st) b (files w)"
  have k: "next_attempts ?sc = next_attempts (load_sidecar v cd (st_sidecars st) b (files w))"
    by (simp add: in_flight_sidecar_def next_attempts_def)
  from run show ?thesis
  proof (cases rule: attempt_cases)
    case (settled p o1 reqs w1)
    have o1: "o1 = Transient reason" using settle_outcome [OF settled] out by simp
    from settle_transient [OF settled [unfolded o1] k] pause out show ?thesis
      by (fastforce simp: attempt_pause_def wait_for_connectivity_or_delay_def Let_def
          split: option.splits prod.splits network_wait.splits if_splits)
  qed (use out in simp)
qed

section \<open>The clock\<close>

definition attempt_time :: "submit_action \<Rightarrow> instant option" where
  "attempt_time x = (case x of Attempted t _ _ _ _ \<Rightarrow> Some t | _ \<Rightarrow> None)"

lemma attempt_time_notice [simp]: "attempt_time (SubmitNotice n) = None"
  by (simp add: attempt_time_def)

lemma launch_loop_times:
  "sm_clock (snd (launch_loop cd state_dir acct la s)) = la_now la
   \<and> (\<forall>x\<in>set (fst (launch_loop cd state_dir acct la s)). attempt_time x = None)"
  by (auto simp: launch_loop_def after_return_def Let_def split: prod.splits sum.splits option.splits if_splits)

lemma submit_step_time:
  assumes "submit_step cd state_dir acct i s = Some (os, s')"
  shows "sm_clock s \<le> sm_clock s' \<and> (\<forall>x\<in>set os. \<forall>t. attempt_time x = Some t \<longrightarrow> t = sm_clock s)"
proof (cases i)
  case (Launch la)
  with assms launch_loop_times [of cd state_dir acct la s] show ?thesis by (auto split: if_splits)
next
  case (TryNext v srv mo)
  then obtain st ctx b bs where "try_next cd st ctx v srv mo b bs s = Some (os, s')"
    using assms by (auto split: submit_phase.splits list.splits)
  then show ?thesis by (cases rule: try_next_cases) (auto simp: attempt_time_def)
next
  case (WatcherClosed head)
  with assms show ?thesis
    by (auto simp: after_return_def split: submit_phase.splits if_splits prod.splits)
qed (use assms in \<open>auto simp: attempt_time_def Let_def
      split: submit_phase.splits prod.splits sum.splits if_splits\<close>)

lemma run_time:
  "run_machine (submit_step cd state_dir acct) is s = Some (os, s') \<Longrightarrow>
   sm_clock s \<le> sm_clock s' \<and> (\<forall>x\<in>set os. \<forall>t. attempt_time x = Some t \<longrightarrow> sm_clock s \<le> t)"
proof (induction "is" arbitrary: s os)
  case Nil
  then show ?case by simp
next
  case (Cons i js)
  then obtain os1 s1 os2 where step: "submit_step cd state_dir acct i s = Some (os1, s1)"
    and run: "run_machine (submit_step cd state_dir acct) js s1 = Some (os2, s')" and os: "os = os1 @ os2"
    by (auto simp only: run_machine_Cons)
  from submit_step_time [OF step] Cons.IH [OF run] os show ?case
    by (metis Un_iff le_trans order_refl set_append)
qed

text \<open>Only an attempt reports an attempt.\<close>

lemma submit_step_attempts:
  assumes "submit_step cd state_dir acct i s = Some (os, s')" and "Attempted t b loc out reqs \<in> set os"
  shows "\<exists>st ctx v srv mo b' bs. i = TryNext v srv mo \<and> sm_phase s = Looping st ctx \<and> sm_due s = b' # bs
    \<and> try_next cd st ctx v srv mo b' bs s = Some (os, s')"
proof (cases i)
  case (Launch la)
  with assms launch_loop_times [of cd state_dir acct la s] show ?thesis
    by (fastforce simp: attempt_time_def split: if_splits)
next
  case (WatcherClosed head)
  with assms show ?thesis
    by (auto simp: after_return_def split: submit_phase.splits if_splits prod.splits)
qed (use assms in \<open>auto simp: Let_def
      split: submit_phase.splits prod.splits sum.splits list.splits if_splits\<close>)

section \<open>Notices of the submit task\<close>

definition submit_notices :: "submit_action list \<Rightarrow> notice list" where
  "submit_notices os = List.map_filter (\<lambda>x. case x of SubmitNotice n \<Rightarrow> Some (fst n) | _ \<Rightarrow> None) os"

lemma submit_notices_simps [simp]:
  "submit_notices [] = []" "submit_notices (SubmitNotice n # os) = fst n # submit_notices os"
  "submit_notices (Rested d # os) = submit_notices os"
  "submit_notices (Attempted t b loc out reqs # os) = submit_notices os"
  "submit_notices (xs @ ys) = submit_notices xs @ submit_notices ys"
  by (simp_all add: submit_notices_def map_filter_def)

lemma submit_notices_map [simp]: "submit_notices (map SubmitNotice ns) = map fst ns"
  by (induction ns) simp_all

lemma settle_notices:
  "settle_attempt v cd mo cfg dir failed b q n p sc out reqs w = (Inr r, w') \<Longrightarrow>
   follow (fn_failed n) (map fst (ar_notices r)) = Some (fn_failed (ar_notifier r))"
  by (auto simp: settle_attempt_def bindE_eq_Inr throw_def ret_def Let_def
      split: submit_outcome.splits option.splits prod.splits if_splits
      dest: follow_failed follow_recovered)

lemma attempt_notices:
  assumes "handle_submit_attempt v cd srv mo ctx cfg dir outbox failed b q n w = (Inr r, w')"
  shows "follow (fn_failed n) (map fst (ar_notices r)) = Some (fn_failed (ar_notifier r))"
  using assms by (cases rule: attempt_cases) (auto dest: settle_notices)

lemma after_return_notices:
  assumes "after_return c os s = (os', s')" and "follow d (submit_notices os) = Some (fn_failed (sm_notifier s))"
  shows "follow d (submit_notices os') = Some (fn_failed (sm_notifier s'))"
  using assms
  by (auto simp: after_return_def follow_append split: if_splits prod.splits dest: follow_failed)

lemma launch_loop_notices:
  assumes "launch_loop cd state_dir acct la s = (os, s')"
  shows "follow (fn_failed (sm_notifier s)) (submit_notices os) = Some (fn_failed (sm_notifier s'))"
  using assms
  by (auto simp: launch_loop_def Let_def split: prod.splits sum.splits option.splits if_splits
      elim!: after_return_notices dest: follow_recovered)

lemma submit_step_follows:
  assumes "submit_step cd state_dir acct i s = Some (os, s')"
  shows "follow (fn_failed (sm_notifier s)) (submit_notices os) = Some (fn_failed (sm_notifier s'))"
proof (cases i)
  case (Launch la)
  with assms launch_loop_notices show ?thesis by (auto split: if_splits)
next
  case (TryNext v srv mo)
  then obtain st ctx b bs where "try_next cd st ctx v srv mo b bs s = Some (os, s')"
    using assms by (auto split: submit_phase.splits list.splits)
  then show ?thesis by (cases rule: try_next_cases) (auto dest: attempt_notices)
next
  case (WatcherClosed head)
  with assms show ?thesis
    by (auto split: submit_phase.splits if_splits elim!: after_return_notices)
qed (use assms in \<open>auto simp: Let_def split: submit_phase.splits prod.splits sum.splits if_splits\<close>)

interpretation submit_order: ordered_machine "submit_step cd state_dir acct" "task_ok state_dir acct"
  "\<lambda>s. fn_failed (sm_notifier s)" "\<lambda>d os. follow d (submit_notices os)"
  by unfold_locales (auto intro: submit_step_ok submit_step_follows simp: follow_append)

text \<open>A user sees one notice for each change, whatever made the task start over.\<close>

lemma submit_notices_alternate:
  assumes "run_machine (submit_step cd state_dir acct) is (submit_start upper acct w) = Some (os, s)"
  shows "alternating Down (submit_notices os)"
  using follow_alternating [OF submit_order.run_tracked [OF submit_start_ok assms]]
  by (simp add: submit_start_def new_notifier_def)

end
