(* ===== verification/Send_Folders.thy ===== *)
theory Send_Folders
  imports Email_Files Sync_Account
begin

text \<open>
  The synchronisation beside the send path. \<open>jmapqueue\<close> and the submit task own the folders
  Outbox and Failed below the mail root; a pass of the synchronisation changes nothing in them
  as long as no mailbox leads there. The invariant is one of the stored rows: every mailbox path
  and every email's file path descends from the root by plain names, past the two folders.
\<close>

section \<open>Paths that stay clear of the send folders\<close>

definition send_folders :: "string list" where
  "send_folders = [''Outbox'', ''Failed'']"

definition clear_path :: "string \<Rightarrow> bool" where
  "clear_path s \<longleftrightarrow>
     (let cs = split_on CHR ''/'' s in
      list_all plain_component cs \<and> filename_base (hd cs) \<notin> set send_folders)"

definition beside :: "path \<Rightarrow> path \<Rightarrow> bool" where
  "beside root p \<longleftrightarrow> (\<exists>c cs. p = root @ c # cs \<and> c \<notin> set send_folders \<and> list_all plain_component (c # cs))"

lemma filename_base_folder: "c \<in> set send_folders \<Longrightarrow> filename_base c = c"
  by (auto simp: send_folders_def filename_base_def)

lemma clear_head:
  assumes "clear_path s"
  obtains c cs where "split_on CHR ''/'' s = c # cs" "list_all plain_component (c # cs)"
    "filename_base c \<notin> set send_folders" "c \<notin> set send_folders"
proof (cases "split_on CHR ''/'' s")
  case (Cons c cs)
  with assms that show ?thesis using filename_base_folder by (fastforce simp: clear_path_def)
qed simp

lemma clear_join:
  assumes "clear_path s"
  shows "join_path root s = root @ split_on CHR ''/'' s"
proof -
  let ?cs = "split_on CHR ''/'' s"
  have plain: "list_all plain_component ?cs" using assms by (simp add: clear_path_def Let_def)
  have "join_path root (join_with [CHR ''/''] ?cs) = root @ ?cs"
    using plain by (intro join_path_plain) (auto simp: list_all_iff)
  then show ?thesis by (simp add: join_split_on)
qed

lemma clear_beside: "clear_path s \<Longrightarrow> beside root (join_path root s)"
  by (rule clear_head) (auto simp: clear_join beside_def)

lemma clear_relative: "clear_path s \<Longrightarrow> \<not> prefix ''/'' s"
  by (cases s) (auto simp: clear_path_def plain_component_def)

lemma beside_append: "beside root p \<Longrightarrow> list_all plain_component xs \<Longrightarrow> beside root (p @ xs)"
  by (auto simp: beside_def)

lemma clear_append: "clear_path s \<Longrightarrow> plain_component c \<Longrightarrow> clear_path (s @ ''/'' @ c)"
proof (rule clear_head, assumption)
  fix d ds assume s: "clear_path s" and c: "plain_component c" and d: "split_on CHR ''/'' s = d # ds"
  have "split_on CHR ''/'' (s @ ''/'' @ c) = d # ds @ [c]"
    using c d split_on_append_sep [of "CHR ''/''" s c] by (simp add: plain_component_def split_on_single)
  with s c d show ?thesis by (simp add: clear_path_def)
qed

text \<open>New flags touch the component in which the last \<open>:2,\<close> stands, or the last one.\<close>

lemma split_on_prefix:
  assumes "CHR ''/'' \<notin> set d"
  obtains xs x y zs where "split_on CHR ''/'' (b @ d @ t) = xs @ (x @ d @ y) # zs"
    "split_on CHR ''/'' b = xs @ [x]" "split_on CHR ''/'' t = y # zs"
proof -
  obtain xs x where b: "split_on CHR ''/'' b = xs @ [x]"
    using split_on_not_Nil by (metis append_butlast_last_id)
  obtain y zs where t: "split_on CHR ''/'' t = y # zs"
    by (cases "split_on CHR ''/'' t") auto
  have glue: "split_on c (d @ t) = (d @ y) # zs" if "c \<notin> set d" "split_on c t = y # zs" for c d
    using that by (induction d) auto
  have "split_on c (b @ s) = xs @ (x @ y) # zs"
    if "split_on c b = xs @ [x]" "split_on c s = y # zs" for c b s xs x y
    using that
  proof (induction b arbitrary: xs x)
    case (Cons e b)
    show ?case
    proof (cases "e = c")
      case True
      with Cons show ?thesis by (cases xs) auto
    next
      case False
      with Cons.prems(1) obtain u us where u: "split_on c b = u # us" "xs @ [x] = (e # u) # us"
        by (cases "split_on c b") auto
      show ?thesis
      proof (cases xs)
        case Nil
        with u have "split_on c b = [] @ [u]" "x = e # u" by auto
        with Cons.IH [of "[]" u] Cons.prems(2) False Nil show ?thesis by simp
      next
        case (Cons v vs)
        with u have "split_on c b = (u # vs) @ [x]" "v = e # u" by auto
        with Cons.IH [of "u # vs" x] Cons.prems(2) False Cons show ?thesis by simp
      qed
    qed
  qed simp
  from this [OF b glue [OF assms t]] b t that show ?thesis by simp
qed

lemma plain_flagged: "CHR ''/'' \<notin> set x \<Longrightarrow> CHR ''/'' \<notin> set f \<Longrightarrow> plain_component (x @ '':2,'' @ f)"
  by (cases x) (auto simp: plain_component_def)

lemma filename_base_flagged: "rsplit_once '':2,'' f = None \<Longrightarrow> filename_base (x @ '':2,'' @ f) = x"
proof -
  assume "rsplit_once '':2,'' f = None"
  then have "rsplit_once '':2,'' (x @ '':2,'' @ f) = Some (x, f)" by (induction x) simp_all
  then show ?thesis by (simp add: filename_base_def)
qed

lemma rsplit_once_absent_prefix: "rsplit_once (c # d) (u @ t) = None \<Longrightarrow> rsplit_once (c # d) u = None"
proof (induction u)
  case (Cons x u)
  have none: "rsplit_once (c # d) (u @ t) = None" "\<not> prefix (c # d) (x # u @ t)"
    using Cons.prems by (auto split: option.splits if_splits simp del: prefix_Cons Cons_prefix_Cons)
  then have "\<not> prefix (c # d) (x # u)" using prefix_append [of "c # d" "x # u" t] by auto
  with Cons.IH [OF none(1)] show ?case by (simp del: Cons_prefix_Cons)
qed simp

lemma clear_rebuild:
  assumes s: "clear_path s" and f: "CHR ''/'' \<notin> set f" "CHR '':'' \<notin> set f"
  shows "clear_path (rebuild_path_with_flags s f)"
proof -
  obtain xs x where b: "split_on CHR ''/'' (filename_base s) = xs @ [x]"
    and new: "split_on CHR ''/'' (rebuild_path_with_flags s f) = xs @ [x @ '':2,'' @ f]"
    unfolding rebuild_path_eq
    by (rule split_on_prefix [of "'':2,''" "filename_base s" f]) (use f in \<open>auto simp: split_on_single\<close>)
  have "\<exists>c cs. split_on CHR ''/'' s = xs @ c # cs \<and> (c = x \<or> filename_base c = x)"
  proof (cases "rsplit_once '':2,'' s")
    case None
    then have "filename_base s = s" by (simp add: filename_base_def)
    with b show ?thesis by simp
  next
    case (Some bt)
    then obtain t where t: "rsplit_once '':2,'' s = Some (filename_base s, t)"
      by (cases bt) (simp add: filename_base_def)
    have s_eq: "filename_base s @ '':2,'' @ t = s" using rsplit_once_Some [OF t] by simp
    obtain us u y zs where sp: "split_on CHR ''/'' s = us @ (u @ '':2,'' @ y) # zs"
      and u: "split_on CHR ''/'' (filename_base s) = us @ [u]" and y: "split_on CHR ''/'' t = y # zs"
      by (rule split_on_prefix [of "'':2,''" "filename_base s" t, unfolded s_eq]) simp
    obtain r where "t = y @ r" using join_split_on [of "CHR ''/''" t] y by (cases zs) auto
    with rsplit_once_tail_absent [OF t] have "rsplit_once '':2,'' y = None"
      by (auto intro: rsplit_once_absent_prefix)
    then have "filename_base (u @ '':2,'' @ y) = u" by (rule filename_base_flagged)
    with sp u b show ?thesis by auto
  qed
  then obtain c cs where c: "split_on CHR ''/'' s = xs @ c # cs" "c = x \<or> filename_base c = x" by blast
  have "CHR ''/'' \<notin> set x" using split_on_no_sep [of x "CHR ''/''" "filename_base s"] b by simp
  then have plain: "list_all plain_component (xs @ [x @ '':2,'' @ f])"
    using s c(1) plain_flagged f by (simp add: clear_path_def)
  show ?thesis
  proof (cases xs)
    case Nil
    then have "x \<notin> set send_folders"
      using s c filename_base_folder [of x] by (auto simp: clear_path_def)
    with plain new Nil f show ?thesis
      using filename_base_flagged [OF rsplit_once_absent [OF f(2)], of x]
      by (simp add: clear_path_def)
  next
    case (Cons d ds)
    with s c plain new show ?thesis by (simp add: clear_path_def)
  qed
qed

section \<open>File systems with plain names\<close>

text \<open>The names a kernel keeps: not empty, not a dot or two, and without a slash.\<close>

definition plain_fs :: "fs \<Rightarrow> bool" where
  "plain_fs f \<longleftrightarrow> list_all (\<lambda>(p, _). list_all plain_component p) f"

lemma plain_fs_get: "plain_fs f \<longleftrightarrow> (\<forall>p. map_of f p \<noteq> None \<longrightarrow> list_all plain_component p)"
  unfolding plain_fs_def list_all_iff map_of_eq_None_iff by force

lemma plain_fs_mono:
  "plain_fs f \<Longrightarrow> (\<And>p. map_of f' p \<noteq> None \<Longrightarrow> map_of f p \<noteq> None \<or> list_all plain_component p) \<Longrightarrow> plain_fs f'"
  unfolding plain_fs_get by blast

lemma clear_current:
  assumes "resolve_current_file v f root s = Some (rel, flags)" and s: "clear_path s" and f: "plain_fs f"
  shows "clear_path rel"
proof -
  obtain xs x where x: "split_on CHR ''/'' s = xs @ [x]"
    using split_on_not_Nil by (metis append_butlast_last_id)
  have join: "join_path root s = root @ xs @ [x]" using s x by (simp add: clear_join)
  obtain names name where names: "read_dir f (root @ xs) = Some names"
    and find: "find (\<lambda>n. filename_base n = filename_base x) names = Some name"
    and rel: "rel = join_with ''/'' (xs @ [name])"
    using assms(1) unfolding resolve_current_file_def join Let_def
    by (auto simp: butlast_append split: if_splits option.splits)
  have name: "name \<in> set names" "filename_base name = filename_base x"
    using find by (auto simp: find_Some_iff)
  then have "root @ xs @ [name] \<in> fst ` set f"
    using names read_dir_dir_entries [of name f "root @ xs"] by (auto simp: read_dir_def split: if_splits)
  then have plain: "plain_component name"
    using f unfolding plain_fs_get map_of_eq_None_iff by (auto dest!: spec [of _ "root @ xs @ [name]"])
  have all: "list_all plain_component (xs @ [name])"
    using s x plain by (simp add: clear_path_def)
  then have "split_on CHR ''/'' rel = xs @ [name]"
    unfolding rel by (intro split_on_join) (auto simp: list_all_iff plain_component_def)
  with s x name all show ?thesis by (cases xs) (auto simp: clear_path_def)
qed

section \<open>The frame of the system calls\<close>

text \<open>
  \<open>q\<close> is a place in one of the two folders; what is there (a file, a directory or nothing) is
  kept, and with it the plain names and the clear rows.
\<close>

definition rows_clear :: "database \<Rightarrow> bool" where
  "rows_clear d \<longleftrightarrow> list_all (\<lambda>m. clear_path (mb_path m)) (mailboxes d)
     \<and> list_all (\<lambda>e. clear_path (em_file_path e)) (emails d)"

definition spared :: "path \<Rightarrow> node option \<Rightarrow> world \<Rightarrow> bool" where
  "spared q n w \<longleftrightarrow> rows_clear (db w) \<and> plain_fs (files w) \<and> map_of (files w) q = n"

locale send_folder =
  fixes root q :: path and n :: "node option"
  assumes plain_root: "list_all plain_component root"
    and in_folder: "\<exists>b rest. b \<in> set send_folders \<and> q = root @ b # rest"
begin

lemma beside_apart: "beside root p \<Longrightarrow> \<not> prefix p q \<and> \<not> prefix q p"
  using in_folder by (auto simp: beside_def)

lemma beside_plain: "beside root p \<Longrightarrow> list_all plain_component p"
  using plain_root by (auto simp: beside_def)

lemma spared_sys:
  assumes "\<And>f f'. plain_fs f \<Longrightarrow> g f = Some f' \<Longrightarrow> plain_fs f' \<and> map_of f' q = map_of f q"
  shows "keeps (spared q n) (sys v op g)"
  unfolding keeps_def sys_def spared_def using assms by (auto split: option.splits)

lemma spared_create_dir [keeps_rules]:
  assumes "beside root p \<or> p = root"
  shows "keeps (spared q n) (sys_create_dir_all v p)"
  unfolding sys_create_dir_all_def
proof (rule spared_sys)
  fix f f' assume f: "plain_fs f" "create_dir_all f p = Some f'"
  have "\<not> prefix q p" using assms beside_apart in_folder by auto
  moreover have "list_all plain_component p" using assms beside_plain plain_root by auto
  then have "list_all plain_component r" if "prefix r p" for r
    using that by (auto simp: prefix_def)
  ultimately show "plain_fs f' \<and> map_of f' q = map_of f q"
    using f(1) by (auto simp: plain_fs_get map_of_create_dir_all [OF f(2)])
qed

lemma spared_write [keeps_rules]: "beside root p \<Longrightarrow> keeps (spared q n) (sys_write v p c)"
  unfolding sys_write_def
proof (rule spared_sys)
  fix f f' assume p: "beside root p" and f: "plain_fs f" "write_file f p c = Some f'"
  have get: "map_of f' = (map_of f)(p \<mapsto> File c)" by (rule map_of_write_file [OF f(2)])
  with beside_plain [OF p] have "plain_fs f'" by (intro plain_fs_mono [OF f(1)]) (auto split: if_splits)
  with get beside_apart [OF p] show "plain_fs f' \<and> map_of f' q = map_of f q" by auto
qed

lemma spared_remove_file [keeps_rules]: "beside root p \<Longrightarrow> keeps (spared q n) (sys_remove_file v p)"
  unfolding sys_remove_file_def
proof (rule spared_sys)
  fix f f' assume p: "beside root p" and f: "plain_fs f" "remove_file f p = Some f'"
  have get: "map_of f' = (map_of f)(p := None)" by (rule map_of_remove_file [OF f(2)])
  then have "plain_fs f'" by (intro plain_fs_mono [OF f(1)]) (auto split: if_splits)
  with get beside_apart [OF p] show "plain_fs f' \<and> map_of f' q = map_of f q" by auto
qed

lemma spared_remove_dir [keeps_rules]: "beside root p \<Longrightarrow> keeps (spared q n) (sys_remove_dir_all v p)"
  unfolding sys_remove_dir_all_def
proof (rule spared_sys)
  fix f f' assume p: "beside root p" and f: "plain_fs f" "remove_dir_all f p = Some f'"
  have "plain_fs f'"
    by (rule plain_fs_mono [OF f(1)]) (simp add: map_of_remove_dir_all [OF f(2)] split: if_splits)
  with beside_apart [OF p] show "plain_fs f' \<and> map_of f' q = map_of f q"
    by (simp add: map_of_remove_dir_all [OF f(2)])
qed

lemma moved_elsewhere:
  assumes "\<not> prefix a q" and "\<not> prefix b q"
  shows "map_of (map (\<lambda>(p, x). (move_entry a b p, x)) f) q = map_of f q"
proof -
  have eq: "move_entry a b p = q \<longleftrightarrow> p = q" for p
  proof (cases "prefix a p")
    case True
    with assms have "b @ drop (length a) p \<noteq> q" "p \<noteq> q" by (metis prefixI, blast)
    with True show ?thesis by (simp add: move_entry_def)
  qed (simp add: move_entry_def)
  show ?thesis
  proof (induction f)
    case (Cons e f)
    obtain p x where "e = (p, x)" by force
    with Cons eq [of p] show ?case by (cases "p = q") simp_all
  qed simp
qed

lemma spared_rename [keeps_rules]:
  assumes "beside root a" and "beside root b"
  shows "keeps (spared q n) (sys_rename v a b)"
  unfolding sys_rename_def
proof (rule spared_sys)
  fix f f' assume f: "plain_fs f" "rename f a b = Some f'"
  show "plain_fs f' \<and> map_of f' q = map_of f q"
  proof (cases "\<exists>c. map_of f a = Some (File c)")
    case True
    then obtain c where c: "map_of f a = Some (File c)" by blast
    note get = map_of_rename_file [OF f(2) c]
    with beside_plain [OF assms(2)] have "plain_fs f'"
      by (intro plain_fs_mono [OF f(1)]) (auto split: if_splits)
    with get beside_apart [OF assms(1)] beside_apart [OF assms(2)] show ?thesis by auto
  next
    case False
    with f(2) have f': "f' = f \<or> f' = map (\<lambda>(p, x). (move_entry a b p, x)) (AList.delete b f)"
      by (auto simp: rename_def split: option.splits node.splits if_splits)
    have "map_of (map (\<lambda>(p, x). (move_entry a b p, x)) (AList.delete b f)) q = map_of f q"
      using beside_apart [OF assms(1)] beside_apart [OF assms(2)]
      by (auto simp: moved_elsewhere AList.delete_conv')
    moreover have "list_all plain_component (move_entry a b p)" if "list_all plain_component p" for p
      using that beside_plain [OF assms(2)] by (auto simp: move_entry_def prefix_def)
    then have "plain_fs (map (\<lambda>(p, x). (move_entry a b p, x)) (AList.delete b f))"
      using f(1) by (auto simp: plain_fs_def list_all_iff AList.delete_eq)
    ultimately show ?thesis using f(1) f' by auto
  qed
qed

end

section \<open>The frame of the mailboxes\<close>

definition clear_targets :: "(string, target_mailbox) hmap \<Rightarrow> bool" where
  "clear_targets t \<longleftrightarrow> list_all (\<lambda>(_, m). clear_path (tm_path m)) t"

lemma beside_parent: "beside root p \<Longrightarrow> beside root (butlast p) \<or> butlast p = root"
  unfolding beside_def
  by (elim exE) (case_tac cs rule: rev_cases; auto simp: butlast_append)

lemma in_iterateD: "(k, x) \<in> set (iterate v n m) \<Longrightarrow> (k, x) \<in> set m"
  by (auto simp: iterate_def in_map_filter dest: map_of_SomeD)

lemma clear_create_or_update:
  assumes "clear_targets target" and "jmap_id \<in> fst ` set target"
  shows "clear_path (tm_path (the (map_of target jmap_id)))"
proof -
  obtain t where "map_of target jmap_id = Some t"
    using assms(2) by (cases "map_of target jmap_id") (auto simp: map_of_eq_None_iff)
  then show ?thesis using assms(1) map_of_SomeD by (fastforce simp: clear_targets_def list_all_iff)
qed

context send_folder
begin

lemma spared_rows [keeps_rules]:
  "clear_path (mb_path m) \<Longrightarrow> keeps (spared q n) (db_exec (\<lambda>d. insert_mailbox d m))"
  "clear_path (mb_path m) \<Longrightarrow> keeps (spared q n) (db_exec (\<lambda>d. update_mailbox_row d m))"
  "keeps (spared q n) (db_exec (\<lambda>d. delete_mailbox_row d i))"
  "clear_path (em_file_path e) \<Longrightarrow> keeps (spared q n) (db_exec (\<lambda>d. insert_email_row d e))"
  "clear_path (em_file_path e) \<Longrightarrow> keeps (spared q n) (db_exec (\<lambda>d. update_email_row d e))"
  "keeps (spared q n) (db_exec (\<lambda>d. delete_email_row d i))"
  "keeps (spared q n) (db_exec (\<lambda>d. insert_email_mailbox d j))"
  "keeps (spared q n) (db_exec (\<lambda>d. delete_email_mailbox d i k))"
  by (auto simp: keeps_def db_exec_def spared_def rows_clear_def list_all_iff Let_def db_defs
      split: sum.splits if_splits)

lemma spared_quiet [keeps_rules]:
  "keeps (spared q n) (generate_id v)" "keeps (spared q n) (send_email_set cl req)"
  by (simp_all add: keeps_def spared_def generate_id_def send_email_set_def)

lemma spared_create_maildir [keeps_rules]:
  "beside root p \<Longrightarrow> keeps (spared q n) (create_maildir v p)"
  unfolding create_maildir_def
  by (intro keeps_rules disjI1 beside_append) (auto simp: plain_component_def)

lemma spared_rename_dir [keeps_rules]:
  "beside root a \<Longrightarrow> beside root b \<Longrightarrow> keeps (spared q n) (rename_mailbox_dir v a b)"
  unfolding rename_mailbox_dir_def using beside_parent by (intro keeps_rules) auto

lemma spared_create_mailbox [keeps_rules]:
  "clear_path (tm_path t) \<Longrightarrow> keeps (spared q n) (create_mailbox v root l dry t)"
  unfolding create_mailbox_def Let_def by (intro keeps_rules) (simp_all add: clear_beside)

lemma spared_update_mailbox [keeps_rules]:
  "clear_path (mb_path r) \<Longrightarrow> clear_path (mb_path r') \<Longrightarrow> keeps (spared q n) (update_mailbox v root dry r r')"
  unfolding update_mailbox_def by (intro keeps_rules) (simp_all add: clear_beside)

lemma spared_delete_mailbox [keeps_rules]:
  "clear_path (mb_path r) \<Longrightarrow> keeps (spared q n) (delete_mailbox v root dry r)"
  unfolding delete_mailbox_def Let_def by (intro keeps_rules) (simp_all add: clear_beside)

lemma spared_create_or_update [keeps_rules]:
  assumes "clear_targets target" and "jmap_id \<in> fst ` set target" and "list_all (\<lambda>(_, m). clear_path (mb_path m)) l"
  shows "keeps (spared q n) (create_or_update v root target l dry jmap_id stats)"
proof -
  have t: "clear_path (tm_path (the (map_of target jmap_id)))" by (rule clear_create_or_update [OF assms(1,2)])
  have l: "clear_path (mb_path r)" if "map_of l jmap_id = Some r" for r
    using assms(3) map_of_SomeD [OF that] by (auto simp: list_all_iff)
  have new: "mb_path r' = tm_path tgt" if "diff_and_build_update r tgt l = Some r'" for r r' tgt
    using that by (auto simp: diff_and_build_update_def Let_def split: if_splits)
  show ?thesis
    unfolding create_or_update_def Let_def using t l by (intro keeps_rules) (auto simp: new)
qed

lemma spared_apply_diff [keeps_rules]:
  assumes "clear_targets target" and "list_all (\<lambda>(_, m). clear_path (mb_path m)) l"
  shows "keeps (spared q n) (apply_diff v root target l excl dry)"
proof -
  have "clear_path (mb_path r)" if "r \<in> set (mailboxes_to_delete target l excl)" for r
    using that assms(2) by (auto simp: mailboxes_to_delete_def list_all_iff)
  moreover have "i \<in> fst ` set target" if "i \<in> set (topo_sort_creates_and_updates target l)" for i
    using that mset_eq_setD [of "topo_sort_creates_and_updates target l" "hm_keys target"]
    by (simp add: topo_sort_creates_and_updates_def topo_loop_mset hm_keys_def)
  ultimately show ?thesis
    unfolding apply_diff_def using assms by (intro keeps_rules) auto
qed

lemma spared_cleanup [keeps_rules]: "keeps (spared q n) (cleanup_orphaned_emails v root dry)"
proof -
  have "yields (spared q n) (db_query orphaned_emails) (\<lambda>es. list_all (\<lambda>(_, p). clear_path p) es)"
    by (rule yields_db_query) (auto simp: spared_def rows_clear_def orphaned_emails_def list_all_iff)
  then show ?thesis
    unfolding cleanup_orphaned_emails_def Let_def
    by (rule keeps_bindE_yields) (intro keeps_rules; fastforce simp: list_all_iff dest: clear_relative intro: clear_beside)
qed

end

lemma in_updateD: "x \<in> set (AList.update k y al) \<Longrightarrow> x = (k, y) \<or> x \<in> set al"
  by (induction al) (auto split: if_splits)

lemma include_mailboxes_clear:
  assumes "include_mailboxes ids nm globs cfg ms inc = Inr out" and "clear_targets inc"
    and "\<And>m path. m \<in> set ms \<Longrightarrow> resolve_path m ids nm = Inr path \<Longrightarrow> clear_path path"
  shows "clear_targets out"
  using assms
proof (induction ms arbitrary: inc)
  case (Cons m ms)
  have upd: "clear_targets (AList.update i (target_entry nm i m path) inc)"
    if "resolve_path m ids nm = Inr path" for i path
    using Cons.prems(2) Cons.prems(3) [of m] that
    by (auto simp: clear_targets_def list_all_iff target_entry_def dest!: in_updateD)
  note IH = Cons.IH [OF _ _ Cons.prems(3)]
  from Cons.prems(1,2) show ?case
    by (auto simp: rbind_eq_Inr split: option.splits if_splits intro: IH upd)
qed simp

text \<open>No mailbox of the view leads into the send folders, or through a name that is not plain.\<close>

definition clear_view :: "mail_config \<Rightarrow> server_mailbox list \<Rightarrow> bool" where
  "clear_view cfg view \<longleftrightarrow>
     list_all (\<lambda>m. case resolve_path m (index_by_id view) (name_map_of cfg) of
        Inl _ \<Rightarrow> True | Inr path \<Rightarrow> clear_path path) view"

lemma build_target_set_clear:
  "build_target_set glob view cfg = Inr t \<Longrightarrow> clear_view cfg view \<Longrightarrow> clear_targets t"
  unfolding build_target_set_def Let_def rbind_eq_Inr
  by (elim exE conjE, rule include_mailboxes_clear) (auto simp: clear_targets_def clear_view_def list_all_iff split: sum.splits)

lemma clear_iterate: "list_all (\<lambda>(_, m). Q m) m \<Longrightarrow> list_all (\<lambda>(_, m). Q m) (iterate v n m)"
  by (auto simp: list_all_iff dest!: in_iterateD)

context send_folder
begin

lemma spared_sync_mailboxes:
  assumes "mail acct = Some cfg" and "mail_root_of cfg = root" and "\<And>view. mailbox_get = Inr view \<Longrightarrow> clear_view cfg view"
  shows "yields (spared q n) (sync_mailboxes v glob mailbox_get acct dry)
    (list_all (\<lambda>m. clear_path (mb_path m)))"
proof -
  have rows: "yields (spared q n) (db_query local_mailboxes_by_jmap) (list_all (\<lambda>(_, m). clear_path (mb_path m)))"
    by (rule yields_db_query) (auto simp: spared_def rows_clear_def local_mailboxes_by_jmap_def
        get_all_mailboxes_def list_all_iff in_map_filter dest!: in_hm_collectD)
  have all: "yields (spared q n) (db_query get_all_mailboxes) (list_all (\<lambda>m. clear_path (mb_path m)))"
    by (rule yields_db_query) (simp add: spared_def rows_clear_def get_all_mailboxes_def)
  have view: "yields (spared q n) (liftE mailbox_get) (\<lambda>view. clear_view cfg view)"
    using assms(3) by (simp add: yields_def)
  have target: "yields (spared q n) (liftE (build_target_set glob view cfg)) clear_targets" if "clear_view cfg view" for view
    using that build_target_set_clear by (auto simp: yields_def)
  show ?thesis
    unfolding sync_mailboxes_def assms(1) option.case assms(2)
    by (intro yields_bindE [OF view] yields_bindE [OF target] yields_bindE [OF rows]
        yields_bindE [OF yields_keeps] all spared_apply_diff spared_cleanup)
       (auto simp: clear_targets_def intro: clear_iterate)
qed

end

section \<open>The frame of the emails\<close>

definition clear_locals :: "(string, email_row) hmap \<Rightarrow> bool" where
  "clear_locals l \<longleftrightarrow> list_all (\<lambda>(_, e). clear_path (em_file_path e)) l"

fun clear_change :: "local_change \<Rightarrow> bool" where
  "clear_change (Destroy _ None) = True"
| "clear_change (Destroy _ (Some rel)) = clear_path rel"
| "clear_change (UpdateKeywords _ _ _ rel) = clear_path rel"

definition slash_free_uuids :: "env \<Rightarrow> bool" where
  "slash_free_uuids v \<longleftrightarrow> (\<forall>n. CHR ''/'' \<notin> set (fresh_uuid v n))"

lemma clear_locals_get: "clear_locals l \<Longrightarrow> map_of l j = Some e \<Longrightarrow> clear_path (em_file_path e)"
  by (auto simp: clear_locals_def list_all_iff dest!: map_of_SomeD)

lemma clear_message:
  assumes "clear_path pp" and "plain_component name"
  shows "clear_path (pp @ ''/cur/'' @ name)"
proof -
  have "clear_path ((pp @ ''/'' @ ''cur'') @ ''/'' @ name)"
    using assms by (intro clear_append) (simp_all add: plain_component_def)
  then show ?thesis by simp
qed

lemma show_int_start: "\<exists>c cs. show_int ts = c # cs \<and> c \<noteq> CHR ''.''"
proof -
  have "show_nat n \<noteq> []" for n by (subst show_nat.simps) simp
  then have "show_int ts \<noteq> []" by (simp add: show_int_def)
  then obtain c cs where c: "show_int ts = c # cs" by (cases "show_int ts") auto
  moreover have "CHR ''.'' \<notin> set (show_int ts)"
    using show_nat_digits [of "CHR ''.''"] by (auto simp: show_int_def)
  ultimately show ?thesis by auto
qed

lemma message_base_plain: "CHR ''/'' \<notin> set u \<Longrightarrow> plain_component (show_int ts @ ''.'' @ u)"
  using show_int_start [of ts] show_int_plain [of "CHR ''/''" ts]
  by (auto simp: plain_component_def)

lemma extract_uuid_no_slash: "extract_uuid p = Some u \<Longrightarrow> CHR ''/'' \<notin> set u"
proof -
  assume u: "extract_uuid p = Some u"
  let ?f = "last (split_on CHR ''/'' p)"
  have "CHR ''/'' \<notin> set ?f" by (rule split_on_no_sep [OF last_in_set]) simp
  with u show ?thesis
    by (auto simp: extract_uuid_def Let_def dest!: split_once_Some split: option.splits)
qed

lemma flag_string_plain:
  "CHR ''/'' \<notin> set (keywords_to_flag_string ks)" "CHR '':'' \<notin> set (keywords_to_flag_string ks)"
  by (auto dest: keywords_to_flag_string_standard simp: standard_flags)

lemma clear_detect:
  assumes "clear_locals l" and "plain_fs f"
  shows "list_all clear_change (detect_local_writeback v root l f)"
proof -
  have "clear_change c" if row: "(j, row) \<in> set l" and c: "local_change_of v f root j row = Some c" for j row c
  proof -
    have "clear_path (em_file_path row)" using row assms(1) by (auto simp: clear_locals_def list_all_iff)
    note cur = clear_current [OF _ this assms(2), of v root]
    show ?thesis
    proof (cases "resolve_current_file v f root (em_file_path row)")
      case None
      with c show ?thesis by (auto simp: local_change_of_def)
    next
      case (Some rf)
      obtain rel fl where "rf = (rel, fl)" by force
      with Some cur [of rel fl] c show ?thesis
        by (auto simp: local_change_of_def Let_def split: if_splits)
    qed
  qed
  then show ?thesis by (fastforce simp: list_all_iff detect_local_writeback_def in_map_filter)
qed

context send_folder
begin

lemma spared_memberships [keeps_rules]:
  "keeps (spared q n) (insert_memberships e p ids boxes)"
  "keeps (spared q n) (reconcile_memberships e p ids boxes)"
  unfolding reconcile_memberships_def insert_memberships_def by (intro keeps_rules)+

lemma spared_delete_email [keeps_rules]:
  "clear_path (em_file_path e) \<Longrightarrow> keeps (spared q n) (delete_email v root dry e)"
  unfolding delete_email_def Let_def by (intro keeps_rules) (simp_all add: clear_beside)

lemma spared_uuid: "slash_free_uuids v \<Longrightarrow> yields (spared q n) (generate_id v) (\<lambda>u. CHR ''/'' \<notin> set u)"
  by (simp add: yields_def generate_id_def spared_def slash_free_uuids_def)

lemma spared_download:
  assumes "slash_free_uuids v" and "clear_path pp" and "CHR ''/'' \<notin> set flags"
  shows "yields (spared q n) (download_and_write v cl blob root pp ts flags dry) (\<lambda>(rel, _). clear_path rel)"
proof -
  have dir: "beside root (join_path root pp)" by (rule clear_beside [OF assms(2)])
  have tmp: "plain_component ''tmp''" "plain_component ''cur''" by (simp_all add: plain_component_def)
  have name: "plain_component (show_int ts @ ''.'' @ u @ '':2,'' @ flags)" if "CHR ''/'' \<notin> set u" for u
    using message_base_plain [of "u @ '':2,'' @ flags" ts] that assms(3) by simp
  show ?thesis
    unfolding download_and_write_def Let_def
  proof (intro yields_bindE [OF yields_keeps [OF keeps_liftE]] yields_bindE [OF spared_uuid [OF assms(1)]])
    fix bytes u assume u: "CHR ''/'' \<notin> set u"
    have rel: "clear_path (pp @ ''/cur/'' @ (show_int ts @ ''.'' @ u) @ '':2,'' @ flags)"
      using clear_message [OF assms(2) name [OF u]] by simp
    show "yields (spared q n)
       (if dry then ret (pp @ ''/cur/'' @ (show_int ts @ ''.'' @ u) @ '':2,'' @ flags, length bytes)
        else bindE (sys_create_dir_all v (join_path root pp @ [''tmp'']))
              (\<lambda>_. bindE (sys_create_dir_all v (join_path root pp @ [''cur'']))
              (\<lambda>_. bindE (sys_write v (join_path root pp @ [''tmp'', show_int ts @ ''.'' @ u]) bytes)
              (\<lambda>_. bindE (sys_rename v (join_path root pp @ [''tmp'', show_int ts @ ''.'' @ u])
                     (join_path root (pp @ ''/cur/'' @ (show_int ts @ ''.'' @ u) @ '':2,'' @ flags)))
              (\<lambda>_. ret (pp @ ''/cur/'' @ (show_int ts @ ''.'' @ u) @ '':2,'' @ flags, length bytes))))))
       (\<lambda>(rel, _). clear_path rel)"
      using dir tmp rel message_base_plain [OF u, of ts]
      by (auto intro!: yields_ret yields_bindE [OF yields_keeps] keeps_rules beside_append clear_beside)
  qed
qed

lemma spared_insert_email [keeps_rules]:
  assumes "slash_free_uuids v" and "clear_path (mb_path primary)" and "CHR ''/'' \<notin> set flags"
  shows "keeps (spared q n) (insert_email v cl root boxes dry j email primary flags json ts)"
  unfolding insert_email_def
proof (intro keeps_option keeps_throw keeps_bindE_yields [OF spared_download [OF assms]])
  fix x :: "string \<times> nat" assume x: "case x of (rel, _) \<Rightarrow> clear_path rel"
  obtain rel bytes where "x = (rel, bytes)" by force
  with x show "keeps (spared q n) (case x of (rel_path, bytes) \<Rightarrow>
      if dry then ret bytes
      else bindE (generate_id v) (\<lambda>row_id. bindE (db_exec (\<lambda>d. insert_email_row d
          \<lparr>em_id = row_id, em_jmap_id = Some j,
           em_message_id = Option.bind (se_message_id email) (\<lambda>l. case l of [] \<Rightarrow> None | x # _ \<Rightarrow> Some x),
           em_file_path = rel_path, em_primary_mailbox = mb_id primary, em_keywords = Some json,
           em_jmap_state = None, em_size = Some (int (se_size email)), em_last_sync = Some (unix_now v),
           em_is_dirty = False\<rparr>)) (\<lambda>_. bindE (insert_memberships row_id (mb_id primary) (se_mailbox_ids email) boxes)
             (\<lambda>_. ret bytes))))"
    by (auto intro!: keeps_rules)
qed

lemma spared_update_email [keeps_rules]:
  assumes "clear_path (em_file_path e)" and "CHR ''/'' \<notin> set flags" and "CHR '':'' \<notin> set flags"
  shows "keeps (spared q n) (update_email_in_place v root boxes dry e primary ids flags json)"
  unfolding update_email_in_place_def Let_def
  using assms clear_rebuild [OF assms] by (intro keeps_rules) (simp_all add: clear_beside)

lemma spared_move_email [keeps_rules]:
  assumes "slash_free_uuids v" and "clear_path (em_file_path e)" and "clear_path (mb_path primary)"
    and "CHR ''/'' \<notin> set flags"
  shows "keeps (spared q n) (move_email v root boxes dry e primary ids flags json ts)"
proof -
  have uuid: "yields (spared q n) (case extract_uuid (em_file_path e) of Some u \<Rightarrow> ret u | None \<Rightarrow> generate_id v)
      (\<lambda>u. CHR ''/'' \<notin> set u)"
    using spared_uuid [OF assms(1)] extract_uuid_no_slash
    by (cases "extract_uuid (em_file_path e)") (auto intro: yields_ret)
  show ?thesis
    unfolding move_email_def Let_def
  proof (rule keeps_bindE_yields [OF uuid])
    fix u assume u: "CHR ''/'' \<notin> set u"
    let ?rel = "mb_path primary @ ''/cur/'' @ show_int ts @ ''.'' @ u @ '':2,'' @ flags"
    have rel: "clear_path ?rel"
      using assms(3,4) message_base_plain [of "u @ '':2,'' @ flags" ts] u by (intro clear_message) simp_all
    have dir: "beside root (butlast (join_path root ?rel)) \<or> butlast (join_path root ?rel) = root"
      by (rule beside_parent [OF clear_beside [OF rel]])
    show "keeps (spared q n)
      (if dry then ret ()
       else bindE (if join_path root ?rel = [] then ret () else sys_create_dir_all v (butlast (join_path root ?rel)))
         (\<lambda>_. bindE (sys_exists (join_path root (em_file_path e)))
         (\<lambda>there. bindE (if there then sys_rename v (join_path root (em_file_path e)) (join_path root ?rel) else ret ())
         (\<lambda>_. bindE (db_exec (\<lambda>d. update_email_row d (e\<lparr>em_file_path := ?rel, em_primary_mailbox := mb_id primary,
                 em_keywords := Some json, em_last_sync := Some (unix_now v)\<rparr>)))
         (\<lambda>_. reconcile_memberships (em_id e) (mb_id primary) ids boxes)))))"
      using dir rel assms(2) by (intro keeps_rules) (simp_all add: clear_beside)
  qed
qed

lemma spared_apply_email [keeps_rules]:
  assumes "slash_free_uuids v" and "list_all (\<lambda>(_, m). clear_path (mb_path m)) boxes" and "clear_locals l"
  shows "keeps (spared q n) (apply_email v cl root boxes l dry email stats)"
proof -
  have "clear_path (mb_path p)" if p: "pick_primary_mailbox ids boxes = Some p" for ids p
  proof -
    let ?c = "List.map_filter (map_of boxes) ids"
    have "?c \<noteq> []" "p = hd (sort_key primary_key ?c)"
      using p by (auto simp: pick_primary_mailbox_def Let_def split: if_splits)
    then have "p \<in> set ?c" by (metis hd_in_set length_0_conv length_sort set_sort)
    with assms(2) show ?thesis by (auto simp: in_map_filter list_all_iff dest!: map_of_SomeD)
  qed
  with assms(1,3) show ?thesis
    unfolding apply_email_def Let_def
    by (intro keeps_rules) (auto simp: flag_string_plain intro: clear_locals_get)
qed

lemma spared_hydrate [keeps_rules]:
  assumes "slash_free_uuids v" and "list_all (\<lambda>(_, m). clear_path (mb_path m)) boxes" and "clear_locals l"
  shows "keeps (spared q n) (hydrate_chunk v cl root boxes l dry chunk stats)"
  unfolding hydrate_chunk_def by (intro keeps_rules assms)

lemma spared_delete_pass [keeps_rules]:
  "clear_locals (st_local s) \<Longrightarrow> keeps (spared q n) (delete_pass v root dry s)"
  unfolding delete_pass_def
  by (intro keeps_rules) (auto simp: clear_locals_def list_all_iff)

lemma spared_settle_change:
  assumes "clear_change c" and "clear_locals (st_local s)"
  shows "yields (spared q n) (settle_change v root ds us c s) (\<lambda>s'. clear_locals (st_local s'))"
proof (cases c)
  case (Destroy j a)
  have del: "clear_locals (AList.delete j (st_local s))"
    using assms(2) by (auto simp: clear_locals_def list_all_iff AList.delete_eq)
  have "clear_path (em_file_path (case a of None \<Rightarrow> row | Some p \<Rightarrow> row\<lparr>em_file_path := p\<rparr>))"
    if "map_of (st_local s) j = Some row" for row
    using assms clear_locals_get [OF assms(2) that] by (cases a) (auto simp: Destroy)
  then have "keeps (spared q n) (case map_of (st_local s) j of None \<Rightarrow> ret ()
      | Some row \<Rightarrow> delete_email v root False (case a of None \<Rightarrow> row | Some p \<Rightarrow> row\<lparr>em_file_path := p\<rparr>))"
    by (intro keeps_rules) simp_all
  from yields_keeps [OF this] show ?thesis
    unfolding settle_change_def Destroy local_change.case Let_def using assms(2) del
    by (auto intro!: yields_bindE yields_ret simp: bump_destroyed_def)
next
  case (UpdateKeywords j fl json rel)
  show ?thesis
  proof (cases "map_of (st_local s) j")
    case None
    with assms(2) UpdateKeywords show ?thesis
      by (auto simp: settle_change_def bump_updated_def intro!: yields_ret)
  next
    case (Some row)
    let ?row = "row\<lparr>em_keywords := Some json, em_file_path := rel, em_last_sync := Some (unix_now v)\<rparr>"
    have rel: "clear_path rel" using assms(1) UpdateKeywords by simp
    then have "keeps (spared q n) (db_exec (\<lambda>d. update_email_row d ?row))" by (intro keeps_rules) simp
    moreover have "clear_locals (AList.update j ?row (st_local s))"
      using assms(2) rel by (auto simp: clear_locals_def list_all_iff dest!: in_updateD)
    ultimately show ?thesis
      unfolding settle_change_def UpdateKeywords local_change.case Some option.case Let_def using assms(2)
      by (auto intro!: yields_bindE yields_keeps yields_ret simp: bump_updated_def)
  qed
qed

lemma count_changes_local [simp]: "st_local (fold count_change cs s) = st_local s"
  by (induction cs arbitrary: s) (auto simp: count_change_def bump_destroyed_def bump_updated_def split: local_change.splits)

lemma spared_apply_writeback:
  assumes "list_all clear_change cs" and "clear_locals (st_local s)"
  shows "yields (spared q n) (apply_writeback v cl root dry cs s) (\<lambda>s'. clear_locals (st_local s'))"
proof -
  have "yields (spared q n) (foldE (settle_change v root ds us) cs s) (\<lambda>s'. clear_locals (st_local s'))" for ds us
    using assms by (intro yields_foldE spared_settle_change) (auto simp: list_all_iff)
  then show ?thesis
    unfolding apply_writeback_def using assms(2)
    by (auto intro!: yields_ret yields_bindE [OF yields_keeps [OF spared_quiet(2)]] split: prod.splits)
qed

lemma spared_reconcile:
  assumes "slash_free_uuids v" and "list_all (\<lambda>(_, m). clear_path (mb_path m)) boxes"
  shows "keeps (spared q n) (reconcile_emails v cl boxes root dry ids)"
proof -
  have locals: "yields (spared q n) (db_query (\<lambda>d. iterate v 3 (local_emails_by_jmap d))) clear_locals"
    unfolding clear_locals_def
    by (rule yields_db_query, rule clear_iterate) (auto simp: spared_def rows_clear_def local_emails_by_jmap_def
        get_all_emails_def list_all_iff in_map_filter dest!: in_hm_collectD)
  have changes: "yields (spared q n) (fs_query (detect_local_writeback v root l)) (list_all clear_change)"
    if "clear_locals l" for l
    by (rule yields_fs_query) (simp add: spared_def clear_detect that)
  show ?thesis
    unfolding reconcile_emails_def
    by (intro keeps_bindE_yields [OF locals] keeps_bindE_yields [OF changes]
        keeps_bindE_yields [OF spared_apply_writeback] keeps_rules assms) simp_all
qed

lemma spared_sync_account:
  assumes "mail acct = Some cfg" and "mail_root_of cfg = root" and "slash_free_uuids v"
    and "\<And>view. cl_mailbox_get cl = Inr view \<Longrightarrow> clear_view cfg view"
    and "sync_account v glob cl acct elapsed dry w = Some (r, w')" and "spared q n w"
  shows "spared q n w'"
proof -
  have boxes: "yields (spared q n) (sync_mailboxes v glob (cl_mailbox_get cl) acct dry) (list_all (\<lambda>m. clear_path (mb_path m)))"
    by (rule spared_sync_mailboxes [OF assms(1,2,4)])
  obtain r1 w1 where mb: "sync_mailboxes v glob (cl_mailbox_get cl) acct dry w = (r1, w1)" by fastforce
  with boxes assms(6) have w1: "spared q n w1"
    and ms: "\<And>ms. r1 = Inr ms \<Longrightarrow> list_all (\<lambda>m. clear_path (mb_path m)) ms"
    by (auto simp: yields_def dest!: spec [of _ w])
  show ?thesis
  proof (cases r1)
    case (Inl e)
    with assms(1,5) mb w1 show ?thesis by (simp add: sync_account_def)
  next
    case (Inr ms')
    have "list_all (\<lambda>(_, m). clear_path (mb_path m)) (iterate v 2 (mailboxes_by_jmap ms'))"
      using ms [OF Inr]
      by (intro clear_iterate) (auto simp: mailboxes_by_jmap_def list_all_iff in_map_filter dest!: in_hm_collectD)
    then have rec: "keeps (spared q n) (reconcile_emails v cl (iterate v 2 (mailboxes_by_jmap ms')) root dry ids)" for ids
      by (rule spared_reconcile [OF assms(3)])
    have "keeps (spared q n) m" if "sync_emails v cl ms' root dry = Some m" for m
      using that rec by (auto simp: sync_emails_def Let_def keeps_ret keeps_throw split: if_splits option.splits sum.splits)
    then have "spared q n (snd (m w1))" if "sync_emails v cl ms' root dry = Some m" for m
      using keepsD [where P = "spared q n", OF _ w1] that by blast
    with assms(1,2,5) mb Inr show ?thesis
      by (fastforce simp: sync_account_def split: option.splits prod.splits sum.splits)
  qed
qed

end

section \<open>The two folders\<close>

lemma resolve_plain_components:
  "list_all plain_component p \<Longrightarrow> (\<And>c. c \<in> set cs \<Longrightarrow> CHR ''/'' \<notin> set c) \<Longrightarrow> list_all plain_component (resolve p cs)"
proof (induction cs arbitrary: p)
  case (Cons c cs)
  have "list_all plain_component (butlast p)" using Cons.prems(1) by (auto simp: list_all_iff dest: in_set_butlastD)
  moreover have "plain_component c" if "c \<noteq> []" "c \<noteq> ''.''" "c \<noteq> ''..''"
    using that Cons.prems(2) [of c] by (simp add: plain_component_def)
  ultimately show ?case using Cons.prems by (auto intro: Cons.IH)
qed simp

lemma mail_root_plain: "list_all plain_component (mail_root_of cfg)"
  unfolding mail_root_of_def join_path_def
  using resolve_plain_components [of "[]"] split_on_no_sep by auto

interpretation outbox: send_folder "mail_root_of cfg" "mail_root_of cfg @ ''Outbox'' # rest" n for cfg rest n
  by unfold_locales (auto simp: mail_root_plain send_folders_def)

interpretation failed: send_folder "mail_root_of cfg" "mail_root_of cfg @ ''Failed'' # rest" n for cfg rest n
  by unfold_locales (auto simp: mail_root_plain send_folders_def)

end
