(* ===== verification/Account_Task.thy ===== *)
theory Account_Task
  imports Daemon_Facts Submit_Loop_Facts Send_Folders
begin

text \<open>
  The two tasks of an account, \<open>run_account_supervisor\<close> of \<open>daemon/mod.rs\<close>: the supervisor with
  the event loop, and the submit task that it spawns. They run on one thread and share the mail
  root, so that what one writes the other finds. A step of the account is a step of one of them;
  a whole pass of the synchronisation and a whole attempt are one step.
\<close>

section \<open>The composition\<close>

fun super_world :: "supervisor \<Rightarrow> world option" where
  "super_world (SettingUp b n w) = Some w"
| "super_world (SetupBackoff d b n w) = Some w"
| "super_world (Supervising s) = Some (ss_world s)"
| "super_world Finished = None"

fun put_super_files :: "fs \<Rightarrow> supervisor \<Rightarrow> supervisor" where
  "put_super_files f (SettingUp b n w) = SettingUp b n (w\<lparr>files := f\<rparr>)"
| "put_super_files f (SetupBackoff d b n w) = SetupBackoff d b n (w\<lparr>files := f\<rparr>)"
| "put_super_files f (Supervising s) = Supervising (s\<lparr>ss_world := (ss_world s)\<lparr>files := f\<rparr>\<rparr>)"
| "put_super_files f Finished = Finished"

text \<open>\<open>ac_submit\<close> is the handle of the spawned task; \<open>ac_files\<close> are the files both see.\<close>

record account_task =
  ac_super :: supervisor
  ac_submit :: "submit_task option"
  ac_files :: fs

datatype account_input = SuperviseInput supervisor_input | SubmitInput submit_input

datatype account_action = Supervised supervisor_action | Submitted submit_action

definition account_start :: "(nat \<Rightarrow> nat list) \<Rightarrow> account \<Rightarrow> world \<Rightarrow> account_task" where
  "account_start upper a w =
     \<lparr>ac_super = supervisor_start upper a w, ac_submit = None, ac_files = files w\<rparr>"

definition spawn_submit ::
    "(nat \<Rightarrow> nat list) \<Rightarrow> account \<Rightarrow> supervisor_action list \<Rightarrow> supervisor \<Rightarrow> submit_task option \<Rightarrow> submit_task option" where
  "spawn_submit upper a os sp t =
     (if SpawnSubmit \<in> set os then map_option (submit_start upper a) (super_world sp) else t)"

fun account_step ::
    "(nat \<Rightarrow> nat list) \<Rightarrow> codec \<Rightarrow> path option \<Rightarrow> account \<Rightarrow> bool \<Rightarrow> account_input \<Rightarrow> account_task
     \<Rightarrow> (account_action list \<times> account_task) option" where
  "account_step upper cd state_dir a watched (SuperviseInput i) s =
     map_option (\<lambda>(os, sp). (map Supervised os,
         \<lparr>ac_super = sp, ac_submit = spawn_submit upper a os sp (ac_submit s),
          ac_files = (case super_world sp of None \<Rightarrow> ac_files s | Some w \<Rightarrow> files w)\<rparr>))
       (supervisor_step upper a watched i (put_super_files (ac_files s) (ac_super s)))"
| "account_step upper cd state_dir a watched (SubmitInput i) s =
     (case ac_submit s of
        None \<Rightarrow> None
      | Some t \<Rightarrow>
          map_option (\<lambda>(os, t'). (map Submitted os, s\<lparr>ac_submit := Some t', ac_files := files (sm_world t')\<rparr>))
            (submit_step cd state_dir a i (t\<lparr>sm_world := (sm_world t)\<lparr>files := ac_files s\<rparr>\<rparr>)))"

text \<open>The supervised task returns when the event loop has, and the submit task too if there is one.\<close>

definition account_over :: "account_task \<Rightarrow> bool" where
  "account_over s \<longleftrightarrow> ac_super s = Finished
     \<and> (case ac_submit s of None \<Rightarrow> True | Some t \<Rightarrow> sm_phase t = Ended)"

section \<open>Passes that stay clear of the send folders\<close>

fun tick_of :: "sse_input \<Rightarrow> tick option" where
  "tick_of (Attempt t c) = Some t"
| "tick_of (PollTick t) = Some t"
| "tick_of (WatchTick t) = Some t"
| "tick_of (StateChange e t) = Some t"
| "tick_of _ = None"

definition clear_tick :: "account \<Rightarrow> tick \<Rightarrow> bool" where
  "clear_tick a t \<longleftrightarrow> slash_free_uuids (tk_env t)
     \<and> (case (mail a, cl_mailbox_get (tk_client t)) of
          (Some cfg, Inr view) \<Rightarrow> clear_view cfg view | _ \<Rightarrow> True)"

definition clear_input :: "account \<Rightarrow> account_input \<Rightarrow> bool" where
  "clear_input a i \<longleftrightarrow>
     (case i of SuperviseInput (Task j) \<Rightarrow> pred_option (clear_tick a) (tick_of j) | _ \<Rightarrow> True)"

definition account_ok :: "path option \<Rightarrow> account \<Rightarrow> account_task \<Rightarrow> bool" where
  "account_ok state_dir a s \<longleftrightarrow>
     pred_option (\<lambda>w. rows_clear (db w)) (super_world (ac_super s))
   \<and> pred_option (task_ok state_dir a) (ac_submit s)"

lemma sync_tick_spares:
  assumes "sync_tick a t w = Some w'" and "clear_tick a t" and "mail a = Some cfg"
    and "rows_clear (db w)" and "plain_fs (files w)"
  shows "rows_clear (db w') \<and> map_of (files w') (mail_root_of cfg @ ''Outbox'' # rest)
      = map_of (files w) (mail_root_of cfg @ ''Outbox'' # rest)"
proof -
  obtain r where run: "sync_account (tk_env t) (tk_glob t) (tk_client t) a (tk_elapsed t) False w = Some (r, w')"
    using assms(1) by (auto simp: sync_tick_def)
  have "spared (mail_root_of cfg @ ''Outbox'' # rest) (map_of (files w) (mail_root_of cfg @ ''Outbox'' # rest)) w'"
    by (rule outbox.spared_sync_account [OF assms(3) refl _ _ run])
       (use assms in \<open>auto simp: clear_tick_def spared_def\<close>)
  then show ?thesis by (simp add: spared_def)
qed

lemma attempt_connect_world:
  "attempt_connect a t c s = Some (os, s') \<Longrightarrow> sync_tick a t (ss_world s) = Some (ss_world s')"
  by (auto simp: attempt_connect_def back_off_def Let_def split: if_splits prod.splits)

lemma sse_step_spares:
  assumes "sse_step a watched i s = Some (os, s')" and "pred_option (clear_tick a) (tick_of i)"
    and "mail a = Some cfg" and "rows_clear (db (ss_world s))" and "plain_fs (files (ss_world s))"
  shows "rows_clear (db (ss_world s')) \<and> map_of (files (ss_world s')) (mail_root_of cfg @ ''Outbox'' # rest)
      = map_of (files (ss_world s)) (mail_root_of cfg @ ''Outbox'' # rest)"
  using assms(1)
proof (cases rule: sse_step_cases)
  case (attempt t c)
  with assms(2-5) sync_tick_spares [OF attempt_connect_world [OF attempt(3)]] show ?thesis by simp
next
  case (pass t l)
  have "sync_tick a t (ss_world s) = Some (ss_world s')" using pass(3) by (auto simp: stream_sync_Some)
  moreover have "clear_tick a t" using pass(4) assms(2) by auto
  ultimately show ?thesis using sync_tick_spares assms(3-5) by simp
next
  case broken
  then have "ss_world s' = ss_world s" by (auto simp: back_off_def split: prod.splits)
  with assms(4) show ?thesis by simp
qed (use assms(4) in auto)

lemma supervisor_step_spares:
  assumes "supervisor_step upper a watched i s = Some (os, s')" and "clear_input a (SuperviseInput i)"
    and "mail a = Some cfg" and "super_world s = Some w" and "rows_clear (db w)" and "plain_fs (files w)"
    and "super_world s' = Some w'"
  shows "rows_clear (db w') \<and> map_of (files w') (mail_root_of cfg @ ''Outbox'' # rest)
      = map_of (files w) (mail_root_of cfg @ ''Outbox'' # rest)"
proof (cases s)
  case (Supervising st)
  then obtain j os1 st' where j: "i = Task j" and sse: "sse_step a watched j st = Some (os1, st')"
    and s': "s' = (if ss_phase st' = Exited then Finished else Supervising st')"
    using assms(1) by (cases i) auto
  have "pred_option (clear_tick a) (tick_of j)" using assms(2) j by (simp add: clear_input_def)
  from sse_step_spares [OF sse this assms(3)] assms(4-7) Supervising s' show ?thesis
    by (auto split: if_splits)
qed (use assms in \<open>cases i; auto simp: sse_start_def split: prod.splits if_splits\<close>)+

lemma put_super_files_world: "super_world (put_super_files f s) = map_option (\<lambda>w. w\<lparr>files := f\<rparr>) (super_world s)"
  by (cases s) auto

lemma supervisor_step_worldly: "supervisor_step upper a watched i s = Some r \<Longrightarrow> \<exists>w. super_world s = Some w"
  by (cases s; cases i) auto

lemma spawn_submit_ok:
  "pred_option (task_ok state_dir a) t \<Longrightarrow> pred_option (task_ok state_dir a) (spawn_submit upper a os s t)"
  by (cases "super_world s") (auto simp: spawn_submit_def submit_start_ok)

lemma task_ok_files: "task_ok state_dir a (t\<lparr>sm_world := w\<rparr>) = task_ok state_dir a t"
  by (simp add: task_ok_def)

lemma account_start_ok: "rows_clear (db w) \<Longrightarrow> account_ok state_dir a (account_start upper a w)"
  by (simp add: account_ok_def account_start_def supervisor_start_def)

text \<open>What a step of the supervisor does to the rows and to the places below the Outbox.\<close>

lemma supervise_step:
  assumes "account_step upper cd state_dir a watched (SuperviseInput i) s = Some (os, s')"
    and "account_ok state_dir a s" and "clear_input a (SuperviseInput i)" and "plain_fs (ac_files s)"
    and "mail a = Some cfg"
  shows "account_ok state_dir a s' \<and> map_of (ac_files s') (mail_root_of cfg @ ''Outbox'' # rest)
      = map_of (ac_files s) (mail_root_of cfg @ ''Outbox'' # rest)"
proof -
  let ?s = "put_super_files (ac_files s) (ac_super s)"
  obtain os1 sp where step: "supervisor_step upper a watched i ?s = Some (os1, sp)"
    and s': "s' = \<lparr>ac_super = sp, ac_submit = spawn_submit upper a os1 sp (ac_submit s),
        ac_files = (case super_world sp of None \<Rightarrow> ac_files s | Some w \<Rightarrow> files w)\<rparr>"
    using assms(1) by auto
  obtain w0 where w0: "super_world ?s = Some w0" using supervisor_step_worldly [OF step] by blast
  with assms(2) have world: "rows_clear (db w0)" "files w0 = ac_files s"
    by (auto simp: put_super_files_world account_ok_def)
  have "rows_clear (db w') \<and> map_of (files w') (mail_root_of cfg @ ''Outbox'' # rest)
      = map_of (ac_files s) (mail_root_of cfg @ ''Outbox'' # rest)" if "super_world sp = Some w'" for w'
    using supervisor_step_spares [OF step assms(3,5) w0 _ _ that] world assms(4) by simp
  with assms(2) spawn_submit_ok show ?thesis
    by (cases "super_world sp") (auto simp: s' account_ok_def)
qed

lemma submit_input_step:
  assumes "account_step upper cd state_dir a watched (SubmitInput i) s = Some (os, s')"
    and "account_ok state_dir a s"
  obtains t os1 t' where "ac_submit s = Some t" "os = map Submitted os1"
    "s' = s\<lparr>ac_submit := Some t', ac_files := files (sm_world t')\<rparr>"
    "submit_step cd state_dir a i (t\<lparr>sm_world := (sm_world t)\<lparr>files := ac_files s\<rparr>\<rparr>) = Some (os1, t')"
    "task_ok state_dir a (t\<lparr>sm_world := (sm_world t)\<lparr>files := ac_files s\<rparr>\<rparr>)" "account_ok state_dir a s'"
proof -
  obtain t os1 t' where t: "ac_submit s = Some t" "os = map Submitted os1"
      "s' = s\<lparr>ac_submit := Some t', ac_files := files (sm_world t')\<rparr>"
    and step: "submit_step cd state_dir a i (t\<lparr>sm_world := (sm_world t)\<lparr>files := ac_files s\<rparr>\<rparr>) = Some (os1, t')"
    using assms(1) by (auto split: option.splits)
  have ok: "task_ok state_dir a (t\<lparr>sm_world := (sm_world t)\<lparr>files := ac_files s\<rparr>\<rparr>)"
    using assms(2) t(1) by (simp add: account_ok_def task_ok_files)
  have "account_ok state_dir a s'"
    using submit_step_ok [OF ok step] assms(2) t(3) by (simp add: account_ok_def)
  with that t step ok show ?thesis by blast
qed

lemma account_step_ok:
  assumes "account_step upper cd state_dir a watched i s = Some (os, s')"
    and "account_ok state_dir a s" and "clear_input a i" and "plain_fs (ac_files s)" and "mail a = Some cfg"
  shows "account_ok state_dir a s'"
proof (cases i)
  case (SuperviseInput j)
  from supervise_step [OF assms(1) [unfolded SuperviseInput] assms(2) assms(3) [unfolded SuperviseInput] assms(4,5)]
  show ?thesis by blast
next
  case (SubmitInput j)
  from submit_input_step [OF assms(1) [unfolded SubmitInput] assms(2)] show ?thesis by blast
qed

section \<open>A message through both tasks\<close>

definition leaves_outbox :: "path \<Rightarrow> string \<Rightarrow> account_action \<Rightarrow> bool" where
  "leaves_outbox p c x \<longleftrightarrow> (case x of Submitted y \<Rightarrow> left_outbox p c y | Supervised _ \<Rightarrow> False)"

text \<open>
  What the surroundings of the account leave alone: the answers of the server stay clear of the
  send folders, and other processes do not touch the message.
\<close>

definition harmless :: "account \<Rightarrow> path \<Rightarrow> string \<Rightarrow> account_input \<Rightarrow> bool" where
  "harmless a p c i \<longleftrightarrow> clear_input a i \<and> (case i of SubmitInput j \<Rightarrow> left_alone p c j | _ \<Rightarrow> True)"

lemma account_step_keeps:
  assumes "account_step upper cd state_dir a watched i s = Some (os, s')"
    and "account_ok state_dir a s" and "harmless a p c i" and "plain_fs (ac_files s)"
    and "mail a = Some cfg" and "p = mail_root_of cfg @ [''Outbox'', sub, name]" and "\<not> prefix ''.'' name"
    and "\<And>dir. sidecar_dir_for state_dir (acct_name a) = Inr dir \<Longrightarrow> \<not> prefix dir p"
    and "in_outbox p c (ac_files s)"
  shows "in_outbox p c (ac_files s') \<or> (\<exists>x\<in>set os. leaves_outbox p c x)"
proof (cases i)
  case (SuperviseInput j)
  with assms(3) have "clear_input a (SuperviseInput j)" by (simp add: harmless_def)
  from supervise_step [OF assms(1) [unfolded SuperviseInput] assms(2) this assms(4,5), of "[sub, name]"] assms(6,9)
  show ?thesis by (simp add: in_outbox_def read_file_def)
next
  case (SubmitInput j)
  from assms(1,2) show ?thesis unfolding SubmitInput
  proof (rule submit_input_step)
    fix t os1 t'
    assume step: "submit_step cd state_dir a j (t\<lparr>sm_world := (sm_world t)\<lparr>files := ac_files s\<rparr>\<rparr>) = Some (os1, t')"
      and ok: "task_ok state_dir a (t\<lparr>sm_world := (sm_world t)\<lparr>files := ac_files s\<rparr>\<rparr>)"
      and s': "s' = s\<lparr>ac_submit := Some t', ac_files := files (sm_world t')\<rparr>" "os = map Submitted os1"
    have "in_outbox p c (files (sm_world t')) \<or> (\<exists>x\<in>set os1. left_outbox p c x)"
      by (rule submit_step_keeps_message [OF step ok assms(5-8)])
         (use assms(3,9) SubmitInput in \<open>simp_all add: harmless_def\<close>)
    with s' show ?thesis by (auto simp: leaves_outbox_def)
  qed
qed

text \<open>A condition in every state of a run from which a step is taken.\<close>

fun along_run :: "('i \<Rightarrow> 's \<Rightarrow> ('b list \<times> 's) option) \<Rightarrow> ('s \<Rightarrow> bool) \<Rightarrow> 'i list \<Rightarrow> 's \<Rightarrow> bool" where
  "along_run f P [] s = True"
| "along_run f P (i # js) s \<longleftrightarrow> P s \<and> (case f i s of None \<Rightarrow> True | Some (_, s1) \<Rightarrow> along_run f P js s1)"

lemma along_run_append:
  "run_machine f is s = Some (os, s1) \<Longrightarrow>
   along_run f P (is @ js) s \<longleftrightarrow> along_run f P is s \<and> along_run f P js s1"
  by (induction "is" arbitrary: s os) (auto split: option.splits)

lemma account_run_ok:
  assumes "run_machine (account_step upper cd state_dir a watched) is s = Some (os, s')"
    and "along_run (account_step upper cd state_dir a watched) (\<lambda>s. plain_fs (ac_files s)) is s"
    and "\<forall>i\<in>set is. clear_input a i" and "account_ok state_dir a s" and "mail a = Some cfg"
  shows "account_ok state_dir a s'"
  using assms(1-4)
proof (induction "is" arbitrary: s os)
  case (Cons i js)
  let ?f = "account_step upper cd state_dir a watched"
  obtain os1 s1 os2 where step: "?f i s = Some (os1, s1)" and run: "run_machine ?f js s1 = Some (os2, s')"
    using Cons.prems(1) by (auto simp only: run_machine_Cons)
  have now: "clear_input a i" "plain_fs (ac_files s)" and names: "along_run ?f (\<lambda>s. plain_fs (ac_files s)) js s1"
    using Cons.prems(2,3) step by (simp_all del: account_step.simps)
  from Cons.IH [OF run names _ account_step_ok [OF step Cons.prems(4) now assms(5)]] Cons.prems(3)
  show ?case by simp
qed simp

lemma account_run_keeps:
  assumes "run_machine (account_step upper cd state_dir a watched) is s = Some (os, s')"
    and "account_ok state_dir a s" and "\<forall>i\<in>set is. harmless a p c i"
    and "along_run (account_step upper cd state_dir a watched) (\<lambda>s. plain_fs (ac_files s)) is s"
    and "in_outbox p c (ac_files s)"
    and mail: "mail a = Some cfg" "p = mail_root_of cfg @ [''Outbox'', sub, name]" "\<not> prefix ''.'' name"
      "\<And>dir. sidecar_dir_for state_dir (acct_name a) = Inr dir \<Longrightarrow> \<not> prefix dir p"
  shows "in_outbox p c (ac_files s') \<or> (\<exists>x\<in>set os. leaves_outbox p c x)"
  using assms(1-5)
proof (induction "is" arbitrary: s os)
  case Nil
  then show ?case by simp
next
  case (Cons i js)
  let ?f = "account_step upper cd state_dir a watched"
  obtain os1 s1 os2 where step: "?f i s = Some (os1, s1)"
    and run: "run_machine ?f js s1 = Some (os2, s')" and os: "os = os1 @ os2"
    using Cons.prems(1) by (auto simp only: run_machine_Cons)
  have "harmless a p c i" "plain_fs (ac_files s)" and names: "along_run ?f (\<lambda>s. plain_fs (ac_files s)) js s1"
    using Cons.prems(3,4) step by (simp_all del: account_step.simps)
  note now = this(1,2)
  have clear: "clear_input a i" using now(1) by (simp add: harmless_def)
  note ok = account_step_ok [OF step Cons.prems(2) clear now(2) mail(1)]
  note one = account_step_keeps [OF step Cons.prems(2) now mail Cons.prems(5)]
  have rest: "in_outbox p c (ac_files s') \<or> (\<exists>x\<in>set os2. leaves_outbox p c x)"
    if "in_outbox p c (ac_files s1)"
    using Cons.IH [OF run ok _ names that] Cons.prems(3) by simp
  from one show ?case
  proof
    assume "in_outbox p c (ac_files s1)"
    with rest os show ?thesis by auto
  next
    assume "\<exists>x\<in>set os1. leaves_outbox p c x"
    with os show ?thesis by auto
  qed
qed

section \<open>The shape of an account\<close>

text \<open>
  The submit task is there from the moment the client is, where the account submits at all, and
  its loop stands on the folders of the account.
\<close>

definition account_shape :: "path option \<Rightarrow> account \<Rightarrow> account_task \<Rightarrow> bool" where
  "account_shape state_dir a s \<longleftrightarrow>
     (case ac_super s of
        Supervising _ \<Rightarrow> ac_submit s = None \<longleftrightarrow> submit a = None
      | Finished \<Rightarrow> ac_submit s = None \<or> submit a \<noteq> None
      | _ \<Rightarrow> ac_submit s = None)
   \<and> pred_option (task_ok state_dir a) (ac_submit s)"

definition submit_tasks :: "account_action list \<Rightarrow> nat" where
  "submit_tasks os = length (filter (\<lambda>x. x = Supervised SpawnSubmit) os)"

lemma submit_tasks_simps [simp]:
  "submit_tasks [] = 0" "submit_tasks (os @ ps) = submit_tasks os + submit_tasks ps"
  "submit_tasks (map Submitted qs) = 0"
  "submit_tasks (Supervised x # os) = (if x = SpawnSubmit then 1 else 0) + submit_tasks os"
  "submit_tasks (map (Supervised \<circ> SetupNotice) ns) = 0" "submit_tasks (map (Supervised \<circ> TaskAction) as) = 0"
  by (simp_all add: submit_tasks_def filter_empty_conv)

lemma account_shape_step:
  assumes "account_step upper cd state_dir a watched i s = Some (os, s')" and "account_shape state_dir a s"
  shows "account_shape state_dir a s' \<and>
    submit_tasks os + (if ac_submit s = None then 0 else 1) = (if ac_submit s' = None then 0 else 1)"
proof (cases i)
  case (SuperviseInput j)
  with assms show ?thesis
    by (cases "ac_super s"; cases j)
       (auto simp: account_shape_def spawn_submit_def submit_start_ok Let_def split: prod.splits if_splits)
next
  case (SubmitInput j)
  then obtain t os1 t' where t: "ac_submit s = Some t" "os = map Submitted os1"
      "s' = s\<lparr>ac_submit := Some t', ac_files := files (sm_world t')\<rparr>"
    and step: "submit_step cd state_dir a j (t\<lparr>sm_world := (sm_world t)\<lparr>files := ac_files s\<rparr>\<rparr>) = Some (os1, t')"
    using assms(1) by (auto split: option.splits)
  have "task_ok state_dir a (t\<lparr>sm_world := (sm_world t)\<lparr>files := ac_files s\<rparr>\<rparr>)"
    using assms(2) t(1) by (simp add: account_shape_def task_ok_files)
  from submit_step_ok [OF this step] assms(2) t show ?thesis
    by (auto simp: account_shape_def split: supervisor.splits)
qed

lemma account_shape_run:
  assumes "run_machine (account_step upper cd state_dir a watched) is s = Some (os, s')"
    and "account_shape state_dir a s"
  shows "account_shape state_dir a s' \<and>
    submit_tasks os + (if ac_submit s = None then 0 else 1) = (if ac_submit s' = None then 0 else 1)"
  using assms
proof (induction "is" arbitrary: s os)
  case (Cons i js)
  then obtain os1 s1 os2 where step: "account_step upper cd state_dir a watched i s = Some (os1, s1)"
    and run: "run_machine (account_step upper cd state_dir a watched) js s1 = Some (os2, s')" and os: "os = os1 @ os2"
    by (auto simp only: run_machine_Cons)
  from account_shape_step [OF step Cons.prems(2)] Cons.IH [OF run] os show ?case by auto
qed simp

section \<open>The end of an account\<close>

text \<open>
  The inputs that a cancelled token makes possible. An attempt at the connection that is under way
  ends by itself.
\<close>

fun stopping :: "account_input \<Rightarrow> bool" where
  "stopping (SuperviseInput Terminate) \<longleftrightarrow> True"
| "stopping (SuperviseInput (SetupWaited net waited)) \<longleftrightarrow> net = Cancelled"
| "stopping (SuperviseInput (Task Shutdown)) \<longleftrightarrow> True"
| "stopping (SuperviseInput (Task (Waited net waited))) \<longleftrightarrow> net = Cancelled"
| "stopping (SubmitInput CancelTask) \<longleftrightarrow> True"
| "stopping (SubmitInput (RestOver net waited)) \<longleftrightarrow> net = Cancelled"
| "stopping (SubmitInput (Launch la)) \<longleftrightarrow> la_cancelled la"
| "stopping _ \<longleftrightarrow> False"

fun steps_to_end :: "submit_phase \<Rightarrow> nat" where
  "steps_to_end Launching = 2"
| "steps_to_end (Looping st ctx) = 1"
| "steps_to_end (Resting d) = 1"
| "steps_to_end Ended = 0"

definition to_stop :: "account_task \<Rightarrow> nat" where
  "to_stop s = (if ac_super s = Finished then 0 else 1)
     + (case ac_submit s of None \<Rightarrow> 0 | Some t \<Rightarrow> steps_to_end (sm_phase t))"

definition supervised_runs :: "account_task \<Rightarrow> bool" where
  "supervised_runs s \<longleftrightarrow> (\<forall>st. ac_super s = Supervising st \<longrightarrow> ss_phase st \<noteq> Exited)"

lemma supervised_runs_step:
  assumes "account_step upper cd state_dir a watched i s = Some (os, s')" and "supervised_runs s"
  shows "supervised_runs s'"
proof (cases i)
  case (SuperviseInput j)
  with assms show ?thesis
    by (cases "ac_super s"; cases j)
       (auto simp: supervised_runs_def sse_start_def split: prod.splits if_splits)
qed (use assms in \<open>auto simp: supervised_runs_def split: option.splits\<close>)

lemma steps_to_end_0 [simp]: "steps_to_end ph = 0 \<longleftrightarrow> ph = Ended"
  by (cases ph) auto

lemma cancelled_launch:
  "launch_loop cd state_dir a la s = (os, s') \<Longrightarrow> la_cancelled la \<Longrightarrow> steps_to_end (sm_phase s') \<le> 1"
  by (auto simp: launch_loop_def after_return_def Let_def split: prod.splits sum.splits option.splits if_splits)

lemma stopping_supervised:
  assumes "account_step upper cd state_dir a watched (SuperviseInput j) s = Some (os, s')"
    and "stopping (SuperviseInput j)"
  shows "ac_super s \<noteq> Finished \<and> ac_super s' = Finished \<and> ac_submit s' = ac_submit s"
proof -
  obtain os1 sp where step: "supervisor_step upper a watched j (put_super_files (ac_files s) (ac_super s)) = Some (os1, sp)"
    and s': "ac_super s' = sp" "ac_submit s' = spawn_submit upper a os1 sp (ac_submit s)"
    using assms(1) by auto
  have "sp = Finished \<and> SpawnSubmit \<notin> set os1 \<and> ac_super s \<noteq> Finished"
  proof (cases "ac_super s")
    case (Supervising st)
    with step assms(2) show ?thesis
      by (cases j; cases "case j of Task k \<Rightarrow> k | _ \<Rightarrow> Slept")
         (auto simp: wait_for_connectivity_or_delay_def split: if_splits sse_phase.splits)
  qed (use step assms(2) in \<open>cases j; auto simp: wait_for_connectivity_or_delay_def split: prod.splits if_splits\<close>)+
  with s' show ?thesis by (simp add: spawn_submit_def)
qed

lemma stopping_lowers:
  assumes "account_step upper cd state_dir a watched i s = Some (os, s')" and "stopping i"
  shows "to_stop s' < to_stop s"
proof (cases i)
  case (SuperviseInput j)
  from stopping_supervised [OF assms [unfolded SuperviseInput]] show ?thesis by (simp add: to_stop_def)
next
  case (SubmitInput j)
  then obtain t os1 t' where t: "ac_submit s = Some t"
    and step: "submit_step cd state_dir a j (t\<lparr>sm_world := (sm_world t)\<lparr>files := ac_files s\<rparr>\<rparr>) = Some (os1, t')"
    and s': "s' = s\<lparr>ac_submit := Some t', ac_files := files (sm_world t')\<rparr>"
    using assms(1) by (auto split: option.splits)
  have "steps_to_end (sm_phase t') < steps_to_end (sm_phase t)"
    using step SubmitInput assms(2)
    by (cases j) (auto simp: wait_for_connectivity_or_delay_def dest: cancelled_launch split: if_splits submit_phase.splits)
  with t s' show ?thesis by (simp add: to_stop_def)
qed

lemma stopping_possible:
  assumes "supervised_runs s" and "\<not> account_over s"
  shows "\<exists>i. stopping i \<and> account_step upper cd state_dir a watched i s \<noteq> None"
proof (cases "ac_super s = Finished")
  case False
  then have "account_step upper cd state_dir a watched (SuperviseInput Terminate) s \<noteq> None
    \<or> account_step upper cd state_dir a watched (SuperviseInput (Task Shutdown)) s \<noteq> None"
    using assms(1) by (cases "ac_super s") (auto simp: supervised_runs_def)
  then show ?thesis by (metis stopping.simps(1,3))
next
  case True
  with assms(2) obtain t where t: "ac_submit s = Some t" "sm_phase t \<noteq> Ended"
    by (auto simp: account_over_def split: option.splits)
  define la where "la = (undefined :: launch)\<lparr>la_now := sm_clock t, la_cancelled := True\<rparr>"
  have "account_step upper cd state_dir a watched (SubmitInput (Launch la)) s \<noteq> None" if "sm_phase t = Launching"
    using that t by (auto simp: la_def)
  moreover have "account_step upper cd state_dir a watched (SubmitInput (RestOver Cancelled 0)) s \<noteq> None"
    if "sm_phase t = Resting d" for d
    using that t by (auto simp: wait_for_connectivity_or_delay_def)
  moreover have "account_step upper cd state_dir a watched (SubmitInput CancelTask) s \<noteq> None"
    if "sm_phase t = Looping st ctx" for st ctx
    using that t by auto
  moreover have "stopping (SubmitInput (Launch la))" by (simp add: la_def)
  ultimately show ?thesis using t(2) by (cases "sm_phase t") (metis stopping.simps(5,6))+
qed

end
