(* ===== verification/Daemon_Run.thy ===== *)
theory Daemon_Run
  imports Account_Task
begin

text \<open>
  The running daemon, \<open>run_daemon_inner\<close> of \<open>daemon/mod.rs\<close> after it has spawned its tasks: the
  accounts side by side over one file system, the signal that cancels them all, and the wait for
  their end.
\<close>

record daemon_state =
  dm_tasks :: "(account \<times> account_task) list"
  dm_files :: fs
  dm_signalled :: bool

datatype daemon_input = Signal | TaskInput nat account_input

definition daemon_begin :: "(nat \<Rightarrow> nat list) \<Rightarrow> config \<Rightarrow> account list \<Rightarrow> host \<Rightarrow> daemon_state" where
  "daemon_begin upper cfg spawned h =
     \<lparr>dm_tasks = map (\<lambda>a. (a, account_start upper a (account_world (db_path_of cfg a) h))) spawned,
      dm_files = files (lk_world h), dm_signalled = False\<rparr>"

text \<open>
  The token is checked first wherever a task waits, so that once it is cancelled only what the
  cancellation makes possible arrives; what a task saw before it counts as before the signal. An
  attempt that was under way finds its wait cancelled. Other processes go on.
\<close>

fun may_arrive :: "bool \<Rightarrow> account_input \<Rightarrow> bool" where
  "may_arrive cancelled (SubmitInput (Elsewhere f)) \<longleftrightarrow> True"
| "may_arrive cancelled (SubmitInput (TryNext v srv mo)) \<longleftrightarrow> mo_cancelled mo = cancelled"
| "may_arrive cancelled i \<longleftrightarrow> stopping i = cancelled"

fun daemon_step ::
    "(nat \<Rightarrow> nat list) \<Rightarrow> codec \<Rightarrow> path option \<Rightarrow> (account \<Rightarrow> bool) \<Rightarrow> daemon_input \<Rightarrow> daemon_state
     \<Rightarrow> ((nat \<times> account_action) list \<times> daemon_state) option" where
  "daemon_step upper cd state_dir watch_ok Signal s =
     (if dm_signalled s then None else Some ([], s\<lparr>dm_signalled := True\<rparr>))"
| "daemon_step upper cd state_dir watch_ok (TaskInput n i) s =
     (if n < length (dm_tasks s) \<and> may_arrive (dm_signalled s) i
      then case dm_tasks s ! n of (a, t) \<Rightarrow>
             map_option (\<lambda>(os, t'). (map (Pair n) os,
                 s\<lparr>dm_tasks := (dm_tasks s)[n := (a, t')], dm_files := ac_files t'\<rparr>))
               (account_step upper cd state_dir a (maildir_watched a (watch_ok a)) i (t\<lparr>ac_files := dm_files s\<rparr>))
      else None)"

text \<open>\<open>run_daemon_inner\<close> returns after the signal, when every task has been joined.\<close>

definition daemon_over :: "daemon_state \<Rightarrow> bool" where
  "daemon_over s \<longleftrightarrow> dm_signalled s \<and> list_all (\<lambda>(_, t). account_over t) (dm_tasks s)"

section \<open>Towards the end\<close>

definition task_left :: "account_task \<Rightarrow> nat" where
  "task_left t = to_stop t + (case ac_submit t of None \<Rightarrow> 0 | Some x \<Rightarrow> length (sm_due x))"

definition daemon_left :: "daemon_state \<Rightarrow> nat" where
  "daemon_left s = sum_list (map (\<lambda>(_, t). task_left t) (dm_tasks s))"

fun outside :: "daemon_input \<Rightarrow> bool" where
  "outside (TaskInput n (SubmitInput (Elsewhere f))) \<longleftrightarrow> True"
| "outside _ \<longleftrightarrow> False"

definition daemon_ok :: "daemon_state \<Rightarrow> bool" where
  "daemon_ok s \<longleftrightarrow> list_all (\<lambda>(_, t). supervised_runs t \<and> (dm_signalled s \<or> ac_super t \<noteq> Finished)) (dm_tasks s)"

lemma ac_files_same [simp]:
  "to_stop (t\<lparr>ac_files := f\<rparr>) = to_stop t" "supervised_runs (t\<lparr>ac_files := f\<rparr>) = supervised_runs t"
  "account_over (t\<lparr>ac_files := f\<rparr>) = account_over t" "task_left (t\<lparr>ac_files := f\<rparr>) = task_left t"
  by (simp_all add: to_stop_def supervised_runs_def account_over_def task_left_def)

lemma put_super_files_Finished [simp]: "put_super_files f s = Finished \<longleftrightarrow> s = Finished"
  by (cases s) auto

lemma supervisor_goes_on:
  assumes "supervisor_step upper a watched i s = Some (os, s')" and "\<not> stopping (SuperviseInput i)"
  shows "s' \<noteq> Finished"
proof (cases i)
  case (Task j)
  then obtain st os1 st' where s: "s = Supervising st" and step: "sse_step a watched j st = Some (os1, st')"
    and s': "s' = (if ss_phase st' = Exited then Finished else Supervising st')"
    using assms(1) by (cases s) auto
  have "ss_phase st' \<noteq> Exited"
    using step
  proof (cases rule: sse_step_cases)
    case stop
    with assms(2) Task show ?thesis by auto
  next
    case (attempt t c)
    then show ?thesis by (auto simp: attempt_connect_def back_off_def Let_def split: if_splits prod.splits)
  next
    case broken
    then show ?thesis by (auto simp: back_off_def split: prod.splits)
  qed (auto simp: stream_sync_Some)
  with s' show ?thesis by simp
qed (use assms in \<open>cases s; auto simp: wait_for_connectivity_or_delay_def split: prod.splits network_wait.splits if_splits\<close>)+

lemma account_goes_on:
  assumes "account_step upper cd state_dir a watched i t = Some (os, t')" and "may_arrive False i"
    and "ac_super t \<noteq> Finished"
  shows "ac_super t' \<noteq> Finished"
proof (cases i)
  case (SuperviseInput j)
  with assms show ?thesis using supervisor_goes_on by fastforce
next
  case (SubmitInput j)
  with assms show ?thesis by (auto split: option.splits)
qed

text \<open>A step of one task, and what it keeps of the others.\<close>

lemma daemon_step_task:
  assumes "daemon_step upper cd state_dir watch_ok (TaskInput n i) s = Some (os, s')"
  obtains a t os1 t' where "n < length (dm_tasks s)" "may_arrive (dm_signalled s) i" "dm_tasks s ! n = (a, t)"
    "account_step upper cd state_dir a (maildir_watched a (watch_ok a)) i (t\<lparr>ac_files := dm_files s\<rparr>) = Some (os1, t')"
    "s' = s\<lparr>dm_tasks := (dm_tasks s)[n := (a, t')], dm_files := ac_files t'\<rparr>" "os = map (Pair n) os1"
  using assms by (auto split: prod.splits if_splits)

lemma daemon_step_ok:
  assumes "daemon_step upper cd state_dir watch_ok i s = Some (os, s')" and "daemon_ok s"
  shows "daemon_ok s'"
proof (cases i)
  case Signal
  with assms show ?thesis by (auto simp: daemon_ok_def list_all_iff split: if_splits)
next
  case (TaskInput n j)
  from assms(1)[unfolded TaskInput] show ?thesis
  proof (rule daemon_step_task)
    fix a t os1 t'
    assume n: "n < length (dm_tasks s)" "dm_tasks s ! n = (a, t)" and arrive: "may_arrive (dm_signalled s) j"
      and step: "account_step upper cd state_dir a (maildir_watched a (watch_ok a)) j (t\<lparr>ac_files := dm_files s\<rparr>) = Some (os1, t')"
      and s': "s' = s\<lparr>dm_tasks := (dm_tasks s)[n := (a, t')], dm_files := ac_files t'\<rparr>"
    have old: "supervised_runs t" "dm_signalled s \<or> ac_super t \<noteq> Finished"
      using assms(2) nth_mem [OF n(1)] n(2) by (auto simp: daemon_ok_def list_all_iff)
    have "supervised_runs t'" using supervised_runs_step [OF step] old(1) by simp
    moreover have "dm_signalled s \<or> ac_super t' \<noteq> Finished"
      using account_goes_on [OF step] arrive old(2) by (cases "dm_signalled s") auto
    ultimately show "daemon_ok s'"
      using assms(2) by (auto simp: daemon_ok_def list_all_iff s' dest!: set_update_subset_insert [THEN subsetD])
  qed
qed

lemma stopping_keeps_due:
  assumes "submit_step cd state_dir a i t = Some (os, t')" and "stopping (SubmitInput i)"
  shows "length (sm_due t') \<le> length (sm_due t)"
  using assms
  by (cases i)
     (auto simp: launch_loop_def Let_def split: submit_phase.splits prod.splits if_splits sum.splits option.splits
       dest!: arg_cong [where f = snd])

lemma cancelled_step_lowers:
  assumes "account_step upper cd state_dir a watched i t = Some (os, t')" and "may_arrive True i"
    and "\<not> (\<exists>f. i = SubmitInput (Elsewhere f))"
  shows "task_left t' < task_left t"
proof (cases i)
  case (SuperviseInput j)
  then have stop: "stopping i" using assms(2) by simp
  have "ac_submit t' = ac_submit t"
    using stopping_supervised [OF assms(1) [unfolded SuperviseInput] stop [unfolded SuperviseInput]] by blast
  with stopping_lowers [OF assms(1) stop] show ?thesis by (simp add: task_left_def)
next
  case (SubmitInput j)
  then obtain x os1 x' where x: "ac_submit t = Some x" "t' = t\<lparr>ac_submit := Some x', ac_files := files (sm_world x')\<rparr>"
    and step: "submit_step cd state_dir a j (x\<lparr>sm_world := (sm_world x)\<lparr>files := ac_files t\<rparr>\<rparr>) = Some (os1, x')"
    using assms(1) by (auto split: option.splits)
  show ?thesis
  proof (cases "stopping i")
    case True
    from stopping_lowers [OF assms(1) True] stopping_keeps_due [OF step] True SubmitInput x show ?thesis
      by (simp add: task_left_def)
  next
    case False
    then obtain v srv mo where j: "j = TryNext v srv mo" using assms(2,3) SubmitInput by (cases j) auto
    then obtain st ctx b bs where ph: "sm_phase x = Looping st ctx" "sm_due x = b # bs"
      and try_: "try_next cd st ctx v srv mo b bs (x\<lparr>sm_world := (sm_world x)\<lparr>files := ac_files t\<rparr>\<rparr>) = Some (os1, x')"
      using step by (auto split: submit_phase.splits list.splits)
    from try_ have "steps_to_end (sm_phase x') + length (sm_due x') < steps_to_end (sm_phase x) + length (sm_due x)"
      by (cases rule: try_next_cases) (use ph in auto)
    with x show ?thesis by (simp add: task_left_def to_stop_def)
  qed
qed

lemma sum_list_update_nat:
  fixes f :: "'a \<Rightarrow> nat"
  shows "n < length xs \<Longrightarrow> sum_list (map f (xs[n := y])) + f (xs ! n) = sum_list (map f xs) + f y"
  by (induction xs arbitrary: n) (auto split: nat.splits)

lemma daemon_step_lowers:
  assumes "daemon_step upper cd state_dir watch_ok i s = Some (os, s')" and "dm_signalled s" and "\<not> outside i"
  shows "dm_signalled s' \<and> daemon_left s' < daemon_left s"
proof (cases i)
  case Signal
  with assms show ?thesis by simp
next
  case (TaskInput n j)
  from assms(1)[unfolded TaskInput] show ?thesis
  proof (rule daemon_step_task)
    fix a t os1 t'
    assume n: "n < length (dm_tasks s)" "dm_tasks s ! n = (a, t)" and arrive: "may_arrive (dm_signalled s) j"
      and step: "account_step upper cd state_dir a (maildir_watched a (watch_ok a)) j (t\<lparr>ac_files := dm_files s\<rparr>) = Some (os1, t')"
      and s': "s' = s\<lparr>dm_tasks := (dm_tasks s)[n := (a, t')], dm_files := ac_files t'\<rparr>"
    have "\<not> (\<exists>f. j = SubmitInput (Elsewhere f))" using assms(3) TaskInput by auto
    with cancelled_step_lowers [OF step] arrive assms(2) have lower: "task_left t' < task_left t" by simp
    have "daemon_left s' + task_left t = daemon_left s + task_left t'"
      using sum_list_update_nat [OF n(1), of "\<lambda>(_, t). task_left t" "(a, t')"] n(2)
      by (simp add: daemon_left_def s')
    then show ?thesis using lower assms(2) by (simp add: s')
  qed
qed

lemma outside_keeps_left:
  assumes "daemon_step upper cd state_dir watch_ok i s = Some (os, s')" and "outside i"
  shows "daemon_left s' = daemon_left s \<and> dm_signalled s' = dm_signalled s"
proof -
  obtain n f where i: "i = TaskInput n (SubmitInput (Elsewhere f))"
    using assms(2) by (cases i rule: outside.cases) auto
  from assms(1)[unfolded i] show ?thesis
  proof (rule daemon_step_task)
    fix a t os1 t'
    assume n: "n < length (dm_tasks s)" "dm_tasks s ! n = (a, t)"
      and step: "account_step upper cd state_dir a (maildir_watched a (watch_ok a)) (SubmitInput (Elsewhere f))
        (t\<lparr>ac_files := dm_files s\<rparr>) = Some (os1, t')"
      and s': "s' = s\<lparr>dm_tasks := (dm_tasks s)[n := (a, t')], dm_files := ac_files t'\<rparr>"
    have "task_left t' = task_left t"
      using step by (auto simp: task_left_def to_stop_def split: option.splits)
    with sum_list_update_nat [OF n(1), of "\<lambda>(_, t). task_left t" "(a, t')"] n(2) show ?thesis
      by (simp add: daemon_left_def s')
  qed
qed

lemma signalled_run_bound:
  assumes "run_machine (daemon_step upper cd state_dir watch_ok) js s = Some (os, s')" and "dm_signalled s"
  shows "length (filter (\<lambda>i. \<not> outside i) js) \<le> daemon_left s"
  using assms
proof (induction js arbitrary: s os)
  case (Cons i js)
  obtain os1 s1 os2 where step: "daemon_step upper cd state_dir watch_ok i s = Some (os1, s1)"
    and run: "run_machine (daemon_step upper cd state_dir watch_ok) js s1 = Some (os2, s')"
    using Cons.prems(1) by (auto simp only: run_machine_Cons)
  show ?case
  proof (cases "outside i")
    case True
    with outside_keeps_left [OF step] Cons.IH [OF run] Cons.prems(2) show ?thesis by simp
  next
    case False
    with daemon_step_lowers [OF step Cons.prems(2)] Cons.IH [OF run] show ?thesis by simp
  qed
qed simp

lemma daemon_begin_ok: "daemon_ok (daemon_begin upper cfg spawned h)"
  by (auto simp: daemon_ok_def daemon_begin_def list_all_iff supervised_runs_def account_start_def supervisor_start_def)

lemma daemon_step_possible:
  assumes "daemon_ok s" and "dm_signalled s" and "\<not> daemon_over s"
  shows "\<exists>i. \<not> outside i \<and> daemon_step upper cd state_dir watch_ok i s \<noteq> None"
proof -
  obtain a t where at: "(a, t) \<in> set (dm_tasks s)" "\<not> account_over t" "supervised_runs t"
    using assms by (auto simp: daemon_over_def daemon_ok_def list_all_iff)
  then obtain n where n: "n < length (dm_tasks s)" "dm_tasks s ! n = (a, t)" by (auto simp: in_set_conv_nth)
  obtain j where j: "stopping j"
    "account_step upper cd state_dir a (maildir_watched a (watch_ok a)) j (t\<lparr>ac_files := dm_files s\<rparr>) \<noteq> None"
    using stopping_possible [of "t\<lparr>ac_files := dm_files s\<rparr>" upper cd state_dir a "maildir_watched a (watch_ok a)"] at
    by (auto simp del: account_step.simps)
  have "may_arrive True j \<and> \<not> outside (TaskInput n j)"
  proof (cases j)
    case (SubmitInput k)
    with j(1) show ?thesis by (cases k) auto
  qed (use j(1) in simp)
  with n j(2) assms(2) show ?thesis by (intro exI [of _ "TaskInput n j"]) auto
qed

end
