(* ===== verification/Submit_Samples.thy ===== *)
theory Submit_Samples
  imports Submit_Loop_Facts Delivery_Properties
begin

text \<open>
  Concrete runs of the submit task: an Outbox with two messages, of which one has a sidecar, a
  server that cannot be reached, and a start that finds every folder in place.
\<close>

definition mailer :: account where
  "mailer =
     \<lparr>acct_name = ''a'', enabled = True, jmap_host = ''h'', jmap_user = ''u'', token = Inline ''t'',
      timeout_secs = 30, poll_interval_secs = 300,
      mail = Some \<lparr>mail_path = ''/m'', sync_mode = Mirror, subscribed_only = True, box_filter = None,
        tls = None, box_mapping = [], post_sync_hook = None, watch_maildir = True, exclude_mailboxes = []\<rparr>,
      submit = Some small_submit_config\<rparr>"

abbreviation sample_sidecars :: path where
  "sample_sidecars \<equiv> [''s'', ''jmapsyncd'', ''a'', ''outbox-meta'']"

definition sample_dirs :: "path list" where
  "sample_dirs =
     [[''m''], [''m'', ''Outbox''], [''m'', ''Outbox'', ''tmp''], [''m'', ''Outbox'', ''new''],
      [''m'', ''Outbox'', ''cur''], [''m'', ''Failed''], [''m'', ''Failed'', ''tmp''],
      [''m'', ''Failed'', ''new''], [''m'', ''Failed'', ''cur''], [''s''], [''s'', ''jmapsyncd''],
      [''s'', ''jmapsyncd'', ''a''], sample_sidecars]"

definition ready_world :: world where
  "ready_world = \<lparr>db = empty_database True,
     files = map (\<lambda>p. (p, Dir)) sample_dirs @
       [([''m'', ''Outbox'', ''new'', ''a''], File ''hi''), ([''m'', ''Outbox'', ''new'', ''b''], File ''ho''),
        (sample_sidecars @ [''b.json''], File (print_sidecar small_sidecar))],
     uuids_drawn = 0, set_requests = []\<rparr>"

definition sample_site :: submit_site where
  "sample_site = \<lparr>st_submit = small_submit_config, st_outbox = [''m'', ''Outbox''],
     st_failed = [''m'', ''Failed''], st_sidecars = sample_sidecars\<rparr>"

definition down_server :: submit_server where
  "down_server = small_server\<lparr>srv_upload := (\<lambda>_ _. Inl (Transport None ''down''))\<rparr>"

definition sample_launch :: launch where
  "sample_launch =
     \<lparr>la_env = quiet_env, la_server = down_server, la_account_id = ''A'',
      la_identity_get = Inr [\<lparr>idt_id = Some ''I'', idt_email = Some ''ME@x''\<rparr>],
      la_mailbox_get = Inr [\<lparr>sm_id = Some ''drafts'', sm_name = Some ''D'', sm_parent_id = None, sm_role = Drafts, sm_sort_order = 0, sm_is_subscribed = True\<rparr>,
        \<lparr>sm_id = Some ''sent'', sm_name = Some ''S'', sm_parent_id = None, sm_role = Sent, sm_sort_order = 0, sm_is_subscribed = True\<rparr>],
      la_epoch = 7, la_now = 1, la_watch = True, la_cancelled = False\<rparr>"

lemma mailer_simps:
  "submit mailer = Some small_submit_config" "acct_name mailer = ''a''"
  "\<exists>m. mail mailer = Some m \<and> mail_root_of m = [''m'']"
  by (simp_all add: mailer_def mail_root_of_def join_path_def)

lemma sample_sidecar_dir: "sidecar_dir_for (Some [''s'']) ''a'' = Inr sample_sidecars"
  by (simp add: sidecar_dir_for_def join_path_def)

lemma make_dirs_there: "(\<And>q. q \<in> set ps \<Longrightarrow> map_of f q = Some Dir) \<Longrightarrow> make_dirs f ps = Some f"
  by (induction ps) auto

lemma sample_dir_there: "p \<in> set sample_dirs \<Longrightarrow> map_of (files ready_world) p = Some Dir"
proof -
  have "map_of (map (\<lambda>p. (p, Dir)) ds) p = Some Dir" if "p \<in> set ds" for ds
    using that by (induction ds) auto
  then show "p \<in> set sample_dirs \<Longrightarrow> map_of (files ready_world) p = Some Dir"
    by (simp add: ready_world_def map_add_def)
qed

lemma sample_parents: "list_all (\<lambda>p. list_all (\<lambda>k. take k p \<in> set sample_dirs) [1..<Suc (length p)]) sample_dirs"
  by code_simp

lemma made_already:
  assumes "p \<in> set sample_dirs"
  shows "sys_create_dir_all quiet_env p ready_world = (Inr (), ready_world)"
proof -
  have "create_dir_all (files ready_world) p = Some (files ready_world)"
    unfolding create_dir_all_def using sample_parents assms
    by (intro make_dirs_there sample_dir_there) (auto simp: list_all_iff)
  then show ?thesis by (simp add: sys_create_dir_all_def sys_def)
qed

lemma sample_prepare: "prepare_site quiet_env (Some [''s'']) mailer ready_world = (Inr (Some sample_site), ready_world)"
proof -
  obtain m where m: "mail mailer = Some m" "mail_root_of m = [''m'']" using mailer_simps by blast
  have "create_each quiet_env (site_dirs [''m'', ''Outbox''] [''m'', ''Failed'']) ready_world = (Inr (), ready_world)"
    by (simp add: site_dirs_def made_already sample_dirs_def)
  then show ?thesis
    using m by (simp add: prepare_site_def mailer_simps sample_sidecar_dir made_already sample_dirs_def
        sample_site_def Let_def)
qed

lemma sample_context:
  "resolve_context (la_account_id sample_launch) (la_identity_get sample_launch) (la_mailbox_get sample_launch)
     small_submit_config = Inr small_context"
  by code_simp

lemma sample_queue:
  "startup_queue quiet_env plain_codec down_server sample_sidecars [''m'', ''Outbox''] 7 1 (files ready_world)
    = schedule_at ''b'' 1 (schedule_at ''a'' 1 new_schedule)"
proof -
  have "scan_maildir_files quiet_env [''m'', ''Outbox''] (files ready_world)
      = [[''m'', ''Outbox'', ''new'', ''a''], [''m'', ''Outbox'', ''new'', ''b'']]"
    by (simp add: scan_maildir_files_def list_dir_def read_dir_def dir_entries_def is_dir_def is_file_def
        ready_world_def sample_dirs_def prefix_def)
  moreover have "load_sidecar quiet_env plain_codec sample_sidecars ''a'' (files ready_world) = default_sidecar"
    "load_sidecar quiet_env plain_codec sample_sidecars ''b'' (files ready_world) = small_sidecar"
    by (simp_all add: load_sidecar_def sidecar_path_def read_file_def ready_world_def sample_dirs_def
        plain_codec_def read_print_sidecar)
  moreover have "strip_flags ''a'' = ''a''" "strip_flags ''b'' = ''b''" by code_simp+
  ultimately show ?thesis
    by (simp add: startup_queue_def Let_def default_sidecar_def small_sidecar_def secs_def)
qed

section \<open>A run\<close>

definition patient_moment :: moment where
  "patient_moment = small_moment\<lparr>mo_after := secs 100\<rparr>"

lemma down_submit:
  "submit_one down_server small_context msg (small_sidecar\<lparr>sd_in_flight := i\<rparr>)
    = (from_jmap_error (\<lambda>s. s) (Transport None ''down''), [Upload ''A'' msg])"
proof -
  have "envelope_validation_error (sd_envelope (small_sidecar\<lparr>sd_in_flight := i\<rparr>)) = None"
    using small_envelope by simp
  moreover have "parse_send_at down_server (small_sidecar\<lparr>sd_in_flight := i\<rparr>) = Inr None"
    by (simp add: parse_send_at_def small_sidecar_def default_sidecar_def)
  ultimately show ?thesis
    by (simp add: submit_one_def down_server_def small_server_def small_context_def Let_def)
qed

definition drained_task :: submit_task where
  "drained_task = (submit_start (\<lambda>c. [c]) mailer ready_world)\<lparr>
     sm_phase := Looping sample_site small_context,
     sm_loop := \<lparr>ls_known_failures = [], ls_pending = [], ls_queue = snd (drain_due 1 (schedule_at ''b'' 1 (schedule_at ''a'' 1 new_schedule)))\<rparr>,
     sm_due := [''b'', ''a''], sm_clock := 1\<rparr>"

definition start_inputs :: "submit_input list" where
  "start_inputs = [Launch sample_launch, TimerFired 1 1]"

lemma sample_timer:
  "wait_next 1 (schedule_at ''b'' 1 (schedule_at ''a'' 1 new_schedule)) = Some 1"
  "fst (drain_due 1 (schedule_at ''b'' 1 (schedule_at ''a'' 1 new_schedule))) = [''b'', ''a'']"
  by code_simp+

lemma sample_launched:
  "launch_loop plain_codec (Some [''s'']) mailer sample_launch (submit_start (\<lambda>c. [c]) mailer ready_world)
    = ([], (submit_start (\<lambda>c. [c]) mailer ready_world)\<lparr>sm_phase := Looping sample_site small_context,
        sm_loop := \<lparr>ls_known_failures = [], ls_pending = [],
          ls_queue = schedule_at ''b'' 1 (schedule_at ''a'' 1 new_schedule)\<rparr>, sm_clock := 1\<rparr>)"
proof -
  have "scan_basenames quiet_env [''m'', ''Failed''] (files ready_world) = []"
    by (simp add: scan_basenames_def scan_maildir_files_def list_dir_def read_dir_def dir_entries_def
        is_dir_def ready_world_def sample_dirs_def)
  moreover have "la_env sample_launch = quiet_env" "la_server sample_launch = down_server" "la_now sample_launch = 1"
    "la_epoch sample_launch = 7" "la_watch sample_launch" by (simp_all add: sample_launch_def)
  ultimately show ?thesis
    using sample_prepare sample_context sample_queue
    by (simp add: launch_loop_def submit_start_def initial_loop_def sample_site_def notify_recovered_def
        new_notifier_def reset_backoff_def new_backoff_def)
qed

lemma start_run:
  "run_machine (submit_step plain_codec (Some [''s'']) mailer) start_inputs (submit_start (\<lambda>c. [c]) mailer ready_world)
    = Some ([], drained_task)"
proof -
  have "sm_phase (submit_start (\<lambda>c. [c]) mailer ready_world) = Launching"
    "sm_due (submit_start (\<lambda>c. [c]) mailer ready_world) = []"
    "sm_clock (submit_start (\<lambda>c. [c]) mailer ready_world) \<le> la_now sample_launch"
    by (simp_all add: submit_start_def)
  then show ?thesis
    using sample_timer
    by (cases "drain_due 1 (schedule_at ''b'' 1 (schedule_at ''a'' 1 new_schedule))")
       (simp add: start_inputs_def sample_launched expire_pending_renames_def drained_task_def Let_def)
qed

lemma sample_delay: "\<exists>d. backoff_delay (\<lambda>x. x) 1 30 7200 0 = Some d \<and> d \<le> secs 40"
proof -
  have exact: "f64_rounding (\<lambda>x. x)" by (simp add: f64_rounding_def mono_def)
  have raw: "backoff_raw 1 30 7200 = 30" by (simp add: backoff_raw_def u64_max_def)
  show ?thesis using backoff_delay_range [OF exact _ raw, of 0] by (auto simp: secs_def)
qed

lemma sample_files:
  "locate_and_read_outbox_message quiet_env [''m'', ''Outbox''] ''b'' (files ready_world)
    = Inr ([''m'', ''Outbox'', ''new'', ''b''], ''ho'')"
  "load_sidecar quiet_env plain_codec sample_sidecars ''b'' (files ready_world) = small_sidecar"
  by (simp_all add: locate_and_read_outbox_message_def locate_in_def read_message_def is_file_def
      load_sidecar_def sidecar_path_def read_file_def ready_world_def sample_dirs_def plain_codec_def read_print_sidecar)

text \<open>The attempt at \<open>b\<close> fails for the time being; \<open>a\<close> has no sidecar.\<close>

lemma blank_save:
  "b \<noteq> b' \<Longrightarrow> ''.'' @ b @ ''.json.tmp'' \<noteq> b' @ ''.json'' \<Longrightarrow> sidecar_blank cd dir b' (files w) \<Longrightarrow>
   sidecar_blank cd dir b' (files (snd (save_sidecar v cd dir b s w)))"
  unfolding save_sidecar_def
  by (rule keepsD [OF keeps_blank]) (simp_all add: sidecar_path_def sidecar_tmp_def)

lemma first_settled:
  assumes "sidecar_blank plain_codec sample_sidecars ''a'' (files w)"
  shows "\<exists>r w'. settle_attempt quiet_env plain_codec patient_moment small_submit_config sample_sidecars
      [''m'', ''Failed''] ''b'' q n p (small_sidecar\<lparr>sd_in_flight := i\<rparr>) (Transient reason) reqs w = (Inr r, w')
    \<and> ar_outcome r = Some (Transient reason) \<and> ar_requests r = reqs
    \<and> sidecar_blank plain_codec sample_sidecars ''a'' (files w')"
proof -
  obtain d where d: "backoff_delay (\<lambda>x. x) 1 30 7200 0 = Some d" using sample_delay by blast
  have k: "next_attempts (small_sidecar\<lparr>sd_in_flight := i\<rparr>) = 1"
    by (simp add: next_attempts_def small_sidecar_def default_sidecar_def)
  obtain ns n' where nf: "notify_failed n = (ns, n')" by force
  note blank = blank_save [of "''b''" "''a''", OF _ _ assms]
  show ?thesis
    using d k nf blank
    by (simp add: settle_attempt_def bindE_def ignore_err_def ret_def patient_moment_def small_moment_def
        small_submit_config_def wait_for_connectivity_or_delay_def Let_def)
qed

lemma first_attempt:
  "\<exists>reason os s. submit_step plain_codec (Some [''s'']) mailer (TryNext quiet_env down_server patient_moment) drained_task
      = Some (Attempted 1 ''b'' (Some ([''m'', ''Outbox'', ''new'', ''b''], ''ho'')) (Some (Transient reason))
          [Upload ''A'' ''ho''] # os, s)
    \<and> sm_phase s = Looping sample_site small_context \<and> sm_due s = [''a''] \<and> sm_clock s = secs 100
    \<and> sidecar_blank plain_codec sample_sidecars ''a'' (files (sm_world s))"
proof -
  let ?sc = "in_flight_sidecar quiet_env plain_codec patient_moment sample_sidecars ''b'' (files ready_world)"
  let ?w1 = "snd (save_sidecar quiet_env plain_codec sample_sidecars ''b'' ?sc ready_world)"
  have sc: "?sc = small_sidecar\<lparr>sd_in_flight := Some ''now''\<rparr>"
    by (simp add: in_flight_sidecar_def sample_files patient_moment_def small_moment_def)
  obtain reason where tr: "from_jmap_error (\<lambda>s. s) (Transport None ''down'') = Transient reason" by simp
  have one: "submit_one down_server small_context ''ho'' ?sc = (Transient reason, [Upload ''A'' ''ho''])"
    using down_submit tr sc by simp
  have "sidecar_blank plain_codec sample_sidecars ''a'' (files ready_world)"
    by (simp add: sidecar_blank_def sidecar_path_def ready_world_def sample_dirs_def read_file_def)
  then have blank: "sidecar_blank plain_codec sample_sidecars ''a'' (files ?w1)"
    by (intro blank_save) simp_all
  obtain r w' where settled: "settle_attempt quiet_env plain_codec patient_moment small_submit_config sample_sidecars
      [''m'', ''Failed''] ''b'' (ls_queue (sm_loop drained_task)) (sm_notifier drained_task)
      [''m'', ''Outbox'', ''new'', ''b''] ?sc (Transient reason) [Upload ''A'' ''ho''] ?w1 = (Inr r, w')"
    and r: "ar_outcome r = Some (Transient reason)" "ar_requests r = [Upload ''A'' ''ho'']"
    and w': "sidecar_blank plain_codec sample_sidecars ''a'' (files w')"
    using first_settled [OF blank] unfolding sc by blast
  have run: "handle_submit_attempt quiet_env plain_codec down_server patient_moment small_context small_submit_config
      sample_sidecars [''m'', ''Outbox''] [''m'', ''Failed''] ''b'' (ls_queue (sm_loop drained_task))
      (sm_notifier drained_task) ready_world = (Inr r, w')"
    unfolding attempt_located [OF sample_files(1) one] by (rule settled)
  obtain d where d: "backoff_delay (\<lambda>x. x) 1 30 7200 0 = Some d" "d \<le> secs 40" using sample_delay by blast
  have "next_attempts small_sidecar = 1" by (simp add: next_attempts_def small_sidecar_def default_sidecar_def)
  with d have pause: "attempt_pause quiet_env plain_codec sample_site patient_moment ''b'' (files ready_world) (ar_outcome r)
      = (d, True)"
    by (simp add: attempt_pause_def r(1) sample_site_def sample_files patient_moment_def small_moment_def
        small_submit_config_def wait_for_connectivity_or_delay_def Let_def)
  have "sm_phase drained_task = Looping sample_site small_context" "sm_due drained_task = [''b'', ''a'']"
    "sm_clock drained_task = 1" "sm_world drained_task = ready_world"
    by (simp_all add: drained_task_def submit_start_def)
  moreover have "st_submit sample_site = small_submit_config" "st_outbox sample_site = [''m'', ''Outbox'']"
    "st_failed sample_site = [''m'', ''Failed'']" "st_sidecars sample_site = sample_sidecars"
    by (simp_all add: sample_site_def)
  moreover have "mo_after patient_moment = secs 100" by (simp add: patient_moment_def)
  ultimately show ?thesis
    using run pause r w' d(2) sample_files(1) by (auto simp: try_next_def secs_def)
qed

text \<open>A message without its sidecar is attempted without a wait.\<close>

lemma blank_attempt:
  assumes "sidecar_blank cd dir b (files w)"
  shows "\<exists>r w'. handle_submit_attempt v cd srv mo ctx cfg dir outbox failed b q n w = (Inr r, w')
    \<and> (\<forall>reason. ar_outcome r \<noteq> Some (Transient reason))"
proof (cases "locate_and_read_outbox_message v outbox b (files w)")
  case (Inl e)
  then show ?thesis
    by (simp add: handle_submit_attempt_def bindE_def fs_query_def ignore_err_def ret_def)
next
  case (Inr loc)
  obtain p bytes where loc: "loc = (p, bytes)" by force
  show ?thesis
    unfolding attempt_located [OF Inr [unfolded loc] blank_is_permanent [OF assms]]
    by (simp add: settle_attempt_def bindE_def ignore_err_def swallow_def ret_def)
qed

lemma second_attempt:
  assumes "sm_phase s = Looping sample_site small_context" and "sm_due s = [''a'']" and "sm_clock s = secs 100"
    and "sidecar_blank plain_codec sample_sidecars ''a'' (files (sm_world s))"
  shows "\<exists>loc out reqs os s'. submit_step plain_codec (Some [''s'']) mailer (TryNext quiet_env down_server patient_moment) s
      = Some (Attempted (secs 100) ''a'' loc out reqs # os, s')"
proof -
  have site: "st_submit sample_site = small_submit_config" "st_outbox sample_site = [''m'', ''Outbox'']"
    "st_failed sample_site = [''m'', ''Failed'']" "st_sidecars sample_site = sample_sidecars"
    by (simp_all add: sample_site_def)
  obtain r w' where run: "handle_submit_attempt quiet_env plain_codec down_server patient_moment small_context
      small_submit_config sample_sidecars [''m'', ''Outbox''] [''m'', ''Failed''] ''a'' (ls_queue (sm_loop s))
      (sm_notifier s) (sm_world s) = (Inr r, w')" and out: "\<forall>reason. ar_outcome r \<noteq> Some (Transient reason)"
    using blank_attempt [OF assms(4)] by blast
  have "attempt_pause quiet_env plain_codec sample_site patient_moment ''a'' (files (sm_world s)) (ar_outcome r) = (0, True)"
    using out by (auto simp: attempt_pause_def split: option.splits submit_outcome.splits)
  moreover have "mo_after patient_moment = secs 100" by (simp add: patient_moment_def)
  ultimately show ?thesis using run assms(1-3) site by (auto simp: try_next_def Let_def)
qed

section \<open>A watcher that cannot be set up\<close>

definition unwatched :: "instant \<Rightarrow> launch" where
  "unwatched now = sample_launch\<lparr>la_now := now, la_watch := False\<rparr>"

lemma unwatched_now [simp]: "la_now (unwatched now) = now"
  by (simp add: unwatched_def)

lemma unwatched_launch:
  "launch_loop plain_codec (Some [''s'']) mailer (unwatched now) s =
     (let (ns, n) = notify_recovered (sm_notifier s)
      in after_return False (map SubmitNotice ns)
           (s\<lparr>sm_world := ready_world, sm_clock := now, sm_backoff := reset_backoff (sm_backoff s), sm_notifier := n\<rparr>))"
  if "sm_world s = ready_world"
proof -
  have "la_env (unwatched now) = quiet_env" "la_now (unwatched now) = now" "\<not> la_watch (unwatched now)"
    "\<not> la_cancelled (unwatched now)" "st_submit sample_site = small_submit_config"
    by (simp_all add: unwatched_def sample_launch_def sample_site_def)
  moreover have "resolve_context (la_account_id (unwatched now)) (la_identity_get (unwatched now))
      (la_mailbox_get (unwatched now)) small_submit_config = Inr small_context"
    using sample_context by (simp add: unwatched_def)
  ultimately show ?thesis
    using that sample_prepare by (simp add: launch_loop_def Let_def)
qed

lemma unwatched_run:
  "\<exists>os s. run_machine (submit_step plain_codec (Some [''s'']) mailer)
      [Launch (unwatched 1), RestOver Online 0, Launch (unwatched (secs 10)), RestOver Unavailable 3]
      (submit_start (\<lambda>c. [c]) mailer ready_world) = Some (os, s)"
  by (simp add: unwatched_launch submit_start_def after_return_def notify_recovered_def notify_failed_def
      reset_backoff_def take_delay_def new_backoff_def new_notifier_def wait_for_connectivity_or_delay_def
      LOOP_RETRY_BASE_def LOOP_RETRY_CAP_def secs_def)

end
