(* ===== verification/Submit_Loop_Properties.thy ===== *)
theory Submit_Loop_Properties
  imports Submit_Samples
begin

text \<open>
  The properties of the submit task over its runs: what happens to a message, to a queued name, to
  the other messages while one fails, and to the backoff when the watcher cannot be set up.
\<close>

lemma reached_ok:
  assumes "run_machine (submit_step cd state_dir acct) is (submit_start upper acct w) = Some (os, s)"
  shows "task_ok state_dir acct s"
  by (rule submit_order.run_ok [OF submit_start_ok assms])

lemma delay_at_least_base:
  assumes "f64_rounding rnd" and "nanos < 1000000000"
    and "backoff_delay rnd k base_secs cap_secs nanos = Some d" and "cap_secs \<le> 2 ^ 50"
  shows "3 * secs (min base_secs cap_secs) \<le> 4 * d"
proof -
  have raw: "backoff_raw k base_secs cap_secs \<le> 2 ^ 50"
    using assms(4) by (simp add: backoff_raw_def Let_def)
  define x where "x = base_secs * 2 ^ min (k - 1) BACKOFF_ATTEMPT_CAP"
  have "base_secs \<le> x" by (simp add: x_def)
  moreover have "backoff_raw k base_secs cap_secs = max (min (min x u64_max) cap_secs) 1"
    by (simp add: backoff_raw_def Let_def x_def)
  ultimately have "min base_secs cap_secs \<le> backoff_raw k base_secs cap_secs"
    using assms(4) by (auto simp: u64_max_def min_def max_def)
  with backoff_delay_range [OF assms(1,2) refl raw] assms(3) show ?thesis
    by (simp add: secs_def)
qed

text \<open>What follows the report of an attempt are notices.\<close>

lemma submit_step_notices:
  assumes "submit_step cd state_dir acct (TryNext v srv mo) s = Some (x # os, s')" and "y \<in> set os"
  shows "\<exists>n. y = SubmitNotice n"
proof -
  obtain st ctx b bs where "try_next cd st ctx v srv mo b bs s = Some (x # os, s')"
    using assms(1) by (auto split: submit_phase.splits list.splits)
  then show ?thesis by (cases rule: try_next_cases) (use assms(2) in auto)
qed

text \<open>After the end nothing is attempted.\<close>

lemma ended_step:
  "submit_step cd state_dir acct i s = Some (os, s') \<Longrightarrow> sm_phase s = Ended \<Longrightarrow> os = [] \<and> sm_phase s' = Ended"
  by (cases i) auto

lemma ended_run:
  "run_machine (submit_step cd state_dir acct) is s = Some (os, s') \<Longrightarrow> sm_phase s = Ended \<Longrightarrow> os = []"
proof (induction "is" arbitrary: s os)
  case (Cons i js)
  then show ?case by (fastforce simp only: run_machine_Cons dest: ended_step)
qed simp

section \<open>Messages\<close>

text \<open>
  C2: The submit task never loses a message: a message that lies in the Outbox at any point of
  any run is still there afterwards, byte for byte up to the diagnostic headers that a drag-back
  takes out, unless the run attempted exactly that message and the attempt was a success or
  failed for good. This holds whichever system calls are refused, whatever the server answers,
  whatever events arrive and however often the task is restarted, as long as other processes
  leave the message alone and the sidecars lie elsewhere.
\<close>

theorem outbox_message_never_lost:
  assumes "run_machine (submit_step cd state_dir acct) is (submit_start upper acct w) = Some (os1, s1)"
    and "run_machine (submit_step cd state_dir acct) js s1 = Some (os2, s2)"
    and "mail acct = Some m" and "p = mail_root_of m @ [''Outbox'', sub, name]" and "\<not> prefix ''.'' name"
    and "\<forall>dir. sidecar_dir_for state_dir (acct_name acct) = Inr dir \<longrightarrow> \<not> prefix dir p"
    and "read_file (files (sm_world s1)) p = Some c" and "\<forall>i\<in>set js. left_alone p c i"
  shows "in_outbox p c (files (sm_world s2)) \<or> (\<exists>x\<in>set os2. left_outbox p c x)"
proof -
  have ok: "task_ok state_dir acct s1"
    by (rule reached_ok [OF assms(1)])
  have there: "in_outbox p c (files (sm_world s1))"
    using assms(7) stripping_refl by (auto simp: in_outbox_def)
  show ?thesis
    by (rule run_keeps_message [OF assms(2) ok assms(3-5) _ there assms(8)]) (use assms(6) in blast)
qed

lemma mailer_mail: "\<exists>m. mail mailer = Some m \<and> mail_root_of m = [''m'']"
  by (rule mailer_simps(3))

theorem outbox_message_never_lost_witness:
  "\<exists>os s. run_machine (submit_step plain_codec (Some [''s'']) mailer)
      [TryNext quiet_env down_server patient_moment] drained_task = Some (os, s)
    \<and> in_outbox [''m'', ''Outbox'', ''new'', ''b''] ''ho'' (files (sm_world s))"
proof -
  obtain m where m: "mail mailer = Some m" "mail_root_of m = [''m'']" using mailer_mail by blast
  obtain reason os s where step: "submit_step plain_codec (Some [''s'']) mailer
      (TryNext quiet_env down_server patient_moment) drained_task
        = Some (Attempted 1 ''b'' (Some ([''m'', ''Outbox'', ''new'', ''b''], ''ho'')) (Some (Transient reason))
          [Upload ''A'' ''ho''] # os, s)"
    using first_attempt by blast
  let ?os = "Attempted 1 ''b'' (Some ([''m'', ''Outbox'', ''new'', ''b''], ''ho'')) (Some (Transient reason))
          [Upload ''A'' ''ho''] # os"
  have run: "run_machine (submit_step plain_codec (Some [''s'']) mailer)
      [TryNext quiet_env down_server patient_moment] drained_task = Some (?os, s)"
    using step by (simp del: submit_step.simps)
  have p: "[''m'', ''Outbox'', ''new'', ''b''] = mail_root_of m @ [''Outbox'', ''new'', ''b'']" using m by simp
  have apart: "\<forall>dir. sidecar_dir_for (Some [''s'']) (acct_name mailer) = Inr dir \<longrightarrow>
      \<not> prefix dir [''m'', ''Outbox'', ''new'', ''b'']"
    by (simp add: mailer_simps sample_sidecar_dir)
  have file_: "read_file (files (sm_world drained_task)) [''m'', ''Outbox'', ''new'', ''b''] = Some ''ho''"
    using locate_file [OF sample_files(1)] by (simp add: holds_read drained_task_def submit_start_def)
  have others: "\<forall>i\<in>set [TryNext quiet_env down_server patient_moment].
      left_alone [''m'', ''Outbox'', ''new'', ''b''] ''ho'' i"
    by (simp add: left_alone_def)
  have hidden: "\<not> prefix ''.'' ''b''" by simp
  have "\<not> left_outbox p c x" if "x \<in> set ?os" for p c x
  proof -
    have "x = hd ?os \<or> (\<exists>n. x = SubmitNotice n)"
      using that submit_step_notices [OF step] by auto
    then show ?thesis by (auto simp: left_outbox_def)
  qed
  with outbox_message_never_lost [OF start_run run m(1) p hidden apart file_ others] run
  show ?thesis by blast
qed

text \<open>
  C17: A queued name is not forgotten: in every step of a running loop a name that is queued, or
  drained and about to be attempted, stays so, unless it is attempted, its file is removed or
  appears in Failed, or the loop ends; and an attempt that fails for the time being queues its
  name again.
\<close>

theorem queued_name_is_attempted:
  assumes "run_machine (submit_step cd state_dir acct) is (submit_start upper acct w) = Some (os, s)"
    and "submit_step cd state_dir acct i s = Some (os1, s1)" and "running s" and "running s1"
  shows "(waiting b s \<and> \<not> withdraws b i \<longrightarrow> waiting b s1 \<or> (\<exists>x\<in>set os1. attempts b x))
    \<and> (Attempted t b loc (Some (Transient reason)) reqs \<in> set os1 \<longrightarrow> waiting b s1)"
proof -
  have ok: "task_ok state_dir acct s"
    by (rule reached_ok [OF assms(1)])
  have "waiting b s1" if at: "Attempted t b loc (Some (Transient reason)) reqs \<in> set os1"
  proof -
    obtain st ctx v srv mo b' bs where try_: "try_next cd st ctx v srv mo b' bs s = Some (os1, s1)"
      using submit_step_attempts [OF assms(2) at] by blast
    from try_ show ?thesis
    proof (cases rule: try_next_cases)
      case (attempted r w' pause go_on)
      have b: "b' = b" "ar_outcome r = Some (Transient reason)" using at attempted(4) by auto
      have go_on using attempted(5) assms(4) by (simp add: running_def split: if_splits)
      with transient_waits [OF attempted(1)] attempted(2) b
      have "ar_queue r = schedule_at b (mo_after mo) (ls_queue (sm_loop s))" by auto
      with attempted(5) ok show ?thesis by (simp add: waiting_def task_ok_def retry_queue.put_due)
    qed (use at in simp)
  qed
  with submit_step_waiting [OF assms(2) ok assms(3)] assms(4) show ?thesis by blast
qed

theorem queued_name_is_attempted_witness:
  "\<exists>reason os s. submit_step plain_codec (Some [''s'']) mailer
      (TryNext quiet_env down_server patient_moment) drained_task
        = Some (Attempted 1 ''b'' (Some ([''m'', ''Outbox'', ''new'', ''b''], ''ho'')) (Some (Transient reason))
          [Upload ''A'' ''ho''] # os, s) \<and> waiting ''b'' s"
proof -
  obtain reason os s where step: "submit_step plain_codec (Some [''s'']) mailer
      (TryNext quiet_env down_server patient_moment) drained_task
        = Some (Attempted 1 ''b'' (Some ([''m'', ''Outbox'', ''new'', ''b''], ''ho'')) (Some (Transient reason))
          [Upload ''A'' ''ho''] # os, s)" and ph: "sm_phase s = Looping sample_site small_context"
    using first_attempt by blast
  have "running drained_task" "running s" using ph by (simp_all add: running_def drained_task_def)
  from queued_name_is_attempted [OF start_run step this] step show ?thesis by auto
qed

text \<open>
  C38: One message holds up all others: an attempt that fails for the time being keeps the loop
  for its whole delay, so that whatever the task attempts next, however long it has been due,
  starts at least three quarters of the smaller of \<open>retry_base_secs\<close> and \<open>retry_cap_secs\<close>
  later.
\<close>

theorem transient_failure_blocks_outbox:
  assumes "run_machine (submit_step cd state_dir acct) is (submit_start upper acct w) = Some (os0, s0)"
    and "run_machine (submit_step cd state_dir acct) (TryNext v srv mo # js) s0
      = Some (Attempted t b loc (Some (Transient reason)) reqs # os, s1)"
    and "Attempted t' b' loc' out' reqs' \<in> set os"
    and "submit acct = Some cfg" and "f64_rounding (mo_rnd mo)" and "mo_nanos mo < 1000000000"
    and "retry_cap_secs cfg \<le> 2 ^ 50"
  shows "4 * t + 3 * secs (min (retry_base_secs cfg) (retry_cap_secs cfg)) \<le> 4 * t'"
proof -
  obtain os1 s2 os2 where step: "submit_step cd state_dir acct (TryNext v srv mo) s0 = Some (os1, s2)"
    and run: "run_machine (submit_step cd state_dir acct) js s2 = Some (os2, s1)"
    and out: "Attempted t b loc (Some (Transient reason)) reqs # os = os1 @ os2"
    using assms(2) by (auto simp only: run_machine_Cons)
  obtain st ctx c bs where ph: "sm_phase s0 = Looping st ctx"
    and try_: "try_next cd st ctx v srv mo c bs s0 = Some (os1, s2)"
    using step by (auto split: submit_phase.splits list.splits)
  have cfg: "st_submit st = cfg"
    using reached_ok [OF assms(1)] ph assms(4) by (simp add: task_ok_def site_of_def)
  from try_ show ?thesis
  proof (cases rule: try_next_cases)
    case (panic e w')
    then have "sm_phase s2 = Ended" by simp
    from ended_run [OF run this] panic(1) out show ?thesis by simp
  next
    case (attempted r w' pause go_on)
    have head: "t = sm_clock s0" "ar_outcome r = Some (Transient reason)"
      and os: "os = map SubmitNotice (ar_notices r) @ os2" using out attempted(4) by auto
    have "os2 \<noteq> []" using assms(3) os by auto
    then have go_on: go_on using ended_run [OF run] attempted(5) by (cases go_on) auto
    obtain delay where d: "delay \<le> pause" "backoff_delay (mo_rnd mo)
        (next_attempts (load_sidecar v cd (st_sidecars st) c (files (sm_world s0))))
        (retry_base_secs cfg) (retry_cap_secs cfg) (mo_nanos mo) = Some delay"
      using transient_waits [OF attempted(1) head(2)] attempted(2) go_on cfg by auto
    have "3 * secs (min (retry_base_secs cfg) (retry_cap_secs cfg)) \<le> 4 * delay"
      by (rule delay_at_least_base [OF assms(5,6) d(2) assms(7)])
    moreover have "sm_clock s2 \<le> t'"
      using run_time [OF run] assms(3) os by (force simp: attempt_time_def)
    ultimately show ?thesis using attempted(3,5) d(1) head(1) by simp
  qed
qed

theorem transient_failure_blocks_outbox_witness:
  "\<exists>reason os os' s1 s2 loc out reqs. run_machine (submit_step plain_codec (Some [''s'']) mailer)
      [TryNext quiet_env down_server patient_moment, TryNext quiet_env down_server patient_moment] drained_task
        = Some (Attempted 1 ''b'' (Some ([''m'', ''Outbox'', ''new'', ''b''], ''ho'')) (Some (Transient reason))
            [Upload ''A'' ''ho''] # os @ Attempted (secs 100) ''a'' loc out reqs # os', s2)
    \<and> 4 * 1 + 3 * secs 30 \<le> 4 * secs 100"
proof -
  obtain reason os s where step: "submit_step plain_codec (Some [''s'']) mailer
      (TryNext quiet_env down_server patient_moment) drained_task
        = Some (Attempted 1 ''b'' (Some ([''m'', ''Outbox'', ''new'', ''b''], ''ho'')) (Some (Transient reason))
          [Upload ''A'' ''ho''] # os, s)" and s: "sm_phase s = Looping sample_site small_context"
      "sm_due s = [''a'']" "sm_clock s = secs 100"
      "sidecar_blank plain_codec sample_sidecars ''a'' (files (sm_world s))"
    using first_attempt by blast
  obtain loc out reqs os' s' where step': "submit_step plain_codec (Some [''s'']) mailer
      (TryNext quiet_env down_server patient_moment) s = Some (Attempted (secs 100) ''a'' loc out reqs # os', s')"
    using second_attempt [OF s] by blast
  have run: "run_machine (submit_step plain_codec (Some [''s'']) mailer)
      [TryNext quiet_env down_server patient_moment, TryNext quiet_env down_server patient_moment] drained_task
        = Some (Attempted 1 ''b'' (Some ([''m'', ''Outbox'', ''new'', ''b''], ''ho'')) (Some (Transient reason))
            [Upload ''A'' ''ho''] # os @ Attempted (secs 100) ''a'' loc out reqs # os', s')"
    using step step' by (simp del: submit_step.simps)
  have later: "Attempted (secs 100) ''a'' loc out reqs \<in> set (os @ Attempted (secs 100) ''a'' loc out reqs # os')"
    by simp
  have exact: "f64_rounding (mo_rnd patient_moment)" and nanos: "mo_nanos patient_moment < 1000000000"
    and cap: "retry_cap_secs small_submit_config \<le> 2 ^ 50"
    by (simp_all add: patient_moment_def small_moment_def small_submit_config_def f64_rounding_def mono_def)
  have "4 * 1 + 3 * secs 30 \<le> 4 * secs 100"
    using transient_failure_blocks_outbox [OF start_run run later mailer_simps(1) exact nanos cap]
    by (simp add: small_submit_config_def)
  with run show ?thesis by blast
qed

section \<open>Restarts\<close>

definition rests :: "submit_action list \<Rightarrow> nat list" where
  "rests os = List.map_filter (\<lambda>x. case x of Rested d \<Rightarrow> Some d | _ \<Rightarrow> None) os"

lemma rests_simps [simp]:
  "rests [] = []" "rests (SubmitNotice n # os) = rests os" "rests (Rested d # os) = d # rests os"
  "rests (xs @ ys) = rests xs @ rests ys"
  by (simp_all add: rests_def map_filter_def)

lemma failed_launch:
  assumes "\<not> la_watch la" and "\<not> la_cancelled la"
    and "prepare_site (la_env la) state_dir acct (sm_world s) = (Inr (Some st), sm_world s)"
    and "resolve_context (la_account_id la) (la_identity_get la) (la_mailbox_get la) (st_submit st) = Inr ctx"
    and "rb_base (sm_backoff s) = secs 5" and "rb_cap (sm_backoff s) = secs 300"
    and "launch_loop cd state_dir acct la s = (os, s')"
  shows "sm_phase s' = Resting (secs 5) \<and> sm_world s' = sm_world s \<and> fn_failed (sm_notifier s')
    \<and> rb_base (sm_backoff s') = secs 5 \<and> rb_cap (sm_backoff s') = secs 300 \<and> rests os = []
    \<and> submit_notices os = (if fn_failed (sm_notifier s) then [Up, Down] else [Down])"
  using assms
  by (auto simp: launch_loop_def after_return_def notify_recovered_def notify_failed_def
      reset_backoff_def take_delay_def Let_def split: if_splits)

definition watch_failures :: "(launch \<times> network_wait \<times> nat) list \<Rightarrow> submit_input list" where
  "watch_failures ls = concat (map (\<lambda>(la, net, waited). [Launch la, RestOver net waited]) ls)"

text \<open>A start that gets as far as the watcher, and the wait after it.\<close>

definition watch_failure :: "path option \<Rightarrow> account \<Rightarrow> submit_site \<Rightarrow> world \<Rightarrow> launch \<times> network_wait \<times> nat \<Rightarrow> bool" where
  "watch_failure state_dir acct st w x \<longleftrightarrow>
     (case x of (la, net, waited) \<Rightarrow>
        \<not> la_watch la \<and> \<not> la_cancelled la \<and> net \<noteq> Cancelled \<and> waited \<le> secs 5
      \<and> prepare_site (la_env la) state_dir acct w = (Inr (Some st), w)
      \<and> (\<exists>ctx. resolve_context (la_account_id la) (la_identity_get la) (la_mailbox_get la) (st_submit st) = Inr ctx))"

lemma watch_failures_run:
  assumes "\<forall>x\<in>set ls. watch_failure state_dir acct st w x"
    and "run_machine (submit_step cd state_dir acct) (watch_failures ls) s = Some (os, s')"
    and "sm_phase s = Launching" and "sm_world s = w"
    and "rb_base (sm_backoff s) = secs 5" and "rb_cap (sm_backoff s) = secs 300"
  shows "rests os = replicate (length ls) (secs 5)
    \<and> submit_notices os = (if fn_failed (sm_notifier s) then concat (replicate (length ls) [Up, Down])
        else if ls = [] then [] else Down # concat (replicate (length ls - 1) [Up, Down]))"
  using assms
proof (induction ls arbitrary: s os)
  case Nil
  then show ?case by (simp add: watch_failures_def)
next
  case (Cons x ls)
  obtain la net waited where x: "x = (la, net, waited)" by (cases x)
  have "watch_failures (x # ls) = Launch la # RestOver net waited # watch_failures ls"
    by (simp add: watch_failures_def x)
  then obtain os1 s1 os2 s2 os3 where l: "submit_step cd state_dir acct (Launch la) s = Some (os1, s1)"
    and r: "submit_step cd state_dir acct (RestOver net waited) s1 = Some (os2, s2)"
    and rest: "run_machine (submit_step cd state_dir acct) (watch_failures ls) s2 = Some (os3, s')"
    and os: "os = os1 @ os2 @ os3"
    using Cons.prems(2) by (auto simp only: run_machine_Cons)
  have wf: "\<not> la_watch la" "\<not> la_cancelled la" "net \<noteq> Cancelled" "waited \<le> secs 5"
    and pre: "prepare_site (la_env la) state_dir acct (sm_world s) = (Inr (Some st), sm_world s)"
    and "\<exists>ctx. resolve_context (la_account_id la) (la_identity_get la) (la_mailbox_get la) (st_submit st) = Inr ctx"
    using Cons.prems(1,4) by (auto simp: watch_failure_def x)
  then obtain ctx where ctx:
    "resolve_context (la_account_id la) (la_identity_get la) (la_mailbox_get la) (st_submit st) = Inr ctx" by blast
  have "launch_loop cd state_dir acct la s = (os1, s1)" using l by (auto split: if_splits)
  note f = failed_launch [OF wf(1,2) pre ctx Cons.prems(5,6) this]
  have s2: "os2 = [Rested (secs 5)]" "sm_phase s2 = Launching" "sm_world s2 = w" "sm_backoff s2 = sm_backoff s1"
    "sm_notifier s2 = sm_notifier s1"
    using r f wf(3,4) Cons.prems(4)
    by (auto simp: wait_for_connectivity_or_delay_def split: network_wait.splits)
  have "rests os3 = replicate (length ls) (secs 5)
    \<and> submit_notices os3 = concat (replicate (length ls) [Up, Down])"
    using Cons.IH [OF _ rest s2(2,3)] Cons.prems(1) f s2 by simp
  with f os s2(1) show ?case by simp
qed

text \<open>
  C39: When the file watcher cannot be set up, the task never backs off and never falls silent:
  each start resets the backoff and reports a recovery before it reaches the watcher, so every
  wait is five seconds, and every start after the first sends an "Up" and a "Down".
\<close>

theorem watch_failure_never_backs_off:
  assumes "\<forall>x\<in>set ls. watch_failure state_dir acct st w x" and "ls \<noteq> []"
    and "run_machine (submit_step cd state_dir acct) (watch_failures ls) (submit_start upper acct w) = Some (os, s)"
  shows "rests os = replicate (length ls) (secs 5)
    \<and> submit_notices os = Down # concat (replicate (length ls - 1) [Up, Down])"
  using watch_failures_run [OF assms(1,3)] assms(2)
  by (simp add: submit_start_def new_backoff_def new_notifier_def LOOP_RETRY_BASE_def LOOP_RETRY_CAP_def)

theorem watch_failure_never_backs_off_witness:
  "\<exists>os s. run_machine (submit_step plain_codec (Some [''s'']) mailer)
      [Launch (unwatched 1), RestOver Online 0, Launch (unwatched (secs 10)), RestOver Unavailable 3]
      (submit_start (\<lambda>c. [c]) mailer ready_world) = Some (os, s)
    \<and> rests os = [secs 5, secs 5] \<and> submit_notices os = [Down, Up, Down]"
proof -
  let ?ls = "[(unwatched 1, Online, 0), (unwatched (secs 10), Unavailable, 3)]"
  obtain os s where run: "run_machine (submit_step plain_codec (Some [''s'']) mailer)
      [Launch (unwatched 1), RestOver Online 0, Launch (unwatched (secs 10)), RestOver Unavailable 3]
      (submit_start (\<lambda>c. [c]) mailer ready_world) = Some (os, s)"
    using unwatched_run by blast
  then have run': "run_machine (submit_step plain_codec (Some [''s'']) mailer) (watch_failures ?ls)
      (submit_start (\<lambda>c. [c]) mailer ready_world) = Some (os, s)"
    by (simp add: watch_failures_def del: run_machine.simps)
  have "watch_failure (Some [''s'']) mailer sample_site ready_world (unwatched now, net, waited)"
    if "net \<noteq> Cancelled" "waited \<le> secs 5" for now net waited
    using that sample_prepare sample_context
    by (simp add: watch_failure_def unwatched_def sample_site_def) (simp add: sample_launch_def)
  then have "\<forall>x\<in>set ?ls. watch_failure (Some [''s'']) mailer sample_site ready_world x"
    by (simp add: secs_def)
  from watch_failure_never_backs_off [OF this _ run'] run show ?thesis by (auto simp: numeral_2_eq_2)
qed

section \<open>Renames\<close>

text \<open>
  The window for pairing the two halves of a rename does not close while the loop is idle:
  the second half of a move from Failed to the Outbox is taken for a drag-back however late it
  comes, because the sweep runs only before the wait for it. The headers are stripped, the retry
  state is reset and the message is queued.
\<close>

lemma late_rename_still_pairs:
  assumes "sm_phase s = Looping st ctx" and "sm_due s = []" and "sm_clock s \<le> t0" and "t0 \<le> t1"
    and "sched_ok (ls_queue (sm_loop s))" and "ls_pending (sm_loop s) = []" and "\<not> prefix ''.'' name"
  shows "\<exists>s1. run_machine (submit_step cd state_dir acct)
      [FileEvent v t0 t0 \<lparr>ev_side = FailedSide, ev_path = d @ [name], ev_subdir = sub, ev_kind = RenameFrom\<rparr>,
       FileEvent v t0 t1 \<lparr>ev_side = OutboxSide, ev_path = d' @ [name], ev_subdir = sub', ev_kind = CreateOrRenameTo\<rparr>] s
        = Some ([], s1)
    \<and> sm_world s1 = snd (bindE (ignore_err (strip_family2_headers_in_place v (d' @ [name])))
        (\<lambda>_. reset_sidecar_for_retry v cd (st_sidecars st) (strip_flags name)) (sm_world s))
    \<and> due_of (ls_queue (sm_loop s1)) (strip_flags name) = Some t1"
proof -
  let ?b = "strip_flags name"
  let ?l = "(sm_loop s)\<lparr>ls_pending := [(?b, \<lparr>pr_side = FailedSide, pr_seen_at = t0\<rparr>)]\<rparr>"
  have idle: "expire_pending_renames t0 (sm_loop s) = sm_loop s"
    using assms(6) by (simp add: expire_pending_renames_def)
  have open_: "expire_pending_renames t0 ?l = ?l"
    by (simp add: expire_pending_renames_def)
  have first: "submit_step cd state_dir acct
      (FileEvent v t0 t0 \<lparr>ev_side = FailedSide, ev_path = d @ [name], ev_subdir = sub, ev_kind = RenameFrom\<rparr>) s
      = Some ([], s\<lparr>sm_loop := ?l, sm_clock := t0\<rparr>)"
    using assms by (simp add: idle handle_event_def Let_def ret_def)
  let ?m = "bindE (ignore_err (strip_family2_headers_in_place v (d' @ [name])))
        (\<lambda>_. reset_sidecar_for_retry v cd (st_sidecars st) ?b)"
  let ?l2 = "?l\<lparr>ls_pending := [], ls_known_failures := removeAll ?b (ls_known_failures ?l),
      ls_queue := schedule_at ?b t1 (ls_queue ?l)\<rparr>"
  have "handle_event v cd (st_sidecars st) t1
      \<lparr>ev_side = OutboxSide, ev_path = d' @ [name], ev_subdir = sub', ev_kind = CreateOrRenameTo\<rparr> ?l (sm_world s)
    = (Inr ?l2, snd (?m (sm_world s)))"
    using assms(7)
    by (simp add: handle_event_def Let_def bindE_def ret_def ignore_err_def reset_sidecar_for_retry_def fs_query_def)
  then have second: "submit_step cd state_dir acct
      (FileEvent v t0 t1 \<lparr>ev_side = OutboxSide, ev_path = d' @ [name], ev_subdir = sub', ev_kind = CreateOrRenameTo\<rparr>)
      (s\<lparr>sm_loop := ?l, sm_clock := t0\<rparr>)
    = Some ([], s\<lparr>sm_loop := ?l2, sm_world := snd (?m (sm_world s)), sm_clock := t1\<rparr>)"
    using assms(1,2,4) open_ by simp
  show ?thesis
    using assms(5) first second
    by (simp add: run_machine_Cons retry_queue.put_due del: submit_step.simps)
qed

lemma late_rename_still_pairs_witness:
  "\<exists>s1. run_machine (submit_step plain_codec (Some [''s'']) mailer)
      [FileEvent quiet_env 1 1 \<lparr>ev_side = FailedSide, ev_path = [''m'', ''Failed'', ''new''] @ [''b''],
         ev_subdir = ''new'', ev_kind = RenameFrom\<rparr>,
       FileEvent quiet_env 1 (secs 3600) \<lparr>ev_side = OutboxSide, ev_path = [''m'', ''Outbox'', ''new''] @ [''b''],
         ev_subdir = ''new'', ev_kind = CreateOrRenameTo\<rparr>] (drained_task\<lparr>sm_due := []\<rparr>) = Some ([], s1)
    \<and> due_of (ls_queue (sm_loop s1)) (strip_flags ''b'') = Some (secs 3600)"
proof -
  let ?s = "drained_task\<lparr>sm_due := []\<rparr>"
  have s: "sm_phase ?s = Looping sample_site small_context" "sm_due ?s = []" "sm_clock ?s \<le> 1"
    "ls_pending (sm_loop ?s) = []" by (simp_all add: drained_task_def)
  have "sched_ok (ls_queue (sm_loop ?s))"
    using reached_ok [OF start_run] by (simp add: task_ok_def)
  moreover have "(1::nat) \<le> secs 3600" "\<not> prefix ''.'' ''b''" by (simp_all add: secs_def)
  ultimately show ?thesis
    using late_rename_still_pairs [OF s(1-3) _ _ s(4)] by blast
qed

section \<open>Interrupted attempts\<close>

lemma trim_suffix_once: "\<not> suffix ''.json'' b \<Longrightarrow> trim_suffix ''.json'' (b @ ''.json'') = b"
  by (subst trim_suffix.simps) (simp add: trim_suffix.simps [of _ b] suffix_def)

text \<open>
  A crash in the middle of an attempt is reported: when the sidecar of an attempt was written
  and the daemon comes back at least a minute after the time in it, the startup scan names the
  message and that time. (The message's name does not end in ".json"; a name that does is cut
  short and the report is about another file.)
\<close>

lemma interrupted_attempt_is_reported:
  assumes "save_sidecar v cd dir b (sc\<lparr>sd_in_flight := Some since\<rparr>) w = (Inr (), w')"
    and "codec_faithful cd" and "\<not> fault v' (ReadFile (sidecar_path dir b))" and "\<not> fault v' (ReadDir dir)"
    and "b \<noteq> []" and "\<not> prefix ''.'' b" and "\<not> suffix ''.json'' b"
    and "parse_rfc3339 srv since = Inr t" and "secs (nat t) + secs 60 \<le> now"
  shows "(b, since) \<in> set (stale_inflight v' cd srv dir now (files w'))"
proof -
  let ?s = "sc\<lparr>sd_in_flight := Some since\<rparr>" and ?p = "sidecar_path dir b" and ?t = "sidecar_tmp dir b"
  obtain w1 where wr: "sys_write v ?t (sidecar_print cd ?s) w = (Inr (), w1)"
    and rn: "sys_rename v ?t ?p w1 = (Inr (), w')"
    using assms(1) by (auto simp: save_sidecar_def bindE_eq_Inr)
  have t: "map_of (files w1) ?t = Some (File (sidecar_print cd ?s))"
    using wr by (auto simp: sys_write_def sys_Inr map_of_write_file)
  obtain f where f: "rename (files w1) ?t ?p = Some f" "w' = w1\<lparr>files := f\<rparr>"
    using rn by (auto simp: sys_rename_def sys_Inr)
  have at: "map_of (files w') ?p = Some (File (sidecar_print cd ?s))"
    using map_of_rename_file [OF f(1) t] f(2) by simp
  then have load: "sd_in_flight (load_sidecar v' cd dir b (files w')) = Some since"
    using assms(2,3) by (simp add: load_sidecar_def read_file_def codec_faithful_def)
  have "is_dir (files w1) dir" using f(1) t by (auto simp: rename_def sidecar_path_def split: if_splits)
  then have "is_dir (files w') dir"
    using map_of_rename_file [OF f(1) t] f(2) t
    by (auto simp: is_dir_def sidecar_path_def sidecar_tmp_def)
  moreover have "b @ ''.json'' \<in> set (dir_entries (files w') dir)"
    using at by (auto simp: read_dir_dir_entries sidecar_path_def dest: map_of_SomeD intro: rev_image_eqI)
  ultimately have listed: "b @ ''.json'' \<in> set (list_dir v' (files w') dir)"
    using assms(4) by (simp add: list_dir_def read_dir_def)
  have visible: "\<not> prefix ''.'' (b @ ''.json'')" using assms(5,6) by (cases b) auto
  have stale: "is_stale srv now since"
    using assms(8,9) by (simp add: is_stale_def STARTUP_INFLIGHT_STALENESS_def)
  show ?thesis
    unfolding stale_inflight_def in_map_filter
    using listed visible stale load trim_suffix_once [OF assms(7)]
    by (intro bexI [of _ "b @ ''.json''"]) (simp_all add: Let_def suffix_def)
qed

lemma interrupted_attempt_is_reported_witness:
  "\<exists>w'. save_sidecar quiet_env plain_codec sample_sidecars ''b''
      (small_sidecar\<lparr>sd_in_flight := Some ''later''\<rparr>) ready_world = (Inr (), w')
    \<and> (''b'', ''later'') \<in> set (stale_inflight quiet_env plain_codec small_server sample_sidecars (secs 69) (files w'))"
proof -
  let ?s = "small_sidecar\<lparr>sd_in_flight := Some ''later''\<rparr>"
  obtain w' where saved: "save_sidecar quiet_env plain_codec sample_sidecars ''b'' ?s ready_world = (Inr (), w')"
    by (simp add: save_sidecar_def run_simps sidecar_path_def sidecar_tmp_def ready_world_def sample_dirs_def)
  have "parse_rfc3339 small_server ''later'' = Inr 9" by (simp add: small_server_def)
  moreover have "secs (nat 9) + secs 60 \<le> secs 69" by (simp add: secs_def)
  moreover have "\<not> suffix ''.json'' ''b''" "\<not> prefix ''.'' ''b''" by (simp_all add: suffix_def)
  ultimately show ?thesis
    using interrupted_attempt_is_reported [OF saved plain_codec_faithful, of quiet_env small_server 9 "secs 69"] saved
    by simp
qed

section \<open>The watcher\<close>



text \<open>
  A file that is created, removed and created again within the window: the second creation is
  dropped and the removal stands, so that the file is there and its name is not queued.
\<close>

lemma rewritten_message_is_forgotten:
  assumes "t \<le> t1" and "t1 \<le> t2" and "t2 < t + EVENT_DEBOUNCE"
    and "classify_path p outbox failed = Some (OutboxSide, sub)" and "p = q @ [name]" and "\<not> prefix ''.'' name"
    and "removal = \<lparr>ev_side = OutboxSide, ev_path = p, ev_subdir = sub, ev_kind = RemoveEvent\<rparr>"
    and "handle_event v cd dir now removal s w = (Inr s', w')" and "sched_ok (ls_queue s)"
  shows "outbox_watch outbox failed EVENT_DEBOUNCE [(t, NotifyCreate, [p]), (t1, NotifyRemove, [p]), (t2, NotifyCreate, [p])]
      = [(t, removal\<lparr>ev_kind := CreateOrRenameTo\<rparr>), (t1, removal)]
    \<and> due_of (ls_queue s') (strip_flags name) = None"
  using assms
  by (auto simp: outbox_watch_def watch_events_def event_key_def List.map_filter_simps handle_event_def Let_def
      bindE_eq_Inr retry_queue.cancel_due)

end
