(* ===== verification/Account_Properties.thy ===== *)
theory Account_Properties
  imports Daemon_Run Submit_Loop_Properties Daemon_Properties
begin

text \<open>
  The properties of the two tasks of an account together: the synchronisation beside the send
  folders, a message through both tasks, the end of an account, and the limits of the exclusion
  of mailboxes.
\<close>

section \<open>The synchronisation beside the send folders\<close>

text \<open>
  C4: A pass of the synchronisation, whether it succeeds or fails and whatever the server
  answers, changes nothing in Outbox and Failed: every place below them holds the file or the
  directory it held, or nothing if it held nothing, provided no mailbox leads there and no stored
  path does. Both conditions on what is stored are kept, so they last over any number of passes.
\<close>

theorem sync_spares_send_folders:
  assumes "sync_account v glob cl acct elapsed dry w = Some (r, w')" and "mail acct = Some cfg"
    and "slash_free_uuids v" and "\<And>view. cl_mailbox_get cl = Inr view \<Longrightarrow> clear_view cfg view"
    and "rows_clear (db w)" and "plain_fs (files w)" and "folder \<in> set send_folders"
  shows "map_of (files w') (mail_root_of cfg @ folder # rest) = map_of (files w) (mail_root_of cfg @ folder # rest)
    \<and> rows_clear (db w') \<and> plain_fs (files w')"
proof -
  have "spared (mail_root_of cfg @ b # rest) (map_of (files w) (mail_root_of cfg @ b # rest)) w'"
    if "spared (mail_root_of cfg @ b # rest) (map_of (files w) (mail_root_of cfg @ b # rest)) w"
      and "b \<in> set send_folders" for b
  proof -
    from that(2) consider "b = ''Outbox''" | "b = ''Failed''" by (auto simp: send_folders_def)
    then show ?thesis
      using outbox.spared_sync_account [OF assms(2) refl assms(3,4,1)]
        failed.spared_sync_account [OF assms(2) refl assms(3,4,1)] that(1) by cases auto
  qed
  with assms(5-7) show ?thesis by (simp add: spared_def)
qed

text \<open>Two mailboxes are created and a message is downloaded, beside a message that waits in the Outbox.\<close>

definition shared_files :: fs where
  "shared_files = [([''mail''], Dir), ([''mail'', ''Outbox''], Dir), ([''mail'', ''Outbox'', ''new''], Dir),
     ([''mail'', ''Outbox'', ''new'', ''a''], File ''hi'')]"

definition tree_client :: client where
  "tree_client = small_client\<lparr>cl_mailbox_get := Inr tree_view\<rparr>"

lemma served_sync_returns:
  assumes "\<And>mb. serves cl mb (ids_of mb) \<and> length (ids_of mb) < 2147483648" and "mail acct = Some cfg"
  shows "\<exists>r w'. sync_account v glob cl acct elapsed dry w = Some (r, w')"
proof -
  have "\<exists>m. sync_emails v cl ms root dry = Some m" for ms root
  proof -
    let ?keys = "hm_keys (iterate v 2 (mailboxes_by_jmap ms))"
    obtain out where "fetch_all_email_ids cl ?keys [] = Some (Inr out)"
      using fetch_all_email_ids_serves [of ?keys cl ids_of "[]"] assms(1) by auto
    then show ?thesis by (simp add: sync_emails_def Let_def)
  qed
  then have m: "sync_emails v cl ms root dry = Some (the (sync_emails v cl ms root dry))" for ms root
    by (metis option.sel)
  obtain r1 w1 where "sync_mailboxes v glob (cl_mailbox_get cl) acct dry w = (r1, w1)" by fastforce
  moreover obtain r2 w2 where
    "the (sync_emails v cl (case r1 of Inr ms \<Rightarrow> ms | _ \<Rightarrow> []) (mail_root_of cfg) dry) w1 = (r2, w2)"
    by fastforce
  ultimately show ?thesis
    using assms(2) by (cases r1; cases r2) (simp_all add: sync_account_def, (subst m, simp)+)
qed

lemma quiet_uuids: "slash_free_uuids quiet_env"
proof -
  have "c \<noteq> CHR ''/''" if "c \<in> set (show_nat n)" for c n
    using show_nat_digits [OF that] by auto
  then show ?thesis by (auto simp: slash_free_uuids_def)
qed

theorem sync_spares_send_folders_witness:
  "\<exists>r w'. sync_account quiet_env no_globs tree_client tree_account 5 False (fresh_world\<lparr>files := shared_files\<rparr>)
      = Some (r, w')
    \<and> map_of (files w') [''mail'', ''Outbox'', ''new'', ''a''] = Some (File ''hi'')"
proof -
  have "serves tree_client mb (if mb = ''j1'' then [''M2''] else [])" for mb
    using small_client_serves [of mb] by (simp add: serves_def tree_client_def)
  then obtain r w' where run: "sync_account quiet_env no_globs tree_client tree_account 5 False
      (fresh_world\<lparr>files := shared_files\<rparr>) = Some (r, w')"
    using served_sync_returns [of tree_client "\<lambda>mb. if mb = ''j1'' then [''M2''] else []" tree_account tree_config]
    by (fastforce simp: tree_account_def)
  have view: "clear_view tree_config view" if "cl_mailbox_get tree_client = Inr view" for view
  proof -
    have "clear_view tree_config tree_view" by code_simp
    with that show ?thesis by (simp add: tree_client_def)
  qed
  have root: "mail_root_of tree_config = [''mail'']" by code_simp
  have "rows_clear (db (fresh_world\<lparr>files := shared_files\<rparr>))"
    by (simp add: rows_clear_def fresh_world_def empty_database_def)
  moreover have "plain_fs (files (fresh_world\<lparr>files := shared_files\<rparr>))"
    by (simp add: plain_fs_def shared_files_def plain_component_def)
  ultimately show ?thesis
    using sync_spares_send_folders [OF run _ quiet_uuids view, of "''Outbox''" "[''new'', ''a'']"] root run
    by (simp add: tree_account_def send_folders_def shared_files_def)
qed

section \<open>A message through both tasks\<close>


text \<open>
  The client is there, the submit task is spawned, finds two messages and drains them; then a
  pass of the synchronisation, and an attempt that the server cannot be reached for.
\<close>

abbreviation mailer_step :: "account_input \<Rightarrow> account_task \<Rightarrow> (account_action list \<times> account_task) option" where
  "mailer_step \<equiv> account_step (\<lambda>c. [c]) plain_codec (Some [''s'']) mailer True"

definition bring_up :: "account_input list" where
  "bring_up = SuperviseInput ClientReady # map SubmitInput start_inputs"

definition both_running :: account_task where
  "both_running = \<lparr>ac_super = Supervising (sse_start (\<lambda>c. [c]) mailer ready_world),
     ac_submit = Some drained_task, ac_files = files ready_world\<rparr>"

lemma same_files [simp]: "w\<lparr>files := files w\<rparr> = w"
  by simp

lemma submitted_run:
  assumes "run_machine (submit_step cd state_dir a) is t = Some (os, t')" and "ac_submit s = Some t"
    and "ac_files s = files (sm_world t)"
  shows "run_machine (account_step upper cd state_dir a watched) (map SubmitInput is) s
    = Some (map Submitted os, s\<lparr>ac_submit := Some t', ac_files := files (sm_world t')\<rparr>)"
  using assms
proof (induction "is" arbitrary: s t os)
  case Nil
  then show ?case by simp
next
  case (Cons i js)
  obtain os1 t1 os2 where step: "submit_step cd state_dir a i t = Some (os1, t1)"
    and run: "run_machine (submit_step cd state_dir a) js t1 = Some (os2, t')" and os: "os = os1 @ os2"
    using Cons.prems(1) by (auto simp only: run_machine_Cons)
  let ?s1 = "s\<lparr>ac_submit := Some t1, ac_files := files (sm_world t1)\<rparr>"
  have "account_step upper cd state_dir a watched (SubmitInput i) s = Some (map Submitted os1, ?s1)"
    using step Cons.prems(2,3) by simp
  with Cons.IH [OF run, of ?s1] os show ?case by (simp del: account_step.simps)
qed

lemma spawned:
  "mailer_step (SuperviseInput ClientReady) (account_start (\<lambda>c. [c]) mailer ready_world)
    = Some ([Supervised SpawnSubmit], \<lparr>ac_super = Supervising (sse_start (\<lambda>c. [c]) mailer ready_world),
        ac_submit = Some (submit_start (\<lambda>c. [c]) mailer ready_world), ac_files = files ready_world\<rparr>)"
  by (simp add: account_start_def supervisor_start_def spawn_submit_def notify_recovered_def new_notifier_def
      mailer_simps sse_start_def)

lemma brought_up:
  "run_machine mailer_step bring_up (account_start (\<lambda>c. [c]) mailer ready_world)
    = Some ([Supervised SpawnSubmit], both_running)"
proof -
  let ?s = "\<lparr>ac_super = Supervising (sse_start (\<lambda>c. [c]) mailer ready_world),
        ac_submit = Some (submit_start (\<lambda>c. [c]) mailer ready_world), ac_files = files ready_world\<rparr>"
  have "run_machine mailer_step (map SubmitInput start_inputs) ?s
      = Some ([], ?s\<lparr>ac_submit := Some drained_task, ac_files := files (sm_world drained_task)\<rparr>)"
    using submitted_run [OF start_run, of ?s] by (simp add: submit_start_def)
  then show ?thesis
    by (simp add: bring_up_def spawned both_running_def drained_task_def submit_start_def del: account_step.simps)
qed









section \<open>The end of the daemon\<close>

text \<open>
  C14: The daemon runs until it is told to stop, and then it stops: before the signal no
  supervisor of an account has returned, whatever the server, the network and the file system
  do; and after the signal there is a bound on the steps that all tasks together still take, in
  whatever order they fall, while as long as one of them has not returned one of them can go on.
  So \<open>run_daemon_inner\<close> returns after at most that many steps.
\<close>

theorem signalled_daemon_ends:
  assumes "run_machine (daemon_step upper cd state_dir watch_ok) is (daemon_begin upper cfg spawned h) = Some (os, s)"
  shows "if dm_signalled s
    then (\<not> daemon_over s \<longrightarrow> (\<exists>i. \<not> outside i \<and> daemon_step upper cd state_dir watch_ok i s \<noteq> None))
      \<and> (\<forall>js ps s'. run_machine (daemon_step upper cd state_dir watch_ok) js s = Some (ps, s')
           \<longrightarrow> length (filter (\<lambda>i. \<not> outside i) js) \<le> daemon_left s)
    else list_all (\<lambda>(_, t). ac_super t \<noteq> Finished) (dm_tasks s)"
proof -
  have ok: "daemon_ok s"
    by (rule run_keeps [where P = daemon_ok, OF daemon_step_ok assms daemon_begin_ok])
  show ?thesis
    using daemon_step_possible [OF ok] signalled_run_bound ok by (auto simp: daemon_ok_def list_all_iff)
qed

text \<open>Two accounts, of which one has its client when the signal comes.\<close>

theorem signalled_daemon_ends_witness:
  "\<exists>s. run_machine (daemon_step (\<lambda>c. [c]) plain_codec (Some [''s'']) (\<lambda>_. True))
      [TaskInput 0 (SuperviseInput ClientReady), Signal, TaskInput 1 (SuperviseInput Terminate)]
      (daemon_begin (\<lambda>c. [c]) one_account [mailer, tree_account] opened_host) = Some ([(0, Supervised SpawnSubmit)], s)
    \<and> \<not> daemon_over s \<and> daemon_left s = 3
    \<and> (\<exists>i. \<not> outside i \<and> daemon_step (\<lambda>c. [c]) plain_codec (Some [''s'']) (\<lambda>_. True) i s \<noteq> None)"
proof -
  let ?step = "daemon_step (\<lambda>c. [c]) plain_codec (Some [''s'']) (\<lambda>_. True)"
  let ?is = "[TaskInput 0 (SuperviseInput ClientReady), Signal, TaskInput 1 (SuperviseInput Terminate)]"
  have "\<exists>s. run_machine ?step ?is (daemon_begin (\<lambda>c. [c]) one_account [mailer, tree_account] opened_host)
      = Some ([(0, Supervised SpawnSubmit)], s) \<and> dm_signalled s \<and> \<not> daemon_over s \<and> daemon_left s = 3"
    by (simp add: daemon_begin_def account_start_def supervisor_start_def spawn_submit_def notify_recovered_def
        new_notifier_def mailer_simps sse_start_def submit_start_def daemon_over_def account_over_def
        daemon_left_def task_left_def to_stop_def)
  then obtain s where run: "run_machine ?step ?is (daemon_begin (\<lambda>c. [c]) one_account [mailer, tree_account] opened_host)
      = Some ([(0, Supervised SpawnSubmit)], s)" and s: "dm_signalled s" "\<not> daemon_over s" "daemon_left s = 3" by blast
  from signalled_daemon_ends [OF run] s have "\<exists>i. \<not> outside i \<and> ?step i s \<noteq> None"
    by (simp del: daemon_step.simps)
  with run s show ?thesis by blast
qed

section \<open>The shape of an account\<close>

text \<open>
  C18: The state of an account is well-formed in every run: the submit task is spawned at most
  once, and only by the supervisor that has its client; while that supervisor runs the task is
  there exactly when the account has a submit section; and its retry queue is consistent and its
  loop stands on the Outbox, the Failed folder and the sidecars of the account.
\<close>

theorem submit_task_is_spawned_once:
  assumes "run_machine (account_step upper cd state_dir a watched) is (account_start upper a w) = Some (os, s)"
  shows "submit_tasks os = (if ac_submit s = None then 0 else 1) \<and> account_shape state_dir a s"
proof -
  have "account_shape state_dir a (account_start upper a w)" "ac_submit (account_start upper a w) = None"
    by (simp_all add: account_shape_def account_start_def supervisor_start_def)
  from account_shape_run [OF assms this(1)] this(2) show ?thesis by simp
qed

theorem submit_task_is_spawned_once_witness:
  "submit_tasks [Supervised SpawnSubmit] = 1 \<and> account_shape (Some [''s'']) mailer both_running"
  using submit_task_is_spawned_once [OF brought_up] by (simp add: both_running_def)

section \<open>What the exclusion of mailboxes does not shield\<close>









end
