(* ===== verification/Spec2Isabelle.thy ===== *)
theory Spec2Isabelle
  imports Sync_Properties Retry_Properties Delivery_Properties Config_Properties
    Database_Properties Flag_Properties Daemon_Properties
    Account_Properties
begin

text \<open>
  A verification development for \<open>jmapsyncd\<close>, which keeps a Maildir tree and a JMAP mail
  account in step and submits queued mail.

  \<^bold>\<open>The program.\<close> \<open>sync/mod.rs\<close> runs one synchronisation of an account: \<open>sync/mailbox.rs\<close>
  fetches the mailbox tree, decides which mailboxes to materialise, and brings directories and
  rows into line; \<open>sync/email.rs\<close> then pushes local changes to the server (write-back), drops
  what the server no longer holds, and creates, moves and updates the rest. Both act on the
  SQLite database of \<open>db/mod.rs\<close> and on the file system. \<open>bin/jmapqueue.rs\<close> spools outgoing
  mail into the Outbox with a sidecar file; \<open>daemon/submit.rs\<close> watches Outbox and Failed,
  submits what is due, and retries with the backoff of \<open>daemon/resilience.rs\<close>. \<open>daemon/mod.rs\<close>
  runs all of it for each account, behind the lock of \<open>daemon/single_instance.rs\<close>. \<open>config.rs\<close>
  and \<open>jmap/mod.rs\<close> load the configuration and build the client; \<open>bin/jmapsyncd.rs\<close> takes
  the arguments of \<open>args.rs\<close> and starts the one-shot command or the daemon.

  \<^bold>\<open>The model.\<close> A function that writes is a function from a \<^typ>\<open>world\<close> (database, files,
  requests sent) to a result and a world; a failing step leaves the world as the earlier steps
  made it, and errors are values. What the code cannot determine (refused system calls, clock,
  UUIDs, the iteration order of hash maps, \<open>serde_json\<close>, \<open>chrono\<close>, \<open>mailparse\<close>, globs, the
  server) is a parameter. Rust's \<open>String\<close> and \<open>[u8]\<close> are lists of bytes.

  \<^bold>\<open>Shared theories.\<close>
  \<^item> \<open>Prelude\<close>: errors, the effect type with its rules (\<open>keeps\<close>), hash maps, chunks.
  \<^item> \<open>Rust_Str\<close>, \<open>Std_Fs\<close>, \<open>Btree_Map\<close>: the parts of the standard library that are used
    (strings and UTF-8, paths and \<open>std::fs\<close>, \<open>BTreeMap\<close>).
  \<^item> \<open>World\<close>: the world, the environment and the calls; \<open>Samples\<close>: concrete surroundings in
    which the witnesses run.

  \<^bold>\<open>Components.\<close>
  \<^item> \<open>Db\<close>, \<open>Db_Integrity\<close> (\<open>db/mod.rs\<close>, \<open>db/models.rs\<close>): tables as lists of rows, one function
    per statement, the constraints of the schema, the invariant \<open>db_wf\<close>, and the contract
    \<open>row_store\<close> of a keyed table, interpreted on the mailbox and the email table.
  \<^item> \<open>Mailbox_Tree\<close>, \<open>Mailbox_Tree_Facts\<close>, \<open>Mailbox_Sync\<close>, \<open>Mailbox_Sync_Facts\<close>
    (\<open>sync/mailbox.rs\<close>): from the server's view to the target set, its topological order, and
    the application of the difference.
  \<^item> \<open>Maildir_Flags\<close>, \<open>Jmap_Server\<close>, \<open>Email_Sync\<close>, \<open>Email_Sync_Facts\<close>, \<open>Email_Outcome\<close>,
    \<open>Email_Files\<close> (\<open>sync/email.rs\<close>): keywords and flags, the client as a record of answers, the
    passes over the emails, and what they leave in the database and on the disk.
  \<^item> \<open>Sync_Account\<close> (\<open>sync/mod.rs\<close>): the composition.
  \<^item> \<open>Config\<close> (\<open>config.rs\<close>) and \<open>Jmap_Conn\<close> (\<open>jmap/mod.rs\<close>).
  \<^item> \<open>Resilience\<close> (\<open>daemon/resilience.rs\<close>): backoff, notifier, wait for the network, labels.
  \<^item> \<open>Retry_Schedule\<close>, \<open>Family2\<close>, \<open>Submit_Outcome\<close>, \<open>Submit_Facts\<close>, \<open>Outbox\<close>,
    \<open>Outbox_Facts\<close> (\<open>daemon/submit.rs\<close>): the retry queue with its contract \<open>timer_queue\<close>, the
    diagnostic headers, one submission with its reconciliation, and the Outbox around it.
  \<^item> \<open>Jmapqueue\<close> (\<open>bin/jmapqueue.rs\<close>).
  \<^item> \<open>Single_Instance\<close> (\<open>daemon/single_instance.rs\<close>): the lock file over the table of held
    locks, and its invariant \<open>locks_ok\<close>.
  \<^item> \<open>Machine\<close>, \<open>Daemon\<close>, \<open>Daemon_Facts\<close> (\<open>daemon/mod.rs\<close>): a task is a machine whose inputs
    are what its awaits return and whose outputs are its actions; \<open>ordered_machine\<close> is the
    contract of a machine that keeps an order, interpreted on the event loop for its protocol and
    for its notifications, and on the submit task for its own. The host holds the locks and one
    database for each account.
  \<^item> \<open>Maildir_Watch\<close> (\<open>spawn_maildir_watch\<close> of \<open>daemon/mod.rs\<close>): events with their times, and
    the ticks they become.
  \<^item> \<open>Submit_Loop\<close>, \<open>Submit_Loop_Facts\<close> (\<open>run_account_submit_loop\<close> of \<open>daemon/submit.rs\<close>): the
    submit task as a machine: a start, the drained names, the file events, the rests between
    starts; and the watcher that reports the file events. Its actions record each attempt with its time, so that what holds of every run can
    be said of them; its invariant \<open>task_ok\<close> is kept by every step and its notices
    alternate. \<open>Submit_Samples\<close> holds the runs on which its properties are applied.
  \<^item> \<open>Account_Task\<close>, \<open>Daemon_Run\<close> (\<open>run_account_supervisor\<close> and \<open>run_daemon_inner\<close> of
    \<open>daemon/mod.rs\<close>): the supervisor and the submit task it spawns over the files they share, and
    the accounts side by side until the signal. \<open>Send_Folders\<close> holds the contract
    \<open>send_folder\<close> of a place below Outbox or Failed that the synchronisation leaves alone,
    interpreted on both folders; it rests on the stored paths staying clear of them.
  \<^item> \<open>Command_Line\<close> (\<open>args.rs\<close>, \<open>bin/jmapsyncd.rs\<close>, \<open>logging.rs\<close>): from the arguments to the
    exit code.

  \<^bold>\<open>Properties.\<close> \<open>Database_Properties\<close>, \<open>Mailbox_Properties\<close>, \<open>Flag_Properties\<close>,
  \<open>Email_Properties\<close>, \<open>Sync_Properties\<close>, \<open>Retry_Properties\<close>, \<open>Delivery_Properties\<close>,
  \<open>Config_Properties\<close>, \<open>Daemon_Properties\<close> and \<open>Submit_Loop_Properties\<close> state what the components
  promise, and \<open>Account_Properties\<close> what they promise together, each with a run on a concrete
  input where the statement has hypotheses.

  \<^bold>\<open>Termination.\<close> The paging of \<open>page_query_ids\<close> may run forever on a server that never sends
  a short page; it is a partial function whose value \<open>None\<close> means that, and
  \<open>paging_ends_with_every_id\<close> shows that it ends on a server that pages. Every other loop is
  total: \<open>resolve_path\<close> because each turn adds an identifier of the map to \<open>seen\<close>,
  \<open>topo_sort_creates_and_updates\<close> because each turn removes a ready identifier, the scanners of
  the header functions and the debouncing of events because they consume input. The tasks of the
  daemon run over lists of inputs, one step for each. No fuel is used.

  \<^bold>\<open>Not modelled.\<close> What the log says; the parsing of the command line by \<open>clap\<close> and of the
  environment by \<open>env_logger\<close>; channels that are full; what SQLite does to open a file; child
  processes (\<open>nm-online\<close>, \<open>notify-send\<close>, the post-sync hook) beyond how they end; symbolic
  links, and partial writes (a system call either happens or is refused); the formatting of
  dates by \<open>chrono\<close> and of UUIDs and ULIDs. The tasks interleave by whole steps: a pass of
  the synchronisation, an attempt and a start are one step each, although they give way to the
  other tasks while they wait for the server, so an interleaving inside a pass is not covered.
  Files that change behind a pass are an input of the submit task (\<open>Elsewhere\<close>).
\<close>

end
